(* ===== verification/Prelude.thy ===== *)
theory Prelude
  imports Main "HOL-Library.AList" "HOL-Library.Char_ord" "HOL-Library.List_Lexorder"
    "HOL-Library.Sublist" "HOL-Library.Multiset"
begin

text \<open>
  What every component of the development shares: the collections of rewrite
  rules, Go's fixed-width signed integers, Go's maps as association lists with
  the interface the components use them through, the first match of a search
  loop, and the removal of a list element by moving the last one into its place.
\<close>

named_theorems go_defs \<open>definitions of the model that automation unfolds\<close>
named_theorems i64_simps \<open>arithmetic of Go's int64\<close>
named_theorems inv_intros \<open>operations that keep an invariant\<close>

subsection \<open>Signed 64-bit and 32-bit integers\<close>

text \<open>
  Go's \<^verbatim>\<open>int64\<close> and, on the 64-bit targets the repository builds for, \<^verbatim>\<open>int\<close>:
  every sum, difference and product is reduced to two's complement.
\<close>

definition i64 :: "int \<Rightarrow> int" where
  "i64 x = signed_take_bit 63 x"

definition i32 :: "int \<Rightarrow> int" where
  "i32 x = signed_take_bit 31 x"

definition in_i64 :: "int \<Rightarrow> bool" where
  "in_i64 x \<longleftrightarrow> - (2 ^ 63) \<le> x \<and> x < 2 ^ 63"

definition add64 :: "int \<Rightarrow> int \<Rightarrow> int" where
  "add64 a b = i64 (a + b)"

definition sub64 :: "int \<Rightarrow> int \<Rightarrow> int" where
  "sub64 a b = i64 (a - b)"

definition neg64 :: "int \<Rightarrow> int" where
  "neg64 a = i64 (- a)"

definition mul64 :: "int \<Rightarrow> int \<Rightarrow> int" where
  "mul64 a b = i64 (a * b)"

text \<open>Go's division truncates towards zero; the code never divides by zero where it is used.\<close>

definition quot64 :: "int \<Rightarrow> int \<Rightarrow> int" where
  "quot64 a b = i64 (sgn a * sgn b * (\<bar>a\<bar> div \<bar>b\<bar>))"

lemma i64_id [i64_simps]: "in_i64 x \<Longrightarrow> i64 x = x"
  by (simp add: i64_def in_i64_def signed_take_bit_int_eq_self)

lemma in_i64_i64 [simp]: "in_i64 (i64 x)"
  unfolding i64_def in_i64_def
  by (intro conjI signed_take_bit_int_greater_eq_minus_exp signed_take_bit_int_less_exp)

lemma i64_i64 [simp]: "i64 (i64 x) = i64 x"
  by (simp add: i64_id)

lemma in_i64_arith [simp]:
  "in_i64 (add64 a b)" "in_i64 (sub64 a b)" "in_i64 (neg64 a)" "in_i64 (mul64 a b)"
  by (simp_all add: add64_def sub64_def neg64_def mul64_def)

lemma i64_add_left [simp]: "i64 (i64 a + b) = i64 (a + b)"
  and i64_add_right [simp]: "i64 (a + i64 b) = i64 (a + b)"
  by (simp_all add: i64_def) (metis signed_take_bit_add signed_take_bit_signed_take_bit min.idem)+

lemma i64_diff_left [simp]: "i64 (i64 a - b) = i64 (a - b)"
  and i64_diff_right [simp]: "i64 (a - i64 b) = i64 (a - b)"
  by (simp_all add: i64_def) (metis signed_take_bit_diff signed_take_bit_signed_take_bit min.idem)+

lemma i64_minus [simp]: "i64 (- i64 a) = i64 (- a)"
  using i64_diff_right [of 0 a] by simp

lemma add64_id [i64_simps]: "in_i64 (a + b) \<Longrightarrow> add64 a b = a + b"
  by (simp add: add64_def i64_id)

lemma sub64_id [i64_simps]: "in_i64 (a - b) \<Longrightarrow> sub64 a b = a - b"
  by (simp add: sub64_def i64_id)

lemma add64_zero [simp]: "in_i64 a \<Longrightarrow> add64 a 0 = a" "in_i64 a \<Longrightarrow> add64 0 a = a"
  by (simp_all add: add64_def i64_id)

lemma add64_assoc: "add64 (add64 a b) c = add64 a (add64 b c)"
  by (simp add: add64_def add.assoc)

lemma add64_commute: "add64 a b = add64 b a"
  by (simp add: add64_def add.commute)

lemma add64_left_commute: "add64 a (add64 b c) = add64 b (add64 a c)"
  by (simp add: add64_def algebra_simps)

lemmas add64_ac = add64_assoc add64_commute add64_left_commute

lemma add64_neg64 [simp]: "add64 a (neg64 a) = 0" "add64 (neg64 a) a = 0"
  by (simp_all add: add64_def neg64_def i64_id in_i64_def)

lemma add64_neg64_cancel [simp]: "in_i64 b \<Longrightarrow> add64 a (add64 (neg64 a) b) = b"
  by (simp add: add64_assoc [symmetric])

subsection \<open>Go maps\<close>

text \<open>
  A Go map is an association list with distinct keys. The order of the list is
  the order in which \<^verbatim>\<open>range\<close> visits the entries: Go leaves it open, and the
  theorems hold for every order.
\<close>

type_synonym ('k, 'v) gomap = "('k \<times> 'v) list"

definition gm_get :: "('k, 'v) gomap \<Rightarrow> 'k \<Rightarrow> 'v option" where
  "gm_get m = map_of m"

definition gm_put :: "('k, 'v) gomap \<Rightarrow> 'k \<Rightarrow> 'v \<Rightarrow> ('k, 'v) gomap" where
  "gm_put m k v = AList.update k v m"

definition gm_del :: "('k, 'v) gomap \<Rightarrow> 'k \<Rightarrow> ('k, 'v) gomap" where
  "gm_del m k = AList.delete k m"

definition gm_keys :: "('k, 'v) gomap \<Rightarrow> 'k list" where
  "gm_keys m = map fst m"

definition gm_len :: "('k, 'v) gomap \<Rightarrow> int" where
  "gm_len m = int (length m)"

definition wf_gm :: "('k, 'v) gomap \<Rightarrow> bool" where
  "wf_gm m \<longleftrightarrow> distinct (map fst m)"

text \<open>The interface through which the components use a table.\<close>

locale go_table =
  fixes get :: "'m \<Rightarrow> 'k \<Rightarrow> 'v option"
    and put :: "'m \<Rightarrow> 'k \<Rightarrow> 'v \<Rightarrow> 'm"
    and del :: "'m \<Rightarrow> 'k \<Rightarrow> 'm"
    and keys :: "'m \<Rightarrow> 'k list"
    and wf :: "'m \<Rightarrow> bool"
  assumes get_put: "get (put m k v) = (get m)(k \<mapsto> v)"
    and get_del: "get (del m k) = (get m)(k := None)"
    and wf_put: "wf m \<Longrightarrow> wf (put m k v)"
    and wf_del: "wf m \<Longrightarrow> wf (del m k)"
    and set_keys: "set (keys m) = dom (get m)"
    and distinct_keys: "wf m \<Longrightarrow> distinct (keys m)"
begin

definition entries :: "'m \<Rightarrow> nat" where
  "entries m = card (dom (get m))"

lemma finite_dom_get: "finite (dom (get m))"
  by (metis List.finite_set set_keys)

lemma length_keys: "wf m \<Longrightarrow> length (keys m) = entries m"
  by (metis distinct_card distinct_keys entries_def set_keys)

lemma entries_put: "entries (put m k v) = (if get m k = None then Suc (entries m) else entries m)"
proof (cases "get m k")
  case None
  then have "k \<notin> dom (get m)" by auto
  then show ?thesis using None finite_dom_get by (simp add: entries_def get_put)
next
  case (Some w)
  then have "insert k (dom (get m)) = dom (get m)" by auto
  then show ?thesis using Some by (simp add: entries_def get_put)
qed

lemma entries_del: "entries (del m k) = (if get m k = None then entries m else entries m - 1)"
proof (cases "get m k")
  case None
  then have "dom (get m) - {k} = dom (get m)" by auto
  then show ?thesis using None by (simp add: entries_def get_del)
next
  case (Some w)
  then have "k \<in> dom (get m)" by auto
  then show ?thesis using Some finite_dom_get by (simp add: entries_def get_del)
qed

lemma entries_del_le: "entries (del m k) \<le> entries m"
  by (simp add: entries_del)

lemma get_foldl_del: "get (foldl del m ks) = (\<lambda>x. if x \<in> set ks then None else get m x)"
  by (induction ks arbitrary: m) (auto simp: get_del fun_eq_iff)

lemma wf_foldl_del: "wf m \<Longrightarrow> wf (foldl del m ks)"
  by (induction ks arbitrary: m) (auto intro: wf_del)

lemma entries_foldl_del:
  assumes "distinct ks" and "set ks \<subseteq> dom (get m)"
  shows "entries (foldl del m ks) = entries m - length ks"
proof -
  have "dom (get (foldl del m ks)) = dom (get m) - set ks"
    by (auto simp: get_foldl_del dom_def split: if_splits)
  then show ?thesis
    using assms by (simp add: entries_def card_Diff_subset distinct_card)
qed

end

lemma length_update_fst: "length (AList.update k v m) = (if k \<in> fst ` set m then length m else Suc (length m))"
  by (induction m) auto

interpretation gm: go_table "gm_get" "gm_put" "gm_del" "gm_keys" "wf_gm"
proof unfold_locales
  show "gm_get (gm_put m k v) = (gm_get m)(k \<mapsto> v)" for m :: "('k \<times> 'v) list" and k v
    by (simp add: gm_get_def gm_put_def update_conv')
  show "gm_get (gm_del m k) = (gm_get m)(k := None)" for m :: "('k \<times> 'v) list" and k
    by (simp add: gm_get_def gm_del_def delete_conv')
  show "wf_gm m \<Longrightarrow> wf_gm (gm_put m k v)" for m :: "('k \<times> 'v) list" and k v
    by (simp add: wf_gm_def gm_put_def distinct_update)
  show "wf_gm m \<Longrightarrow> wf_gm (gm_del m k)" for m :: "('k \<times> 'v) list" and k
    by (simp add: wf_gm_def gm_del_def distinct_delete)
  show "set (gm_keys m) = dom (gm_get m)" for m :: "('k \<times> 'v) list"
    by (simp add: gm_keys_def gm_get_def dom_map_of_conv_image_fst)
  show "wf_gm m \<Longrightarrow> distinct (gm_keys m)" for m :: "('k \<times> 'v) list"
    by (simp add: wf_gm_def gm_keys_def)
qed

declare gm.get_put [simp] gm.get_del [simp] gm.get_foldl_del [simp]
declare gm.wf_put [simp, inv_intros] gm.wf_del [simp, inv_intros] gm.wf_foldl_del [simp, inv_intros]

lemma wf_gm_Nil [simp]: "wf_gm []"
  by (simp add: wf_gm_def)

lemma gm_get_Nil [simp]: "gm_get [] k = None"
  by (simp add: gm_get_def)

lemma gm_get_Cons: "gm_get ((a, b) # m) k = (if k = a then Some b else gm_get m k)"
  by (simp add: gm_get_def)

lemma gm_len_entries: "wf_gm m \<Longrightarrow> gm_len m = int (gm.entries m)"
  using gm.length_keys [of m] by (simp add: gm_len_def gm_keys_def)

lemma gm_get_Some_iff: "wf_gm m \<Longrightarrow> gm_get m k = Some v \<longleftrightarrow> (k, v) \<in> set m"
  by (simp add: gm_get_def wf_gm_def)

lemma gm_all_iff: "wf_gm m \<Longrightarrow> list_all P m \<longleftrightarrow> (\<forall>k v. gm_get m k = Some v \<longrightarrow> P (k, v))"
  by (auto simp: gm_get_Some_iff list_all_iff)

lemma gm_get_in_set: "gm_get m k = Some v \<Longrightarrow> (k, v) \<in> set m"
  by (simp add: gm_get_def map_of_SomeD)

subsection \<open>Search loops\<close>

text \<open>\<^verbatim>\<open>for _, x := range xs { if v, ok := f(x); ok { return v } }\<close>\<close>

fun first_some :: "('a \<Rightarrow> 'b option) \<Rightarrow> 'a list \<Rightarrow> 'b option" where
  "first_some f [] = None"
| "first_some f (x # xs) = (case f x of Some v \<Rightarrow> Some v | None \<Rightarrow> first_some f xs)"

lemma first_some_None_iff: "first_some f xs = None \<longleftrightarrow> (\<forall>x \<in> set xs. f x = None)"
  by (induction xs) (auto split: option.splits)

lemma first_some_SomeD:
  "first_some f xs = Some v \<Longrightarrow>
     \<exists>ys x zs. xs = ys @ x # zs \<and> f x = Some v \<and> (\<forall>y \<in> set ys. f y = None)"
proof (induction xs)
  case (Cons a xs)
  show ?case
  proof (cases "f a")
    case None
    with Cons obtain ys x zs where "xs = ys @ x # zs" "f x = Some v" "\<forall>y \<in> set ys. f y = None"
      by auto
    with None have "a # xs = (a # ys) @ x # zs \<and> f x = Some v \<and> (\<forall>y \<in> set (a # ys). f y = None)"
      by simp
    then show ?thesis by blast
  next
    case (Some w)
    with Cons.prems have "a # xs = [] @ a # xs \<and> f a = Some v \<and> (\<forall>y \<in> set []. f y = None)" by simp
    then show ?thesis by blast
  qed
qed simp

lemma first_some_skip: "\<forall>y \<in> set ys. f y = None \<Longrightarrow> first_some f (ys @ zs) = first_some f zs"
  by (induction ys) auto

lemma first_some_append:
  "first_some f (xs @ ys) = (case first_some f xs of Some v \<Rightarrow> Some v | None \<Rightarrow> first_some f ys)"
  by (induction xs) (auto split: option.splits)

lemma first_some_cong_set: "(\<And>x. x \<in> set xs \<Longrightarrow> f x = g x) \<Longrightarrow> first_some f xs = first_some g xs"
  by (induction xs) (auto split: option.splits)

subsection \<open>Removing an element of a slice\<close>

text \<open>
  The loop that unregisters an element: the first match is overwritten with the
  last element, which is then cut off. Up to the order this removes one element.
\<close>

fun find_index :: "('a \<Rightarrow> bool) \<Rightarrow> 'a list \<Rightarrow> nat option" where
  "find_index P [] = None"
| "find_index P (x # xs) = (if P x then Some 0 else map_option Suc (find_index P xs))"

definition swap_remove :: "('a \<Rightarrow> bool) \<Rightarrow> 'a list \<Rightarrow> 'a list" where
  "swap_remove P xs =
     (case find_index P xs of
        None \<Rightarrow> xs
      | Some i \<Rightarrow> take (length xs - 1) (xs[i := xs ! (length xs - 1)]))"

lemma find_index_None: "find_index P xs = None \<longleftrightarrow> (\<forall>x \<in> set xs. \<not> P x)"
  by (induction xs) auto

lemma find_index_SomeD: "find_index P xs = Some i \<Longrightarrow> i < length xs \<and> P (xs ! i) \<and> find P xs = Some (xs ! i)"
  by (induction xs arbitrary: i) (auto split: if_splits)

lemma mset_swap_last:
  assumes "i < length xs"
  shows "mset (take (length xs - 1) (xs[i := xs ! (length xs - 1)])) = mset xs - {#xs ! i#}"
proof (cases xs rule: rev_cases)
  case (snoc ys y)
  then show ?thesis
    using assms by (cases "i < length ys") (auto simp: nth_append list_update_append mset_update)
qed (use assms in simp)

lemma mset_swap_remove:
  "mset (swap_remove P xs) = (case find P xs of None \<Rightarrow> mset xs | Some x \<Rightarrow> mset xs - {#x#})"
proof (cases "find_index P xs")
  case None
  then have "find P xs = None" by (simp add: find_index_None find_None_iff)
  then show ?thesis using None by (simp add: swap_remove_def)
next
  case (Some i)
  then show ?thesis using find_index_SomeD [OF Some] mset_swap_last [of i xs] by (simp add: swap_remove_def)
qed

lemma set_swap_remove_subset: "set (swap_remove P xs) \<subseteq> set xs"
  using mset_swap_remove [of P xs] by (auto split: option.splits dest: in_diffD simp flip: set_mset_mset)

lemma find_filter_mset:
  "distinct (map f xs) \<Longrightarrow>
     (case find (\<lambda>x. f x = k) xs of None \<Rightarrow> mset xs | Some x \<Rightarrow> mset xs - {#x#})
       = filter_mset (\<lambda>x. f x \<noteq> k) (mset xs)"
proof (induction xs)
  case (Cons y ys)
  show ?case
  proof (cases "f y = k")
    case True
    then have "\<forall>x \<in> set ys. f x \<noteq> k" using Cons.prems by (metis distinct.simps(2) image_eqI list.set_map list.simps(9))
    then have "filter (\<lambda>x. f x \<noteq> k) ys = ys" by simp
    then show ?thesis using True by (simp flip: mset_filter)
  next
    case False
    show ?thesis
    proof (cases "find (\<lambda>x. f x = k) ys")
      case (Some x)
      then have "y \<noteq> x" using False by (auto simp: find_Some_iff)
      then show ?thesis using Some False Cons by (simp add: diff_add_mset_swap)
    qed (use False Cons in simp)
  qed
qed simp

lemma mset_swap_remove_key:
  "distinct (map f xs) \<Longrightarrow> mset (swap_remove (\<lambda>x. f x = k) xs) = filter_mset (\<lambda>x. f x \<noteq> k) (mset xs)"
  by (simp add: mset_swap_remove find_filter_mset)

end
