(* ===== verification/GoLib.thy ===== *)
theory GoLib
  imports Prelude
begin

text \<open>
  The parts of Go's standard library the modelled code calls: \<^verbatim>\<open>strings\<close> and
  \<^verbatim>\<open>path\<close>. Strings are byte strings. The model is that of the Unix builds:
  \<^verbatim>\<open>path/filepath\<close> agrees with \<^verbatim>\<open>path\<close> and \<^verbatim>\<open>filepath.ToSlash\<close> is the identity.
  The second half is the algebra of clean absolute paths: they are exactly the
  images under \<open>abs_of\<close> of lists of proper components, and \<^verbatim>\<open>Clean\<close>, \<^verbatim>\<open>Dir\<close>
  and \<^verbatim>\<open>Base\<close> act on the component lists.
\<close>

subsection \<open>strings\<close>

definition strings_HasPrefix :: "string \<Rightarrow> string \<Rightarrow> bool" where
  "strings_HasPrefix s p \<longleftrightarrow> prefix p s"

definition strings_HasSuffix :: "string \<Rightarrow> string \<Rightarrow> bool" where
  "strings_HasSuffix s p \<longleftrightarrow> prefix (rev p) (rev s)"

definition strings_TrimSuffix :: "string \<Rightarrow> string \<Rightarrow> string" where
  "strings_TrimSuffix s p = (if strings_HasSuffix s p then take (length s - length p) s else s)"

fun strings_Contains :: "string \<Rightarrow> string \<Rightarrow> bool" where
  "strings_Contains [] sub \<longleftrightarrow> sub = []"
| "strings_Contains (c # s) sub \<longleftrightarrow> prefix sub (c # s) \<or> strings_Contains s sub"

text \<open>\<^verbatim>\<open>strings.Replace(s, old, new, 1)\<close>: the first occurrence only.\<close>

fun strings_Replace1 :: "string \<Rightarrow> string \<Rightarrow> string \<Rightarrow> string" where
  "strings_Replace1 [] old new = (if old = [] then new else [])"
| "strings_Replace1 (c # s) old new =
     (if prefix old (c # s) then new @ drop (length old) (c # s)
      else c # strings_Replace1 s old new)"

text \<open>ASCII letters only: other bytes are left alone.\<close>

definition to_lower :: "char \<Rightarrow> char" where
  "to_lower c = (if CHR ''A'' \<le> c \<and> c \<le> CHR ''Z'' then char_of (of_char c + 32 :: nat) else c)"

definition strings_ToLower :: "string \<Rightarrow> string" where
  "strings_ToLower s = map to_lower s"

fun split_on :: "'a \<Rightarrow> 'a list \<Rightarrow> 'a list list" where
  "split_on c [] = [[]]"
| "split_on c (x # xs) =
     (if x = c then [] # split_on c xs
      else (case split_on c xs of [] \<Rightarrow> [[x]] | y # ys \<Rightarrow> (x # y) # ys))"

fun join_with :: "'a \<Rightarrow> 'a list list \<Rightarrow> 'a list" where
  "join_with c [] = []"
| "join_with c [x] = x"
| "join_with c (x # y # ys) = x @ c # join_with c (y # ys)"

subsection \<open>path\<close>

definition path_IsAbs :: "string \<Rightarrow> bool" where
  "path_IsAbs p \<longleftrightarrow> (case p of [] \<Rightarrow> False | c # _ \<Rightarrow> c = CHR ''/'')"

text \<open>One component of the input against the stack of components kept so far.\<close>

definition clean_step :: "bool \<Rightarrow> string list \<Rightarrow> string \<Rightarrow> string list" where
  "clean_step rooted st c =
     (if c = '''' \<or> c = ''.'' then st
      else if c = ''..'' then
        (case st of
           [] \<Rightarrow> if rooted then [] else [''..'']
         | t # ts \<Rightarrow> if t = ''..'' then ''..'' # st else ts)
      else c # st)"

definition path_Clean :: "string \<Rightarrow> string" where
  "path_Clean p =
     (if p = '''' then ''.''
      else
        let rooted = path_IsAbs p;
            s = join_with CHR ''/'' (rev (foldl (clean_step rooted) [] (split_on CHR ''/'' p)))
        in if rooted then ''/'' @ s else if s = '''' then ''.'' else s)"

text \<open>\<^verbatim>\<open>path.Split\<close>: everything up to and including the last slash, and the rest.\<close>

definition path_dir_part :: "string \<Rightarrow> string" where
  "path_dir_part p = rev (dropWhile (\<lambda>c. c \<noteq> CHR ''/'') (rev p))"

definition path_file_part :: "string \<Rightarrow> string" where
  "path_file_part p = rev (takeWhile (\<lambda>c. c \<noteq> CHR ''/'') (rev p))"

definition path_Dir :: "string \<Rightarrow> string" where
  "path_Dir p = path_Clean (path_dir_part p)"

definition path_Base :: "string \<Rightarrow> string" where
  "path_Base p =
     (if p = '''' then ''.''
      else
        let q = path_file_part (rev (dropWhile (\<lambda>c. c = CHR ''/'') (rev p)))
        in if q = '''' then ''/'' else q)"

definition path_Join :: "string list \<Rightarrow> string" where
  "path_Join es =
     (case filter (\<lambda>e. e \<noteq> '''') es of [] \<Rightarrow> '''' | fs \<Rightarrow> path_Clean (join_with CHR ''/'' fs))"

subsection \<open>Splitting and joining\<close>

lemma split_on_not_Nil [simp]: "split_on c xs \<noteq> []"
  by (induction xs) (auto split: list.splits)

lemma split_on_no_sep: "c \<notin> set xs \<Longrightarrow> split_on c xs = [xs]"
  by (induction xs) auto

lemma split_on_append: "split_on c (xs @ c # ys) = split_on c xs @ split_on c ys"
  by (induction xs) (auto split: list.splits)

lemma set_split_on: "x \<in> set (split_on c xs) \<Longrightarrow> c \<notin> set x"
  by (induction xs arbitrary: x) (auto split: list.splits if_splits)

lemma join_split [simp]: "join_with c (split_on c xs) = xs"
proof (induction xs)
  case (Cons x xs)
  then show ?case
    by (cases "split_on c xs" rule: list.exhaust; cases "tl (split_on c xs)") (auto split: list.splits)
qed simp

lemma split_join:
  "ys \<noteq> [] \<Longrightarrow> \<forall>y \<in> set ys. c \<notin> set y \<Longrightarrow> split_on c (join_with c ys) = ys"
  by (induction c ys rule: join_with.induct) (auto simp: split_on_no_sep split_on_append)

lemma join_with_snoc: "cs \<noteq> [] \<Longrightarrow> join_with c (cs @ [x]) = join_with c cs @ c # x"
  by (induction c cs rule: join_with.induct) auto

lemma sum_length_split: "sum_list (map (\<lambda>x. Suc (length x)) (split_on c xs)) = Suc (length xs)"
  by (induction xs) (auto split: list.splits)

subsection \<open>Clean absolute paths\<close>

definition good_comp :: "string \<Rightarrow> bool" where
  "good_comp c \<longleftrightarrow> c \<noteq> '''' \<and> c \<noteq> ''.'' \<and> c \<noteq> ''..'' \<and> CHR ''/'' \<notin> set c"

abbreviation good_comps :: "string list \<Rightarrow> bool" where
  "good_comps \<equiv> list_all good_comp"

definition abs_of :: "string list \<Rightarrow> string" where
  "abs_of cs = CHR ''/'' # join_with CHR ''/'' cs"

text \<open>A path is clean and absolute when \<^verbatim>\<open>path.Clean\<close> leaves it alone and it starts with a slash.\<close>

definition clean_abs :: "string \<Rightarrow> bool" where
  "clean_abs p \<longleftrightarrow> path_IsAbs p \<and> path_Clean p = p"

lemma abs_of_simps [simp]: "abs_of [] = ''/''" "abs_of cs \<noteq> []" "path_IsAbs (abs_of cs)"
  by (simp_all add: abs_of_def path_IsAbs_def)

lemma good_comp_slash: "good_comp c \<Longrightarrow> CHR ''/'' \<notin> set c"
  by (simp add: good_comp_def)

lemma good_comps_slash: "good_comps cs \<Longrightarrow> \<forall>c \<in> set cs. CHR ''/'' \<notin> set c"
  by (auto simp: list_all_iff good_comp_def)

lemma foldl_clean_good: "good_comps cs \<Longrightarrow> foldl (clean_step r) st cs = rev cs @ st"
  by (induction cs arbitrary: st) (auto simp: clean_step_def good_comp_def)

lemma clean_step_good:
  "good_comps st \<Longrightarrow> CHR ''/'' \<notin> set c \<Longrightarrow> good_comps (clean_step True st c)"
  by (cases st) (auto simp: clean_step_def good_comp_def)

lemma foldl_clean_step_good:
  "good_comps st \<Longrightarrow> \<forall>c \<in> set cs. CHR ''/'' \<notin> set c \<Longrightarrow> good_comps (foldl (clean_step True) st cs)"
  by (induction cs arbitrary: st) (auto simp: clean_step_good)

lemma split_abs_of:
  "good_comps cs \<Longrightarrow> split_on CHR ''/'' (abs_of cs) = [] # (if cs = [] then [[]] else cs)"
  by (auto simp: abs_of_def split_join good_comps_slash)

lemma path_IsAbs_conv: "path_IsAbs p \<longleftrightarrow> (\<exists>q. p = CHR ''/'' # q)"
  by (cases p) (auto simp: path_IsAbs_def)

lemma path_Clean_abs:
  "path_IsAbs p \<Longrightarrow>
     path_Clean p = abs_of (rev (foldl (clean_step True) [] (split_on CHR ''/'' p)))"
  by (auto simp: path_Clean_def abs_of_def path_IsAbs_conv)

lemma path_Clean_good: "good_comps cs \<Longrightarrow> path_Clean (abs_of cs) = abs_of cs"
  by (auto simp: path_Clean_abs split_abs_of foldl_clean_good clean_step_def)

lemma path_Clean_abs_ex: "path_IsAbs p \<Longrightarrow> \<exists>cs. good_comps cs \<and> path_Clean p = abs_of cs"
proof -
  assume p: "path_IsAbs p"
  have "good_comps (foldl (clean_step True) [] (split_on CHR ''/'' p))"
    by (rule foldl_clean_step_good) (auto dest: set_split_on)
  then have "good_comps (rev (foldl (clean_step True) [] (split_on CHR ''/'' p)))"
    by (auto simp: list_all_iff)
  with path_Clean_abs [OF p] show ?thesis by blast
qed

lemma clean_abs_iff: "clean_abs p \<longleftrightarrow> (\<exists>cs. good_comps cs \<and> p = abs_of cs)"
  using path_Clean_abs_ex path_Clean_good abs_of_simps(3) unfolding clean_abs_def by metis

lemma clean_abs_abs_of [simp]: "good_comps cs \<Longrightarrow> clean_abs (abs_of cs)"
  by (auto simp: clean_abs_iff)

lemma clean_abs_Clean [simp]: "path_IsAbs p \<Longrightarrow> clean_abs (path_Clean p)"
  using path_Clean_abs_ex clean_abs_iff by blast

lemma clean_abs_induct [consumes 1, case_names abs_of]:
  "clean_abs p \<Longrightarrow> (\<And>cs. good_comps cs \<Longrightarrow> P (abs_of cs)) \<Longrightarrow> P p"
  by (auto simp: clean_abs_iff)

lemma abs_of_inj: "good_comps cs \<Longrightarrow> good_comps ds \<Longrightarrow> abs_of cs = abs_of ds \<longleftrightarrow> cs = ds"
proof
  assume g: "good_comps cs" "good_comps ds" and "abs_of cs = abs_of ds"
  then have eq: "(if cs = [] then [[]] else cs) = (if ds = [] then [[]] else ds)"
    using split_abs_of [OF g(1)] split_abs_of [OF g(2)] by simp
  have "\<not> good_comp []" by (simp add: good_comp_def)
  with eq g show "cs = ds" by (cases "cs = []"; cases "ds = []") auto
qed simp

lemma abs_of_single: "abs_of [c] = CHR ''/'' # c"
  by (simp add: abs_of_def)

lemma abs_of_snoc: "abs_of (cs @ [c]) = (if cs = [] then ''/'' @ c else abs_of cs @ CHR ''/'' # c)"
  by (auto simp: abs_of_def join_with_snoc)

lemma path_dir_part_append:
  "CHR ''/'' \<notin> set c \<Longrightarrow> path_dir_part (xs @ CHR ''/'' # c) = xs @ [CHR ''/'']"
  unfolding path_dir_part_def by (simp, subst dropWhile_append2) auto

lemma path_dir_part_snoc: "y \<noteq> CHR ''/'' \<Longrightarrow> path_dir_part (r @ [y]) = path_dir_part r"
  by (simp add: path_dir_part_def)

lemma length_path_dir_part: "length (path_dir_part p) \<le> length p"
  using length_dropWhile_le [of "\<lambda>c. c \<noteq> CHR ''/''" "rev p"] by (simp add: path_dir_part_def)

lemma path_file_part_append:
  "CHR ''/'' \<notin> set c \<Longrightarrow> path_file_part (xs @ CHR ''/'' # c) = c"
  by (auto simp: path_file_part_def takeWhile_append)

lemma path_Dir_snoc [simp]:
  assumes "good_comps cs" and "good_comp c"
  shows "path_Dir (abs_of (cs @ [c])) = abs_of cs"
proof (cases "cs = []")
  case True
  have "path_dir_part (CHR ''/'' # c) = ''/''"
    using path_dir_part_append [of c "[]"] assms by (simp add: good_comp_slash)
  then show ?thesis
    using True path_Clean_good [of "[]"] by (simp add: abs_of_single path_Dir_def)
next
  case False
  then have "path_Dir (abs_of (cs @ [c])) = path_Clean (abs_of cs @ ''/'')"
    using assms by (simp add: path_Dir_def abs_of_snoc path_dir_part_append good_comp_slash)
  also have "\<dots> = abs_of cs"
  proof -
    have "path_IsAbs (abs_of cs @ ''/'')" by (simp add: abs_of_def path_IsAbs_def)
    moreover have "split_on CHR ''/'' (abs_of cs @ ''/'') = [] # cs @ [[]]"
      using assms False by (simp add: split_on_append split_abs_of)
    ultimately show ?thesis
      using assms by (simp add: path_Clean_abs foldl_clean_good clean_step_def)
  qed
  finally show ?thesis .
qed

lemma path_Dir_root [simp]: "path_Dir ''/'' = ''/''"
  by (simp add: path_Dir_def path_dir_part_def path_Clean_def path_IsAbs_def clean_step_def)

lemma path_Base_snoc [simp]:
  assumes "good_comp c"
  shows "path_Base (abs_of (cs @ [c])) = c"
proof -
  obtain xs where xs: "abs_of (cs @ [c]) = xs @ CHR ''/'' # c"
  proof (cases "cs = []")
    case True
    then have "abs_of (cs @ [c]) = [] @ CHR ''/'' # c" by (simp add: abs_of_single)
    then show thesis by (rule that)
  next
    case False
    then have "abs_of (cs @ [c]) = abs_of cs @ CHR ''/'' # c" by (simp add: abs_of_snoc)
    then show thesis by (rule that)
  qed
  have "c \<noteq> []" "last c \<noteq> CHR ''/''"
    using assms by (auto simp: good_comp_def dest: last_in_set)
  then have "dropWhile (\<lambda>x. x = CHR ''/'') (rev (xs @ CHR ''/'' # c)) = rev (xs @ CHR ''/'' # c)"
    by (cases c rule: rev_cases) auto
  then show ?thesis
    using assms \<open>c \<noteq> []\<close>
    by (simp add: path_Base_def xs path_file_part_append good_comp_slash)
qed

lemma path_Clean_idem [simp]: "path_IsAbs p \<Longrightarrow> path_Clean (path_Clean p) = path_Clean p"
  using path_Clean_abs_ex path_Clean_good by metis

subsection \<open>Lengths: the parent of a path is shorter\<close>

lemma weight_clean_step:
  "sum_list (map (\<lambda>x. Suc (length x)) (clean_step True st c)) \<le>
   sum_list (map (\<lambda>x. Suc (length x)) st) + (if c = '''' then 0 else Suc (length c))"
  by (cases st) (auto simp: clean_step_def)

lemma weight_foldl_clean:
  "sum_list (map (\<lambda>x. Suc (length x)) (foldl (clean_step True) st cs)) \<le>
   sum_list (map (\<lambda>x. Suc (length x)) st) + sum_list (map (\<lambda>c. if c = '''' then 0 else Suc (length c)) cs)"
proof (induction cs arbitrary: st)
  case (Cons c cs)
  show ?case
    using Cons.IH [of "clean_step True st c"] weight_clean_step [of st c] by simp
qed simp

lemma length_abs_of: "length (abs_of cs) = max 1 (sum_list (map (\<lambda>x. Suc (length x)) cs))"
proof -
  have "length (join_with CHR ''/'' cs) = sum_list (map (\<lambda>x. Suc (length x)) cs) - 1"
    by (induction "CHR ''/''" cs rule: join_with.induct) auto
  then show ?thesis by (auto simp: abs_of_def)
qed

lemma weight_nonempty:
  "sum_list (map (\<lambda>c. if c = [] then 0 else Suc (length c)) cs) + length (filter (\<lambda>c. c = []) cs) =
   sum_list (map (\<lambda>c. Suc (length c)) cs)"
  by (induction cs) auto

lemma length_path_Clean:
  assumes "path_IsAbs p"
  shows "length (path_Clean p) \<le>
    max 1 (Suc (length p) - length (filter (\<lambda>c. c = []) (split_on CHR ''/'' p)))"
proof -
  let ?cs = "split_on CHR ''/'' p" and ?w = "\<lambda>cs. sum_list (map (\<lambda>x. Suc (length x)) cs)"
  have "?w (rev (foldl (clean_step True) [] ?cs)) \<le>
      sum_list (map (\<lambda>c. if c = '''' then 0 else Suc (length c)) ?cs)"
    using weight_foldl_clean [of "[]" ?cs] by (simp add: rev_map [symmetric])
  also have "\<dots> = Suc (length p) - length (filter (\<lambda>c. c = []) ?cs)"
    using weight_nonempty [of ?cs] sum_length_split [of "CHR ''/''" p] by simp
  finally show ?thesis using assms by (simp add: path_Clean_abs length_abs_of)
qed

lemma path_dir_part_abs: "path_IsAbs p \<Longrightarrow> path_IsAbs (path_dir_part p)"
proof -
  assume "path_IsAbs p"
  then obtain q where p: "p = CHR ''/'' # q" by (auto simp: path_IsAbs_conv)
  show ?thesis
  proof (cases "CHR ''/'' \<in> set q")
    case True
    then have "dropWhile (\<lambda>c. c \<noteq> CHR ''/'') (rev q @ [CHR ''/'']) =
        dropWhile (\<lambda>c. c \<noteq> CHR ''/'') (rev q) @ [CHR ''/'']"
      by (intro dropWhile_append1 [of "CHR ''/''"]) auto
    then show ?thesis by (simp add: p path_dir_part_def path_IsAbs_def)
  next
    case False
    then show ?thesis using path_dir_part_append [of q "[]"] by (simp add: p path_IsAbs_def)
  qed
qed

lemma path_Dir_abs: "path_IsAbs p \<Longrightarrow> path_IsAbs (path_Dir p)"
  using path_dir_part_abs path_Clean_abs by (simp add: path_Dir_def)

lemma clean_abs_Dir [simp]: "path_IsAbs p \<Longrightarrow> clean_abs (path_Dir p)"
  by (simp add: path_Dir_def path_dir_part_abs)

lemma length_Clean_le:
  assumes "path_IsAbs p"
  shows "length (path_Clean p) \<le> length p"
proof -
  from assms obtain q where q: "p = CHR ''/'' # q" by (auto simp: path_IsAbs_conv)
  then have "1 \<le> length (filter (\<lambda>c. c = []) (split_on CHR ''/'' p))" by simp
  moreover have "1 \<le> length p" using q by simp
  ultimately show ?thesis using length_path_Clean [OF assms] by (simp add: max_def split: if_splits)
qed

lemma length_Clean_trailing:
  assumes r: "path_IsAbs r"
  shows "length (path_Clean (r @ [CHR ''/''])) < length (r @ [CHR ''/''])"
proof -
  from r obtain r' where r': "r = CHR ''/'' # r'" by (auto simp: path_IsAbs_conv)
  have "split_on CHR ''/'' (r @ [CHR ''/'']) = [] # split_on CHR ''/'' r' @ [[]]"
    using r' split_on_append [of "CHR ''/''" r "[]"] by simp
  then have "2 \<le> length (filter (\<lambda>c. c = []) (split_on CHR ''/'' (r @ [CHR ''/''])))" by simp
  moreover have "path_IsAbs (r @ [CHR ''/''])" using r' by (simp add: path_IsAbs_def)
  ultimately show ?thesis
    using length_path_Clean [of "r @ [CHR ''/'']"] r' by (simp add: max_def split: if_splits)
qed

lemma length_path_Dir:
  assumes p: "path_IsAbs p" and neq: "p \<noteq> ''/''"
  shows "length (path_Dir p) < length p"
proof (cases p rule: rev_cases)
  case Nil
  with p show ?thesis by (simp add: path_IsAbs_def)
next
  case (snoc r y)
  with p neq have r: "path_IsAbs r" by (cases r) (auto simp: path_IsAbs_def)
  show ?thesis
  proof (cases "y = CHR ''/''")
    case True
    then have "path_dir_part p = p" using path_dir_part_append [of "[]" r] snoc by simp
    then show ?thesis using length_Clean_trailing [OF r] snoc True by (simp add: path_Dir_def)
  next
    case False
    have "length (path_Clean (path_dir_part r)) \<le> length r"
      using length_Clean_le [OF path_dir_part_abs [OF r]] length_path_dir_part [of r] by linarith
    then show ?thesis using snoc False by (simp add: path_Dir_def path_dir_part_snoc)
  qed
qed

subsection \<open>Relative paths\<close>

abbreviation segment :: "string \<Rightarrow> bool" where
  "segment t \<equiv> t \<noteq> '''' \<and> CHR ''/'' \<notin> set t"

lemma clean_step_segment:
  "\<forall>t \<in> set st. segment t \<Longrightarrow> CHR ''/'' \<notin> set c \<Longrightarrow> \<forall>t \<in> set (clean_step r st c). segment t"
  by (auto simp: clean_step_def split: list.splits)

lemma foldl_clean_step_segment:
  "\<forall>t \<in> set st. segment t \<Longrightarrow> \<forall>c \<in> set cs. CHR ''/'' \<notin> set c \<Longrightarrow>
     \<forall>t \<in> set (foldl (clean_step r) st cs). segment t"
proof (induction cs arbitrary: st)
  case (Cons c cs)
  have "\<forall>t \<in> set (clean_step r st c). segment t"
    by (rule clean_step_segment) (use Cons.prems in auto)
  then have "\<forall>t \<in> set (foldl (clean_step r) (clean_step r st c) cs). segment t"
    by (rule Cons.IH) (use Cons.prems in auto)
  then show ?case by simp
qed simp

lemma join_with_Cons: "\<exists>r. join_with c (t # us) = t @ r"
  by (cases us) auto

lemma join_segments_not_abs: "\<forall>t \<in> set ts. segment t \<Longrightarrow> \<not> path_IsAbs (join_with CHR ''/'' ts)"
proof (cases ts)
  case (Cons t us)
  moreover assume "\<forall>t \<in> set ts. segment t"
  moreover obtain r where "join_with CHR ''/'' (t # us) = t @ r" using join_with_Cons [of "CHR ''/''" t us] by auto
  ultimately show ?thesis by (cases t) (auto simp: path_IsAbs_def)
qed (simp add: path_IsAbs_def)

lemma path_Clean_rel: "\<not> path_IsAbs p \<Longrightarrow> \<not> path_IsAbs (path_Clean p)"
proof -
  assume "\<not> path_IsAbs p"
  moreover have "\<forall>t \<in> set (foldl (clean_step False) [] (split_on CHR ''/'' p)). segment t"
    by (rule foldl_clean_step_segment) (auto dest: set_split_on)
  then have "\<not> path_IsAbs (join_with CHR ''/'' (rev (foldl (clean_step False) [] (split_on CHR ''/'' p))))"
    by (intro join_segments_not_abs) simp
  ultimately show ?thesis by (auto simp: path_Clean_def Let_def path_IsAbs_def)
qed

subsection \<open>Directories inside directories\<close>

lemma join_with_append:
  "xs \<noteq> [] \<Longrightarrow> ys \<noteq> [] \<Longrightarrow> join_with c (xs @ ys) = join_with c xs @ c # join_with c ys"
proof (induction c xs rule: join_with.induct)
  case (2 c x)
  then show ?case by (cases ys) auto
qed auto

text \<open>One clean path lies strictly below another when its components extend the other's.\<close>

lemma abs_of_below_iff:
  assumes "good_comps cs" and "good_comps ds" and "cs \<noteq> []"
  shows "prefix (abs_of cs @ ''/'') (abs_of ds) \<longleftrightarrow> strict_prefix cs ds"
proof
  assume "prefix (abs_of cs @ ''/'') (abs_of ds)"
  then obtain r where r: "abs_of ds = abs_of cs @ CHR ''/'' # r" by (auto simp: prefix_def)
  have "[] # (if ds = [] then [[]] else ds) = ([] # cs) @ split_on CHR ''/'' r"
    using arg_cong [OF r, of "split_on CHR ''/''"] assms by (simp add: split_abs_of split_on_append)
  then have "ds \<noteq> [] \<Longrightarrow> ds = cs @ split_on CHR ''/'' r" by simp
  moreover have "ds \<noteq> []" using r assms(3)
    by (auto simp: abs_of_def)
  ultimately show "strict_prefix cs ds" by (auto simp: strict_prefix_def)
next
  assume "strict_prefix cs ds"
  then obtain es where "ds = cs @ es" "es \<noteq> []" by (auto simp: strict_prefix_def prefix_def)
  then show "prefix (abs_of cs @ ''/'') (abs_of ds)"
    using assms(3) by (simp add: abs_of_def join_with_append)
qed

lemma abs_of_below_length:
  "prefix (p @ ''/'') (abs_of ds) \<Longrightarrow> length p < length (abs_of ds)"
  by (auto dest: prefix_length_le)

lemma abs_of_eq_root: "good_comps cs \<Longrightarrow> abs_of cs = ''/'' \<longleftrightarrow> cs = []"
  using abs_of_inj [of cs "[]"] by simp

lemma abs_of_below_root: "good_comps ds \<Longrightarrow> \<not> prefix ''//'' (abs_of ds)"
proof
  assume g: "good_comps ds" and "prefix ''//'' (abs_of ds)"
  then obtain r where "join_with CHR ''/'' ds = CHR ''/'' # r" by (auto simp: abs_of_def prefix_def)
  moreover have "\<forall>t \<in> set ds. segment t" using g by (auto simp: list_all_iff good_comp_def)
  ultimately show False using join_segments_not_abs [of ds] by (simp add: path_IsAbs_def)
qed

end
