(* ===== verification/Utils.thy ===== *)
theory Utils
  imports GoLib
begin

text \<open>
  \<^verbatim>\<open>utils/utils.go\<close>: the slice helpers, the conversions between times and
  milliseconds, host and port splitting, path cleaning and the list of the
  directories of a virtual path, and the nearest-ancestor search that the
  permissions, the virtual folders and the file filters of a user all make
  over that list.
\<close>

subsection \<open>Slices\<close>

fun IsStringInSlice :: "string \<Rightarrow> string list \<Rightarrow> bool" where
  "IsStringInSlice obj [] = False"
| "IsStringInSlice obj (x # xs) = (if x = obj then True else IsStringInSlice obj xs)"

fun IsStringPrefixInSlice :: "string \<Rightarrow> string list \<Rightarrow> bool" where
  "IsStringPrefixInSlice obj [] = False"
| "IsStringPrefixInSlice obj (x # xs) =
     (if strings_HasPrefix obj x then True else IsStringPrefixInSlice obj xs)"

fun RemoveDuplicates_loop :: "(string, bool) gomap \<Rightarrow> string list \<Rightarrow> string list \<Rightarrow> string list" where
  "RemoveDuplicates_loop seen result [] = result"
| "RemoveDuplicates_loop seen result (item # items) =
     RemoveDuplicates_loop (gm_put seen item True)
       (if gm_get seen item = None then result @ [item] else result) items"

definition RemoveDuplicates :: "string list \<Rightarrow> string list" where
  "RemoveDuplicates obj = (if obj = [] then obj else RemoveDuplicates_loop [] [] obj)"

subsection \<open>Times\<close>

text \<open>A time is its Unix time in nanoseconds.\<close>

definition GetTimeAsMsSinceEpoch :: "int \<Rightarrow> int" where
  "GetTimeAsMsSinceEpoch t = quot64 t 1000000"

definition GetTimeFromMsecSinceEpoch :: "int \<Rightarrow> int" where
  "GetTimeFromMsecSinceEpoch msec = mul64 msec 1000000"

subsection \<open>Addresses\<close>

definition last_index :: "char \<Rightarrow> string \<Rightarrow> nat option" where
  "last_index c s = (if c \<in> set s then Some (length s - 1 - length (takeWhile (\<lambda>x. x \<noteq> c) (rev s))) else None)"

definition first_index :: "char \<Rightarrow> string \<Rightarrow> nat option" where
  "first_index c s = (if c \<in> set s then Some (length (takeWhile (\<lambda>x. x \<noteq> c) s)) else None)"

text \<open>\<^verbatim>\<open>net.SplitHostPort\<close>; \<open>None\<close> is any of its errors.\<close>

definition net_SplitHostPort :: "string \<Rightarrow> (string \<times> string) option" where
  "net_SplitHostPort hp =
     (case last_index CHR '':'' hp of
        None \<Rightarrow> None
      | Some i \<Rightarrow>
          (if hp ! 0 = CHR ''['' then
             (case first_index CHR '']'' hp of
                None \<Rightarrow> None
              | Some e \<Rightarrow>
                  if e + 1 = length hp then None
                  else if e + 1 \<noteq> i then None
                  else if CHR ''['' \<in> set (drop 1 hp) \<or> CHR '']'' \<in> set (drop (e + 1) hp) then None
                  else Some (take (e - 1) (drop 1 hp), drop (i + 1) hp))
           else
             (let host = take i hp in
              if CHR '':'' \<in> set host then None
              else if CHR ''['' \<in> set hp \<or> CHR '']'' \<in> set hp then None
              else Some (host, drop (i + 1) hp))))"

definition GetIPFromRemoteAddress :: "string \<Rightarrow> string" where
  "GetIPFromRemoteAddress remoteAddress =
     (case net_SplitHostPort remoteAddress of Some (ip, _) \<Rightarrow> ip | None \<Rightarrow> remoteAddress)"

subsection \<open>Paths\<close>

definition CleanPath :: "string \<Rightarrow> string" where
  "CleanPath p = path_Clean (if path_IsAbs p then p else ''/'' @ p)"

text \<open>
  The loop of \<^verbatim>\<open>GetDirsForVirtualPath\<close>. It is entered with an absolute path
  and \<^verbatim>\<open>path.Dir\<close> keeps it absolute, so the second test never fails; it makes
  the recursion total on all strings.
\<close>

function dirs_loop :: "string \<Rightarrow> string list" where
  "dirs_loop p =
     (if p = ''/'' then []
      else if \<not> path_IsAbs p then []
      else path_Dir p # dirs_loop (path_Dir p))"
  by pat_completeness auto
termination
  by (relation "measure length") (auto simp: length_path_Dir)

declare dirs_loop.simps [simp del]

definition GetDirsForVirtualPath :: "string \<Rightarrow> string list" where
  "GetDirsForVirtualPath virtualPath =
     (let p = (if virtualPath = ''.'' then ''/''
               else if \<not> path_IsAbs virtualPath then CleanPath virtualPath
               else virtualPath)
      in p # dirs_loop p)"

definition IsFileInputValid :: "string \<Rightarrow> bool" where
  "IsFileInputValid fileInput =
     (let cleanInput = path_Clean fileInput
      in if cleanInput = ''.'' \<or> cleanInput = ''..'' then False else True)"

definition CleanDirInput :: "string \<Rightarrow> string" where
  "CleanDirInput dirInput = path_Clean dirInput"

definition RemoveDecryptionKey :: "string \<Rightarrow> string" where
  "RemoveDecryptionKey encryptData =
     (let vals = split_on CHR ''$'' encryptData
      in if length vals = 4 then ''$'' @ vals ! 1 @ ''$'' @ vals ! 3 else encryptData)"

definition IsByteArrayEmpty :: "string \<Rightarrow> bool" where
  "IsByteArrayEmpty b =
     (if length b = 0 then True
      else if b = [CHR 0x0A] then True
      else if b = [CHR 0x0D, CHR 0x0A] then True
      else False)"

subsection \<open>Facts about slices, times and addresses\<close>

lemma IsStringInSlice_iff [simp]: "IsStringInSlice obj xs \<longleftrightarrow> obj \<in> set xs"
  by (induction xs) auto

lemma IsStringPrefixInSlice_iff: "IsStringPrefixInSlice obj xs \<longleftrightarrow> (\<exists>x \<in> set xs. prefix x obj)"
  by (induction xs) (auto simp: strings_HasPrefix_def)

lemma RemoveDuplicates_loop_eq:
  "RemoveDuplicates_loop seen result xs =
     result @ rev (remdups (rev (filter (\<lambda>x. gm_get seen x = None) xs)))"
proof (induction xs arbitrary: seen result)
  case (Cons x xs)
  let ?P = "\<lambda>x. gm_get seen x = None"
  have *: "filter (\<lambda>y. gm_get (gm_put seen x True) y = None) xs = removeAll x (filter ?P xs)"
    by (induction xs) auto
  have rr: "remdups (rev ys @ [x]) = remdups (rev (removeAll x ys)) @ [x]" for ys
    by (induction ys rule: rev_induct) auto
  show ?case
  proof (cases "gm_get seen x")
    case None
    then show ?thesis using Cons.IH [of "gm_put seen x True" "result @ [x]"] rr [of "filter ?P xs"] *
      by simp
  next
    case (Some v)
    then have "removeAll x (filter ?P xs) = filter ?P xs"
      by (auto intro: removeAll_id)
    with Some show ?thesis using Cons.IH [of "gm_put seen x True" result] * by simp
  qed
qed simp

lemma RemoveDuplicates_eq: "RemoveDuplicates xs = rev (remdups (rev xs))"
  by (simp add: RemoveDuplicates_def RemoveDuplicates_loop_eq)

lemma set_RemoveDuplicates [simp]: "set (RemoveDuplicates xs) = set xs"
  by (simp add: RemoveDuplicates_eq)

lemma distinct_RemoveDuplicates [simp]: "distinct (RemoveDuplicates xs)"
  by (simp add: RemoveDuplicates_eq)

lemma RemoveDuplicates_Nil_iff [simp]: "RemoveDuplicates xs = [] \<longleftrightarrow> xs = []"
  by (simp add: RemoveDuplicates_eq)

text \<open>
  A time taken from milliseconds and turned back into milliseconds is
  unchanged: without overflow of the multiplication, that is up to the year 2262.
\<close>

lemma ms_round_trip:
  assumes "in_i64 (msec * 1000000)"
  shows "GetTimeAsMsSinceEpoch (GetTimeFromMsecSinceEpoch msec) = msec"
proof -
  have "in_i64 msec" using assms by (auto simp: in_i64_def)
  moreover have "sgn (msec * 1000000) * (\<bar>msec * 1000000\<bar> div 1000000) = msec"
    by (simp add: sgn_mult abs_mult) (metis mult.commute sgn_mult_abs)
  ultimately show ?thesis
    using assms by (simp add: GetTimeAsMsSinceEpoch_def GetTimeFromMsecSinceEpoch_def
        quot64_def mul64_def i64_id)
qed

lemma last_index_append: "c \<notin> set ys \<Longrightarrow> last_index c (xs @ c # ys) = Some (length xs)"
  unfolding last_index_def by (simp add: takeWhile_append)

lemma GetIPFromRemoteAddress_host_port:
  assumes "{CHR '':'', CHR ''['', CHR '']''} \<inter> set ip = {}"
    and "{CHR '':'', CHR ''['', CHR '']''} \<inter> set port = {}"
  shows "GetIPFromRemoteAddress (ip @ CHR '':'' # port) = ip"
proof -
  have "last_index CHR '':'' (ip @ CHR '':'' # port) = Some (length ip)"
    using assms by (intro last_index_append) auto
  moreover have "(ip @ CHR '':'' # port) ! 0 \<noteq> CHR ''[''"
    using assms by (cases ip) auto
  ultimately have "net_SplitHostPort (ip @ CHR '':'' # port) = Some (ip, port)"
    using assms by (auto simp: net_SplitHostPort_def)
  then show ?thesis by (simp add: GetIPFromRemoteAddress_def)
qed

subsection \<open>Facts about paths\<close>

lemma CleanPath_clean_abs [simp]: "clean_abs (CleanPath p)"
  by (simp add: CleanPath_def path_IsAbs_def)

lemma CleanPath_id: "clean_abs p \<Longrightarrow> CleanPath p = p"
  by (simp add: CleanPath_def clean_abs_def)

lemma dirs_loop_root [simp]: "dirs_loop ''/'' = []"
  by (simp add: dirs_loop.simps)

lemma good_comps_prefix: "prefix a cs \<Longrightarrow> good_comps cs \<Longrightarrow> good_comps a"
  by (auto simp: prefix_def)

lemma rev_prefixes_conv: "rev (prefixes cs) = cs # tl (rev (prefixes cs))"
  by (metis hd_rev last_prefixes list.collapse prefixes_not_Nil rev_is_Nil_conv)

lemma dirs_loop_abs_of: "good_comps cs \<Longrightarrow> dirs_loop (abs_of cs) = map abs_of (tl (rev (prefixes cs)))"
proof (induction cs rule: rev_induct)
  case (snoc c cs)
  then have g: "good_comps cs" "good_comp c" by simp_all
  have "abs_of (cs @ [c]) \<noteq> ''/''"
    using abs_of_inj [of "cs @ [c]" "[]"] g by simp
  then have "dirs_loop (abs_of (cs @ [c])) = abs_of cs # dirs_loop (abs_of cs)"
    using g by (simp add: dirs_loop.simps [of "abs_of (cs @ [c])"])
  also have "\<dots> = map abs_of (cs # tl (rev (prefixes cs)))"
    using snoc.IH [OF g(1)] by simp
  also have "\<dots> = map abs_of (tl (rev (prefixes (cs @ [c]))))"
    by (simp flip: rev_prefixes_conv)
  finally show ?case .
qed simp

lemma GetDirsForVirtualPath_abs_of:
  assumes "good_comps cs"
  shows "GetDirsForVirtualPath (abs_of cs) = map abs_of (rev (prefixes cs))"
proof -
  have "abs_of cs \<noteq> ''.''" by (simp add: abs_of_def)
  then have "GetDirsForVirtualPath (abs_of cs) = map abs_of (cs # tl (rev (prefixes cs)))"
    using dirs_loop_abs_of [OF assms] by (simp add: GetDirsForVirtualPath_def)
  then show ?thesis by (simp flip: rev_prefixes_conv)
qed

subsection \<open>The nearest ancestor\<close>

text \<open>
  \<^verbatim>\<open>GetPermissionsForPath\<close>, \<^verbatim>\<open>GetVirtualFolderForPath\<close> and the two file filters
  search a table for the first of the directories of a path that it holds. The
  interface: \<open>table\<close> is what one directory is looked up in, \<open>find\<close> the search.
\<close>

locale ancestor_search =
  fixes table :: "'s \<Rightarrow> string \<Rightarrow> 'a option"
    and find :: "'s \<Rightarrow> string \<Rightarrow> 'a option"
  assumes find_first: "find s p = first_some (table s) (GetDirsForVirtualPath p)"
begin

text \<open>The result is the entry of the longest prefix of the path that has one.\<close>

lemma find_nearest:
  assumes "good_comps cs" and "k \<le> length cs" and "table s (abs_of (take k cs)) = Some a"
    and "\<And>j. k < j \<Longrightarrow> j \<le> length cs \<Longrightarrow> table s (abs_of (take j cs)) = None"
  shows "find s (abs_of cs) = Some a"
proof -
  obtain ds where cs: "cs = take k cs @ ds" by (metis append_take_drop_id)
  have "prefixes cs = prefixes (take k cs) @ map (\<lambda>es. take k cs @ es) (tl (prefixes ds))"
    by (subst cs) (rule prefixes_append)
  moreover have "\<forall>p \<in> set (map (\<lambda>es. take k cs @ es) (tl (prefixes ds))). table s (abs_of p) = None"
  proof
    fix p assume "p \<in> set (map (\<lambda>es. take k cs @ es) (tl (prefixes ds)))"
    then obtain es where p: "p = take k cs @ es" and es: "es \<in> set (tl (prefixes ds))" by auto
    have "es \<noteq> []" using es distinct_prefixes [of ds] hd_prefixes [of ds]
      by (metis distinct.simps(2) list.collapse prefixes_not_Nil)
    have pre: "prefix es ds" using es by (meson in_set_prefixes list.set_sel(2) prefixes_not_Nil)
    then have "prefix p cs" using cs p by (metis same_prefix_prefix)
    then have "p = take (length p) cs" by (auto simp: prefix_def)
    moreover have "k < length p" using p \<open>es \<noteq> []\<close> assms(2) by simp
    moreover have "length p \<le> length cs" using \<open>prefix p cs\<close> by (rule prefix_length_le)
    ultimately show "table s (abs_of p) = None" using assms(4) by metis
  qed
  moreover have "first_some (table s) (map abs_of (rev (prefixes (take k cs)))) = Some a"
    using assms(3) by (subst rev_prefixes_conv) simp
  ultimately show ?thesis
    using assms(1) by (simp add: find_first GetDirsForVirtualPath_abs_of first_some_skip
        del: map_map)
qed

lemma find_none_iff:
  assumes "good_comps cs"
  shows "find s (abs_of cs) = None \<longleftrightarrow> (\<forall>k \<le> length cs. table s (abs_of (take k cs)) = None)"
proof -
  have "p \<in> set (prefixes cs) \<longleftrightarrow> (\<exists>k \<le> length cs. p = take k cs)" for p
    by (metis append_eq_conv_conj in_set_prefixes prefix_def prefix_length_le take_is_prefix)
  then have "set (prefixes cs) = {take k cs | k. k \<le> length cs}" by blast
  then show ?thesis
    using assms by (auto simp: find_first GetDirsForVirtualPath_abs_of first_some_None_iff)
qed

lemma find_some_ancestor:
  assumes "good_comps cs" and "find s (abs_of cs) = Some a"
  obtains k where "k \<le> length cs" "table s (abs_of (take k cs)) = Some a"
    "\<And>j. k < j \<Longrightarrow> j \<le> length cs \<Longrightarrow> table s (abs_of (take j cs)) = None"
proof -
  let ?Q = "\<lambda>k. k \<le> length cs \<and> table s (abs_of (take k cs)) \<noteq> None"
  have ex: "\<exists>k. ?Q k" using assms find_none_iff [OF assms(1), of s] by auto
  define k where "k = (GREATEST k. ?Q k)"
  have k: "?Q k" unfolding k_def using ex by (rule GreatestI_ex_nat) auto
  have mx: "table s (abs_of (take j cs)) = None" if "k < j" "j \<le> length cs" for j
  proof (rule ccontr)
    assume "table s (abs_of (take j cs)) \<noteq> None"
    with that have "?Q j" by simp
    then have "j \<le> k" unfolding k_def by (rule Greatest_le_nat) auto
    with that show False by simp
  qed
  from k obtain b where "table s (abs_of (take k cs)) = Some b" by auto
  moreover from this k mx have "find s (abs_of cs) = Some b" by (intro find_nearest [OF assms(1)]) auto
  ultimately show thesis using that assms(2) k mx by auto
qed

end

subsection \<open>Properties\<close>

text \<open>
  C28: the directories of a clean absolute virtual path are the path itself and
  each of its ancestors, from the nearest up to the root, without repetition.
\<close>
theorem GetDirsForVirtualPath_ancestors:
  assumes "good_comps cs"
  shows "GetDirsForVirtualPath (abs_of cs) = map abs_of (rev (prefixes cs))
    \<and> distinct (GetDirsForVirtualPath (abs_of cs))"
proof -
  have "inj_on abs_of (set (rev (prefixes cs)))"
  proof (rule inj_onI)
    fix a b assume "a \<in> set (rev (prefixes cs))" "b \<in> set (rev (prefixes cs))"
    then have "prefix a cs" "prefix b cs" by simp_all
    then have "good_comps a" "good_comps b" using assms good_comps_prefix by blast+
    then show "abs_of a = abs_of b \<Longrightarrow> a = b" using abs_of_inj by blast
  qed
  then show ?thesis
    using assms by (simp add: GetDirsForVirtualPath_abs_of distinct_map distinct_prefixes)
qed

theorem GetDirsForVirtualPath_ancestors_witness:
  "GetDirsForVirtualPath ''/a/bc'' = [''/a/bc'', ''/a'', ''/'']"
  using GetDirsForVirtualPath_ancestors [of "[''a'', ''bc'']"]
  by (simp add: abs_of_def good_comp_def)

end
