(* ===== verification/Encoding.thy ===== *)
theory Encoding
  imports Prelude
begin

text \<open>
  The two byte encodings of Go's standard library that stored secrets use:
  \<^verbatim>\<open>encoding/hex\<close> and \<^verbatim>\<open>base64.StdEncoding\<close>, with their round trips. A decoder
  returns \<open>None\<close> for every input the library rejects.
\<close>

subsection \<open>Hexadecimal\<close>

definition hex_digits :: string where
  "hex_digits = ''0123456789abcdef''"

definition byte_nat :: "char \<Rightarrow> nat" where
  "byte_nat c = of_char c"

fun hex_EncodeToString :: "string \<Rightarrow> string" where
  "hex_EncodeToString [] = []"
| "hex_EncodeToString (c # cs) =
     hex_digits ! (byte_nat c div 16) # hex_digits ! (byte_nat c mod 16) # hex_EncodeToString cs"

definition fromHexChar :: "char \<Rightarrow> nat option" where
  "fromHexChar c =
     (let n = byte_nat c in
      if 48 \<le> n \<and> n \<le> 57 then Some (n - 48)
      else if 97 \<le> n \<and> n \<le> 102 then Some (n - 97 + 10)
      else if 65 \<le> n \<and> n \<le> 70 then Some (n - 65 + 10)
      else None)"

fun hex_DecodeString :: "string \<Rightarrow> string option" where
  "hex_DecodeString [] = Some []"
| "hex_DecodeString [c] = None"
| "hex_DecodeString (a # b # cs) =
     (case (fromHexChar a, fromHexChar b) of
        (Some x, Some y) \<Rightarrow> map_option ((#) (char_of (16 * x + y))) (hex_DecodeString cs)
      | _ \<Rightarrow> None)"

lemma byte_nat_less [simp]: "byte_nat c < 256"
  by (simp add: byte_nat_def)

lemma char_of_byte_nat [simp]: "char_of (byte_nat c) = c"
  by (simp add: byte_nat_def)



lemma fromHexChar_digits: "map fromHexChar hex_digits = map Some [0..<16]"
  by (simp add: hex_digits_def fromHexChar_def byte_nat_def upt_conv_Cons)

lemma fromHexChar_digit: "n < 16 \<Longrightarrow> fromHexChar (hex_digits ! n) = Some n"
proof -
  have "length hex_digits = 16" by (simp add: hex_digits_def)
  moreover have "map fromHexChar hex_digits ! n = map Some [0..<16] ! n" by (simp only: fromHexChar_digits)
  ultimately show "n < 16 \<Longrightarrow> ?thesis" by (simp del: upt_rec_numeral)
qed

lemma hex_round_trip [simp]: "hex_DecodeString (hex_EncodeToString s) = Some s"
proof (induction s)
  case (Cons c cs)
  have "byte_nat c div 16 < 16" "byte_nat c mod 16 < 16"
    using byte_nat_less [of c] by (simp_all add: less_mult_imp_div_less)
  then show ?case by (simp add: Cons fromHexChar_digit)
qed simp

lemma length_hex_EncodeToString [simp]: "length (hex_EncodeToString s) = 2 * length s"
  by (induction s) auto

lemma hex_EncodeToString_Nil_iff [simp]: "hex_EncodeToString s = [] \<longleftrightarrow> s = []"
  by (cases s) auto

subsection \<open>Base 64\<close>

definition b64_digits :: string where
  "b64_digits = ''ABCDEFGHIJKLMNOPQRSTUVWXYZabcdefghijklmnopqrstuvwxyz0123456789+/''"

fun base64_EncodeToString :: "string \<Rightarrow> string" where
  "base64_EncodeToString [] = []"
| "base64_EncodeToString [a] =
     (let n = byte_nat a * 65536
      in [b64_digits ! (n div 262144), b64_digits ! (n div 4096 mod 64), CHR ''='', CHR ''=''])"
| "base64_EncodeToString [a, b] =
     (let n = byte_nat a * 65536 + byte_nat b * 256
      in [b64_digits ! (n div 262144), b64_digits ! (n div 4096 mod 64),
          b64_digits ! (n div 64 mod 64), CHR ''=''])"
| "base64_EncodeToString (a # b # c # cs) =
     (let n = byte_nat a * 65536 + byte_nat b * 256 + byte_nat c
      in b64_digits ! (n div 262144) # b64_digits ! (n div 4096 mod 64) #
         b64_digits ! (n div 64 mod 64) # b64_digits ! (n mod 64) # base64_EncodeToString cs)"

definition b64_val :: "char \<Rightarrow> nat option" where
  "b64_val c =
     (let n = byte_nat c in
      if 65 \<le> n \<and> n \<le> 90 then Some (n - 65)
      else if 97 \<le> n \<and> n \<le> 122 then Some (n - 97 + 26)
      else if 48 \<le> n \<and> n \<le> 57 then Some (n - 48 + 52)
      else if n = 43 then Some 62
      else if n = 47 then Some 63
      else None)"

text \<open>The quanta of four digits; only the last one may be padded.\<close>

fun base64_quanta :: "string \<Rightarrow> string option" where
  "base64_quanta [] = Some []"
| "base64_quanta (a # b # c # d # cs) =
     (case (b64_val a, b64_val b) of
        (Some x, Some y) \<Rightarrow>
          (case b64_val c of
             None \<Rightarrow>
               if c = CHR ''='' \<and> d = CHR ''='' \<and> cs = []
               then Some [char_of ((x * 262144 + y * 4096) div 65536)]
               else None
           | Some z \<Rightarrow>
               (case b64_val d of
                  None \<Rightarrow>
                    if d = CHR ''='' \<and> cs = []
                    then (let n = x * 262144 + y * 4096 + z * 64
                          in Some [char_of (n div 65536), char_of (n div 256 mod 256)])
                    else None
                | Some w \<Rightarrow>
                    (let n = x * 262144 + y * 4096 + z * 64 + w
                     in map_option
                          (\<lambda>r. char_of (n div 65536) # char_of (n div 256 mod 256) # char_of (n mod 256) # r)
                          (base64_quanta cs))))
      | _ \<Rightarrow> None)"
| "base64_quanta _ = None"

definition base64_DecodeString :: "string \<Rightarrow> string option" where
  "base64_DecodeString s = base64_quanta (filter (\<lambda>c. c \<noteq> CHR 0x0A \<and> c \<noteq> CHR 0x0D) s)"

lemma b64_val_digits: "map b64_val b64_digits = map Some [0..<64]"
  by (simp add: b64_digits_def b64_val_def byte_nat_def upt_conv_Cons)

lemma b64_digit:
  assumes "n < 64"
  shows "b64_val (b64_digits ! n) = Some n" "b64_digits ! n \<noteq> CHR 0x0A" "b64_digits ! n \<noteq> CHR 0x0D"
proof -
  have len: "length b64_digits = 64" by (simp add: b64_digits_def)
  have "map b64_val b64_digits ! n = map Some [0..<64] ! n" by (simp only: b64_val_digits)
  with assms len show "b64_val (b64_digits ! n) = Some n" by (simp del: upt_rec_numeral)
  then show "b64_digits ! n \<noteq> CHR 0x0A" "b64_digits ! n \<noteq> CHR 0x0D"
    by (auto simp: b64_val_def byte_nat_def)
qed

lemma b64_val_pad [simp]: "b64_val CHR ''='' = None"
  by (simp add: b64_val_def byte_nat_def)

text \<open>A number of 24 bits is the sum of its four groups of six bits.\<close>

lemma b64_split:
  fixes n :: nat
  shows "n div 262144 * 262144 + n div 4096 mod 64 * 4096 + n div 64 mod 64 * 64 + n mod 64 = n"
proof -
  have "n div 4096 = n div 262144 * 64 + n div 4096 mod 64"
    using div_mult_mod_eq [of "n div 4096" 64] div_mult2_eq [of n 4096 64] by simp
  moreover have "n div 64 = n div 4096 * 64 + n div 64 mod 64"
    using div_mult_mod_eq [of "n div 64" 64] div_mult2_eq [of n 64 64] by simp
  moreover have "n = n div 64 * 64 + n mod 64" by simp
  ultimately show ?thesis by linarith
qed

lemma b64_top: "(n::nat) < 16777216 \<Longrightarrow> n div 262144 < 64"
  by (simp add: less_mult_imp_div_less)

lemma bytes_of_24:
  assumes "z < 256"
  shows "(byte_nat x * 65536 + byte_nat y * 256 + z) div 65536 = byte_nat x"
    and "(byte_nat x * 65536 + byte_nat y * 256 + z) div 256 mod 256 = byte_nat y"
    and "(byte_nat x * 65536 + byte_nat y * 256 + z) mod 256 = z"
proof -
  have *: "byte_nat x * 65536 + byte_nat y * 256 + z = (byte_nat x * 256 + byte_nat y) * 256 + z" by simp
  have d: "(byte_nat x * 65536 + byte_nat y * 256 + z) div 256 = byte_nat x * 256 + byte_nat y"
    unfolding * using assms by simp
  then show "(byte_nat x * 65536 + byte_nat y * 256 + z) div 256 mod 256 = byte_nat y" by simp
  show "(byte_nat x * 65536 + byte_nat y * 256 + z) div 65536 = byte_nat x"
    using d div_mult2_eq [of "byte_nat x * 65536 + byte_nat y * 256 + z" 256 256] by simp
  show "(byte_nat x * 65536 + byte_nat y * 256 + z) mod 256 = z"
    using assms by (simp only: * mod_mult_self3 mod_less)
qed

lemma base64_round_trip [simp]: "base64_DecodeString (base64_EncodeToString s) = Some s"
proof (induction s rule: base64_EncodeToString.induct)
  case 1
  then show ?case by (simp add: base64_DecodeString_def)
next
  case (2 a)
  define n where "n = byte_nat a * 65536"
  have "n div 262144 < 64"
    by (rule b64_top) (use byte_nat_less [of a] in \<open>unfold n_def, linarith\<close>)
  moreover have "n mod 64 = 0" "n div 64 mod 64 = 0" by (simp_all add: n_def)
  then have "n div 262144 * 262144 + n div 4096 mod 64 * 4096 = n"
    using b64_split [of n] by linarith
  ultimately show ?case
    by (simp add: base64_DecodeString_def b64_digit Let_def flip: n_def) (simp add: n_def)
next
  case (3 a b)
  define n where "n = byte_nat a * 65536 + byte_nat b * 256"
  have "n div 262144 < 64"
    by (rule b64_top) (use byte_nat_less [of a] byte_nat_less [of b] in \<open>unfold n_def, linarith\<close>)
  moreover have "n mod 64 = 0"
  proof -
    have "n = 64 * (byte_nat a * 1024 + byte_nat b * 4)" by (simp add: n_def)
    then show ?thesis by (metis mod_mult_self1_is_0)
  qed
  then have "n div 262144 * 262144 + n div 4096 mod 64 * 4096 + n div 64 mod 64 * 64 = n"
    using b64_split [of n] by linarith
  moreover have "n div 65536 = byte_nat a" "n div 256 mod 256 = byte_nat b"
    using bytes_of_24 [of 0 a b] by (simp_all only: n_def add_0_right zero_less_numeral)
  moreover have "base64_EncodeToString [a, b] = [b64_digits ! (n div 262144), b64_digits ! (n div 4096 mod 64),
      b64_digits ! (n div 64 mod 64), CHR ''='']" by (simp only: base64_EncodeToString.simps Let_def n_def)
  ultimately show ?case
    by (simp add: base64_DecodeString_def b64_digit Let_def del: char_of_mod_256 base64_EncodeToString.simps)
next
  case (4 a b c cs)
  define n where "n = byte_nat a * 65536 + byte_nat b * 256 + byte_nat c"
  have "n div 262144 < 64"
    by (rule b64_top)
      (use byte_nat_less [of a] byte_nat_less [of b] byte_nat_less [of c] in \<open>unfold n_def, linarith\<close>)
  moreover have "n div 65536 = byte_nat a" "n div 256 mod 256 = byte_nat b" "n mod 256 = byte_nat c"
    using bytes_of_24 [OF byte_nat_less, of a b c] by (simp_all only: n_def)
  ultimately show ?case
    using 4 b64_split [of n]
    by (simp add: base64_DecodeString_def b64_digit Let_def del: char_of_mod_256 flip: n_def)
qed

end
