(* ===== verification/Kms.thy ===== *)
theory Kms
  imports Utils Encoding
begin

text \<open>
  \<^verbatim>\<open>kms/\<close>: the secrets stored with users and folders. A \<open>Secret\<close> wraps one of
  five providers; each provider keeps a \<open>baseSecret\<close> and knows how to encrypt
  and decrypt it. The ciphers, hashes and key services are arguments, the
  \<open>crypto\<close> record: AES-GCM and SHA-256, HKDF, NaCl secretbox and the remote
  keepers. So is the random source, as the bytes it delivered or its failure.
  Methods of a \<open>Secret\<close> run under its lock and are one step each.
\<close>

type_synonym SecretStatus = string

abbreviation SecretStatusPlain :: SecretStatus where "SecretStatusPlain \<equiv> ''Plain''"
abbreviation SecretStatusAES256GCM :: SecretStatus where "SecretStatusAES256GCM \<equiv> ''AES-256-GCM''"
abbreviation SecretStatusSecretBox :: SecretStatus where "SecretStatusSecretBox \<equiv> ''Secretbox''"
abbreviation SecretStatusGCP :: SecretStatus where "SecretStatusGCP \<equiv> ''GCP''"
abbreviation SecretStatusAWS :: SecretStatus where "SecretStatusAWS \<equiv> ''AWS''"
abbreviation SecretStatusVaultTransit :: SecretStatus where "SecretStatusVaultTransit \<equiv> ''VaultTransit''"
abbreviation SecretStatusRedacted :: SecretStatus where "SecretStatusRedacted \<equiv> ''Redacted''"

definition validSecretStatuses :: "string list" where
  "validSecretStatuses = [SecretStatusPlain, SecretStatusAES256GCM, SecretStatusSecretBox,
     SecretStatusVaultTransit, SecretStatusAWS, SecretStatusGCP, SecretStatusRedacted]"

datatype kms_error = errWrongSecretStatus | errMalformedCiphertext | errInvalidSecret | errLibrary

record baseSecret =
  bs_Status :: SecretStatus
  bs_Payload :: string
  bs_Key :: string
  bs_AdditionalData :: string
  bs_Mode :: int

definition baseSecret_isEmpty :: "baseSecret \<Rightarrow> bool" where
  "baseSecret_isEmpty s =
     (if bs_Status s \<noteq> '''' then False
      else if bs_Payload s \<noteq> '''' then False
      else if bs_Key s \<noteq> '''' then False
      else if bs_AdditionalData s \<noteq> '''' then False
      else True)"

text \<open>The providers, with the master key and the keeper URL they were built with.\<close>

datatype SecretProvider =
    builtinSecret (pr_base: baseSecret)
  | localSecret (pr_base: baseSecret) (pr_masterKey: string)
  | awsSecret (pr_base: baseSecret) (pr_url: string) (pr_masterKey: string)
  | gcpSecret (pr_base: baseSecret) (pr_url: string) (pr_masterKey: string)
  | vaultSecret (pr_base: baseSecret) (pr_url: string) (pr_masterKey: string)

text \<open>
  \<^verbatim>\<open>baseSecret\<close> is embedded in each provider: its setters act on the embedded value.
\<close>

fun with_base :: "(baseSecret \<Rightarrow> baseSecret) \<Rightarrow> SecretProvider \<Rightarrow> SecretProvider" where
  "with_base f (builtinSecret b) = builtinSecret (f b)"
| "with_base f (localSecret b mk) = localSecret (f b) mk"
| "with_base f (awsSecret b u mk) = awsSecret (f b) u mk"
| "with_base f (gcpSecret b u mk) = gcpSecret (f b) u mk"
| "with_base f (vaultSecret b u mk) = vaultSecret (f b) u mk"

fun provider_IsEncrypted :: "SecretProvider \<Rightarrow> bool" where
  "provider_IsEncrypted (builtinSecret b) = (bs_Status b = SecretStatusAES256GCM)"
| "provider_IsEncrypted (localSecret b mk) = (bs_Status b = SecretStatusSecretBox)"
| "provider_IsEncrypted (awsSecret b u mk) = (bs_Status b = SecretStatusAWS)"
| "provider_IsEncrypted (gcpSecret b u mk) = (bs_Status b = SecretStatusGCP)"
| "provider_IsEncrypted (vaultSecret b u mk) = (bs_Status b = SecretStatusVaultTransit)"

subsection \<open>The cryptographic libraries\<close>

record crypto =
  sha256 :: "string \<Rightarrow> string"
  gcm_Seal :: "string \<Rightarrow> string \<Rightarrow> string \<Rightarrow> string \<Rightarrow> string"
  gcm_Open :: "string \<Rightarrow> string \<Rightarrow> string \<Rightarrow> string \<Rightarrow> string option"
  hkdf32 :: "string \<Rightarrow> string \<Rightarrow> string \<Rightarrow> string option"
  box_Encrypt :: "string \<Rightarrow> string \<Rightarrow> string option"
  box_Decrypt :: "string \<Rightarrow> string \<Rightarrow> string option"
  keeper_Encrypt :: "string \<Rightarrow> string \<Rightarrow> string option"
  keeper_Decrypt :: "string \<Rightarrow> string \<Rightarrow> string option"

text \<open>
  What the libraries document: a sealed text opens with the same key, nonce and
  additional data; a keeper decrypts what it encrypted.
\<close>

definition crypto_ok :: "crypto \<Rightarrow> bool" where
  "crypto_ok C \<longleftrightarrow>
     (\<forall>k n p a. gcm_Open C k n (gcm_Seal C k n p a) a = Some p) \<and>
     (\<forall>k p c. box_Encrypt C k p = Some c \<longrightarrow> box_Decrypt C k c = Some p) \<and>
     (\<forall>u p c. keeper_Encrypt C u p = Some c \<longrightarrow> keeper_Decrypt C u c = Some p)"

subsection \<open>The built-in provider\<close>

definition combined_key :: "crypto \<Rightarrow> baseSecret \<Rightarrow> string \<Rightarrow> string" where
  "combined_key C s key =
     sha256 C (key @ (if bs_AdditionalData s \<noteq> '''' then bs_AdditionalData s else []) @ key)"

text \<open>
  \<open>rkey\<close> and \<open>rnonce\<close> are the 32 and the 12 random bytes read. \<^verbatim>\<open>aes.NewCipher\<close> and
  \<^verbatim>\<open>cipher.NewGCM\<close> only reject keys of a wrong size; a SHA-256 sum has the right one.
\<close>

definition builtin_Encrypt ::
    "crypto \<Rightarrow> string option \<Rightarrow> string option \<Rightarrow> baseSecret \<Rightarrow> kms_error + baseSecret" where
  "builtin_Encrypt C rkey rnonce s =
     (if bs_Payload s = '''' then Inl errInvalidSecret
      else if bs_Status s = SecretStatusPlain then
        (case rkey of None \<Rightarrow> Inl errLibrary
         | Some key \<Rightarrow>
             (case rnonce of None \<Rightarrow> Inl errLibrary
              | Some nonce \<Rightarrow>
                  Inr (s\<lparr>bs_Key := hex_EncodeToString key,
                         bs_Payload := hex_EncodeToString
                           (nonce @ gcm_Seal C (combined_key C s key) nonce (bs_Payload s) (bs_AdditionalData s)),
                         bs_Status := SecretStatusAES256GCM\<rparr>)))
      else Inl errWrongSecretStatus)"

definition gcm_NonceSize :: nat where "gcm_NonceSize = 12"

definition builtin_Decrypt :: "crypto \<Rightarrow> baseSecret \<Rightarrow> kms_error + baseSecret" where
  "builtin_Decrypt C s =
     (if bs_Status s = SecretStatusAES256GCM then
        (case hex_DecodeString (bs_Payload s) of None \<Rightarrow> Inl errLibrary
         | Some encrypted \<Rightarrow>
             (case hex_DecodeString (bs_Key s) of None \<Rightarrow> Inl errLibrary
              | Some key \<Rightarrow>
                  if length encrypted < gcm_NonceSize then Inl errMalformedCiphertext
                  else
                    (case gcm_Open C (combined_key C s key) (take gcm_NonceSize encrypted)
                            (drop gcm_NonceSize encrypted) (bs_AdditionalData s) of
                       None \<Rightarrow> Inl errLibrary
                     | Some plaintext \<Rightarrow>
                         Inr (s\<lparr>bs_Status := SecretStatusPlain, bs_Payload := plaintext,
                                bs_Key := '''', bs_AdditionalData := ''''\<rparr>))))
      else Inl errWrongSecretStatus)"

subsection \<open>The local provider\<close>

definition local_deriveKey :: "crypto \<Rightarrow> string \<Rightarrow> baseSecret \<Rightarrow> string \<Rightarrow> bool \<Rightarrow> string option" where
  "local_deriveKey C mk s key isForDecryption =
     (let masterKey = (if mk = '''' \<or> (isForDecryption \<and> bs_Mode s = 0)
                       then combined_key C s key else mk)
      in hkdf32 C masterKey key (bs_AdditionalData s))"

definition local_getEncryptionMode :: "string \<Rightarrow> int" where
  "local_getEncryptionMode mk = (if mk = '''' then 0 else 1)"

definition local_Encrypt ::
    "crypto \<Rightarrow> string option \<Rightarrow> string \<Rightarrow> baseSecret \<Rightarrow> kms_error + baseSecret" where
  "local_Encrypt C rkey mk s =
     (if bs_Status s \<noteq> SecretStatusPlain then Inl errWrongSecretStatus
      else if bs_Payload s = '''' then Inl errInvalidSecret
      else
        (case rkey of None \<Rightarrow> Inl errLibrary
         | Some secretKey \<Rightarrow>
             (case local_deriveKey C mk s secretKey False of None \<Rightarrow> Inl errLibrary
              | Some key \<Rightarrow>
                  (case box_Encrypt C key (bs_Payload s) of None \<Rightarrow> Inl errLibrary
                   | Some ciphertext \<Rightarrow>
                       Inr (s\<lparr>bs_Key := hex_EncodeToString secretKey,
                              bs_Payload := base64_EncodeToString ciphertext,
                              bs_Status := SecretStatusSecretBox,
                              bs_Mode := local_getEncryptionMode mk\<rparr>)))))"

definition local_Decrypt :: "crypto \<Rightarrow> string \<Rightarrow> baseSecret \<Rightarrow> kms_error + baseSecret" where
  "local_Decrypt C mk s =
     (if bs_Status s \<noteq> SecretStatusSecretBox then Inl errWrongSecretStatus
      else
        (case base64_DecodeString (bs_Payload s) of None \<Rightarrow> Inl errLibrary
         | Some encrypted \<Rightarrow>
             (case hex_DecodeString (bs_Key s) of None \<Rightarrow> Inl errLibrary
              | Some secretKey \<Rightarrow>
                  (case local_deriveKey C mk s secretKey True of None \<Rightarrow> Inl errLibrary
                   | Some key \<Rightarrow>
                       (case box_Decrypt C key encrypted of None \<Rightarrow> Inl errLibrary
                        | Some plaintext \<Rightarrow>
                            Inr (s\<lparr>bs_Status := SecretStatusPlain, bs_Payload := plaintext,
                                   bs_Key := '''', bs_AdditionalData := '''', bs_Mode := 0\<rparr>))))))"

subsection \<open>The cloud keepers\<close>

definition gcloud_Encrypt ::
    "crypto \<Rightarrow> string option \<Rightarrow> string \<Rightarrow> string \<Rightarrow> baseSecret \<Rightarrow> kms_error + baseSecret" where
  "gcloud_Encrypt C rkey url mk s =
     (if bs_Status s \<noteq> SecretStatusPlain then Inl errWrongSecretStatus
      else if bs_Payload s = '''' then Inl errInvalidSecret
      else
        (case (if mk \<noteq> '''' then
                 map_sum id (\<lambda>l. (bs_Payload l, bs_Key l, bs_Mode l)) (local_Encrypt C rkey mk s)
               else Inr (bs_Payload s, '''', 0)) of
           Inl e \<Rightarrow> Inl e
         | Inr (payload, key, mode) \<Rightarrow>
             (case keeper_Encrypt C url payload of None \<Rightarrow> Inl errLibrary
              | Some ciphertext \<Rightarrow>
                  Inr (s\<lparr>bs_Payload := base64_EncodeToString ciphertext, bs_Key := key, bs_Mode := mode\<rparr>))))"

definition gcloud_Decrypt :: "crypto \<Rightarrow> string \<Rightarrow> string \<Rightarrow> baseSecret \<Rightarrow> kms_error + baseSecret" where
  "gcloud_Decrypt C url mk s =
     (case base64_DecodeString (bs_Payload s) of None \<Rightarrow> Inl errLibrary
      | Some encrypted \<Rightarrow>
          (case keeper_Decrypt C url encrypted of None \<Rightarrow> Inl errLibrary
           | Some plaintext \<Rightarrow>
               (case (if bs_Key s \<noteq> '''' then
                        map_sum id bs_Payload
                          (local_Decrypt C mk
                             \<lparr>bs_Status = SecretStatusSecretBox, bs_Payload = plaintext, bs_Key = bs_Key s,
                              bs_AdditionalData = bs_AdditionalData s, bs_Mode = bs_Mode s\<rparr>)
                      else Inr plaintext) of
                  Inl e \<Rightarrow> Inl e
                | Inr payload \<Rightarrow>
                    Inr (s\<lparr>bs_Status := SecretStatusPlain, bs_Payload := payload,
                           bs_Key := '''', bs_AdditionalData := '''', bs_Mode := 0\<rparr>))))"

text \<open>The three keepers differ in the status of an encrypted secret.\<close>

definition cloud_Encrypt ::
    "SecretStatus \<Rightarrow> crypto \<Rightarrow> string option \<Rightarrow> string \<Rightarrow> string \<Rightarrow> baseSecret \<Rightarrow> kms_error + baseSecret" where
  "cloud_Encrypt st C rkey url mk s = map_sum id (bs_Status_update (\<lambda>_. st)) (gcloud_Encrypt C rkey url mk s)"

definition cloud_Decrypt ::
    "SecretStatus \<Rightarrow> crypto \<Rightarrow> string \<Rightarrow> string \<Rightarrow> baseSecret \<Rightarrow> kms_error + baseSecret" where
  "cloud_Decrypt st C url mk s =
     (if bs_Status s \<noteq> st then Inl errWrongSecretStatus else gcloud_Decrypt C url mk s)"

definition aws_Encrypt where "aws_Encrypt = cloud_Encrypt SecretStatusAWS"
definition aws_Decrypt where "aws_Decrypt = cloud_Decrypt SecretStatusAWS"
definition gcp_Encrypt where "gcp_Encrypt = cloud_Encrypt SecretStatusGCP"
definition gcp_Decrypt where "gcp_Decrypt = cloud_Decrypt SecretStatusGCP"
definition vault_Encrypt where "vault_Encrypt = cloud_Encrypt SecretStatusVaultTransit"
definition vault_Decrypt where "vault_Decrypt = cloud_Decrypt SecretStatusVaultTransit"

fun provider_Encrypt ::
    "crypto \<Rightarrow> string option \<Rightarrow> string option \<Rightarrow> SecretProvider \<Rightarrow> kms_error + SecretProvider" where
  "provider_Encrypt C rkey rnonce (builtinSecret b) = map_sum id builtinSecret (builtin_Encrypt C rkey rnonce b)"
| "provider_Encrypt C rkey rnonce (localSecret b mk) =
     map_sum id (\<lambda>b'. localSecret b' mk) (local_Encrypt C rkey mk b)"
| "provider_Encrypt C rkey rnonce (awsSecret b u mk) =
     map_sum id (\<lambda>b'. awsSecret b' u mk) (aws_Encrypt C rkey u mk b)"
| "provider_Encrypt C rkey rnonce (gcpSecret b u mk) =
     map_sum id (\<lambda>b'. gcpSecret b' u mk) (gcp_Encrypt C rkey u mk b)"
| "provider_Encrypt C rkey rnonce (vaultSecret b u mk) =
     map_sum id (\<lambda>b'. vaultSecret b' u mk) (vault_Encrypt C rkey u mk b)"

fun provider_Decrypt :: "crypto \<Rightarrow> SecretProvider \<Rightarrow> kms_error + SecretProvider" where
  "provider_Decrypt C (builtinSecret b) = map_sum id builtinSecret (builtin_Decrypt C b)"
| "provider_Decrypt C (localSecret b mk) = map_sum id (\<lambda>b'. localSecret b' mk) (local_Decrypt C mk b)"
| "provider_Decrypt C (awsSecret b u mk) =
     map_sum id (\<lambda>b'. awsSecret b' u mk) (aws_Decrypt C u mk b)"
| "provider_Decrypt C (gcpSecret b u mk) =
     map_sum id (\<lambda>b'. gcpSecret b' u mk) (gcp_Decrypt C u mk b)"
| "provider_Decrypt C (vaultSecret b u mk) =
     map_sum id (\<lambda>b'. vaultSecret b' u mk) (vault_Decrypt C u mk b)"

subsection \<open>Secrets\<close>

type_synonym Secret = SecretProvider

record kms_Configuration =
  km_URL :: string
  km_masterKey :: string

definition getSecretProvider :: "kms_Configuration \<Rightarrow> baseSecret \<Rightarrow> SecretProvider" where
  "getSecretProvider c base =
     (if strings_HasPrefix (km_URL c) ''hashivault://'' then vaultSecret base (km_URL c) (km_masterKey c)
      else if strings_HasPrefix (km_URL c) ''awskms://'' then awsSecret base (km_URL c) (km_masterKey c)
      else if strings_HasPrefix (km_URL c) ''gcpkms://'' then gcpSecret base (km_URL c) (km_masterKey c)
      else localSecret base (km_masterKey c))"

definition newSecret :: "kms_Configuration \<Rightarrow> SecretStatus \<Rightarrow> string \<Rightarrow> string \<Rightarrow> string \<Rightarrow> Secret" where
  "newSecret c status payload key data =
     getSecretProvider c \<lparr>bs_Status = status, bs_Payload = payload, bs_Key = key,
                          bs_AdditionalData = data, bs_Mode = 0\<rparr>"

definition NewEmptySecret :: "kms_Configuration \<Rightarrow> Secret" where
  "NewEmptySecret c = newSecret c '''' '''' '''' ''''"

definition NewPlainSecret :: "kms_Configuration \<Rightarrow> string \<Rightarrow> Secret" where
  "NewPlainSecret c payload = newSecret c SecretStatusPlain payload '''' ''''"

text \<open>\<^verbatim>\<open>UnmarshalJSON\<close> from the outcome of \<^verbatim>\<open>json.Unmarshal\<close> into a \<open>baseSecret\<close>.\<close>

definition Secret_UnmarshalJSON :: "kms_Configuration \<Rightarrow> baseSecret option \<Rightarrow> kms_error + Secret" where
  "Secret_UnmarshalJSON c decoded =
     (case decoded of None \<Rightarrow> Inl errLibrary
      | Some b \<Rightarrow>
          if baseSecret_isEmpty b then Inr (getSecretProvider c b)
          else if bs_Status b = SecretStatusAES256GCM then Inr (builtinSecret b)
          else if bs_Status b = SecretStatusSecretBox then Inr (localSecret b (km_masterKey c))
          else if bs_Status b = SecretStatusVaultTransit then Inr (vaultSecret b (km_URL c) (km_masterKey c))
          else if bs_Status b = SecretStatusAWS then Inr (awsSecret b (km_URL c) (km_masterKey c))
          else if bs_Status b = SecretStatusGCP then Inr (gcpSecret b (km_URL c) (km_masterKey c))
          else if bs_Status b = SecretStatusPlain \<or> bs_Status b = SecretStatusRedacted
          then Inr (getSecretProvider c b)
          else Inl errInvalidSecret)"

text \<open>What \<^verbatim>\<open>MarshalJSON\<close> hands to the encoder.\<close>

definition Secret_MarshalJSON :: "Secret \<Rightarrow> baseSecret" where
  "Secret_MarshalJSON s =
     (let b = pr_base s
      in \<lparr>bs_Status = bs_Status b, bs_Payload = bs_Payload b, bs_Key = bs_Key b,
          bs_AdditionalData = bs_AdditionalData b, bs_Mode = bs_Mode b\<rparr>)"

definition Secret_IsEqual :: "Secret \<Rightarrow> Secret \<Rightarrow> bool" where
  "Secret_IsEqual s t =
     (if bs_Status (pr_base s) \<noteq> bs_Status (pr_base t) then False
      else if bs_Payload (pr_base s) \<noteq> bs_Payload (pr_base t) then False
      else if bs_Key (pr_base s) \<noteq> bs_Key (pr_base t) then False
      else if bs_AdditionalData (pr_base s) \<noteq> bs_AdditionalData (pr_base t) then False
      else if bs_Mode (pr_base s) \<noteq> bs_Mode (pr_base t) then False
      else True)"

fun Secret_Clone :: "kms_Configuration \<Rightarrow> Secret \<Rightarrow> Secret" where
  "Secret_Clone c (builtinSecret b) = builtinSecret b"
| "Secret_Clone c (awsSecret b u mk) = awsSecret b (km_URL c) (km_masterKey c)"
| "Secret_Clone c (gcpSecret b u mk) = gcpSecret b (km_URL c) (km_masterKey c)"
| "Secret_Clone c (localSecret b mk) = localSecret b (km_masterKey c)"
| "Secret_Clone c (vaultSecret b u mk) = vaultSecret b (km_URL c) (km_masterKey c)"

definition Secret_IsEncrypted :: "Secret \<Rightarrow> bool" where
  "Secret_IsEncrypted s = provider_IsEncrypted s"

definition Secret_IsPlain :: "Secret \<Rightarrow> bool" where
  "Secret_IsPlain s = (bs_Status (pr_base s) = SecretStatusPlain)"

definition Secret_IsRedacted :: "Secret \<Rightarrow> bool" where
  "Secret_IsRedacted s = (bs_Status (pr_base s) = SecretStatusRedacted)"

definition Secret_SetAdditionalData :: "string \<Rightarrow> Secret \<Rightarrow> Secret" where
  "Secret_SetAdditionalData v s = with_base (bs_AdditionalData_update (\<lambda>_. v)) s"

definition Secret_SetStatus :: "string \<Rightarrow> Secret \<Rightarrow> Secret" where
  "Secret_SetStatus v s = with_base (bs_Status_update (\<lambda>_. v)) s"

definition Secret_SetKey :: "string \<Rightarrow> Secret \<Rightarrow> Secret" where
  "Secret_SetKey v s = with_base (bs_Key_update (\<lambda>_. v)) s"

definition Secret_IsEmpty :: "Secret \<Rightarrow> bool" where
  "Secret_IsEmpty s =
     (if bs_Status (pr_base s) \<noteq> '''' then False
      else if bs_Payload (pr_base s) \<noteq> '''' then False
      else if bs_Key (pr_base s) \<noteq> '''' then False
      else if bs_AdditionalData (pr_base s) \<noteq> '''' then False
      else True)"

definition Secret_IsNotPlainAndNotEmpty :: "Secret \<Rightarrow> bool" where
  "Secret_IsNotPlainAndNotEmpty s = (\<not> Secret_IsPlain s \<and> \<not> Secret_IsEmpty s)"

definition Secret_IsValidInput :: "Secret \<Rightarrow> bool" where
  "Secret_IsValidInput s =
     (if \<not> IsStringInSlice (bs_Status (pr_base s)) validSecretStatuses then False
      else if bs_Payload (pr_base s) = '''' then False
      else True)"

definition Secret_IsValid :: "Secret \<Rightarrow> bool" where
  "Secret_IsValid s =
     (let status = bs_Status (pr_base s); key = bs_Key (pr_base s) in
      if \<not> Secret_IsValidInput s then False
      else if status = SecretStatusAES256GCM \<or> status = SecretStatusSecretBox then
        (if length key \<noteq> 64 then False else True)
      else if status = SecretStatusAWS \<or> status = SecretStatusGCP \<or> status = SecretStatusVaultTransit then
        (if key \<noteq> '''' \<and> length key \<noteq> 64 then False else True)
      else True)"

definition Secret_Hide :: "Secret \<Rightarrow> Secret" where
  "Secret_Hide s = with_base (bs_AdditionalData_update (\<lambda>_. '''')) (with_base (bs_Key_update (\<lambda>_. '''')) s)"

definition Secret_Encrypt ::
    "crypto \<Rightarrow> string option \<Rightarrow> string option \<Rightarrow> Secret \<Rightarrow> kms_error + Secret" where
  "Secret_Encrypt C rkey rnonce s = provider_Encrypt C rkey rnonce s"

definition Secret_Decrypt :: "crypto \<Rightarrow> Secret \<Rightarrow> kms_error + Secret" where
  "Secret_Decrypt C s = provider_Decrypt C s"

definition Secret_TryDecrypt :: "crypto \<Rightarrow> Secret \<Rightarrow> kms_error + Secret" where
  "Secret_TryDecrypt C s = (if provider_IsEncrypted s then provider_Decrypt C s else Inr s)"

subsection \<open>Lemmas\<close>

lemma pr_base_with_base [simp]: "pr_base (with_base f s) = f (pr_base s)"
  by (cases s) auto

lemma pr_base_Clone [simp]: "pr_base (Secret_Clone c s) = pr_base s"
  by (cases s) auto

lemma provider_IsEncrypted_Clone [simp]: "provider_IsEncrypted (Secret_Clone c s) = provider_IsEncrypted s"
  by (cases s) auto

lemma Secret_Clone_Clone [simp]: "Secret_Clone c (Secret_Clone d s) = Secret_Clone c s"
  by (cases s) auto

lemma Secret_IsEqual_iff: "Secret_IsEqual s t \<longleftrightarrow> pr_base s = pr_base t"
  by (auto simp: Secret_IsEqual_def)

lemma pr_base_getSecretProvider [simp]: "pr_base (getSecretProvider c b) = b"
  by (simp add: getSecretProvider_def)

lemma Secret_IsEmpty_iff: "Secret_IsEmpty s \<longleftrightarrow> baseSecret_isEmpty (pr_base s)"
  by (simp add: Secret_IsEmpty_def baseSecret_isEmpty_def)

lemma Secret_IsEmpty_NewEmptySecret [simp]: "Secret_IsEmpty (NewEmptySecret c)"
  by (simp add: Secret_IsEmpty_def NewEmptySecret_def newSecret_def)

lemma Secret_MarshalJSON_eq [simp]: "Secret_MarshalJSON s = pr_base s"
  by (simp add: Secret_MarshalJSON_def Let_def)

lemma combined_key_cong:
  "bs_AdditionalData s = bs_AdditionalData t \<Longrightarrow> combined_key C s k = combined_key C t k"
  by (simp add: combined_key_def)

lemma builtin_round_trip:
  assumes C: "crypto_ok C" and e: "builtin_Encrypt C rkey rnonce s = Inr t"
    and n: "\<forall>n. rnonce = Some n \<longrightarrow> length n = gcm_NonceSize"
  shows "bs_Status t = SecretStatusAES256GCM \<and>
    builtin_Decrypt C t = Inr (s\<lparr>bs_Key := '''', bs_AdditionalData := ''''\<rparr>)"
proof -
  obtain key nonce where *: "rkey = Some key" "rnonce = Some nonce" "bs_Status s = SecretStatusPlain"
    and t: "t = s\<lparr>bs_Key := hex_EncodeToString key,
       bs_Payload := hex_EncodeToString
         (nonce @ gcm_Seal C (combined_key C s key) nonce (bs_Payload s) (bs_AdditionalData s)),
       bs_Status := SecretStatusAES256GCM\<rparr>"
    using e by (auto simp: builtin_Encrypt_def split: if_splits option.splits)
  have "combined_key C t key = combined_key C s key" by (rule combined_key_cong) (simp add: t)
  then show ?thesis
    using C n *(2,3) by (simp add: t builtin_Decrypt_def crypto_ok_def)
qed

lemma local_deriveKey_decrypt:
  assumes "bs_AdditionalData t = bs_AdditionalData s" and "bs_Mode t = local_getEncryptionMode mk"
  shows "local_deriveKey C mk t k True = local_deriveKey C mk s k False"
  using assms combined_key_cong [of t s C k]
  by (simp add: local_deriveKey_def local_getEncryptionMode_def)

lemma local_round_trip:
  assumes C: "crypto_ok C" and e: "local_Encrypt C rkey mk s = Inr t"
  shows "bs_Status t = SecretStatusSecretBox \<and>
    local_Decrypt C mk t = Inr (s\<lparr>bs_Key := '''', bs_AdditionalData := '''', bs_Mode := 0\<rparr>)"
proof -
  obtain secretKey key c where *: "rkey = Some secretKey" "bs_Status s = SecretStatusPlain"
    "local_deriveKey C mk s secretKey False = Some key" "box_Encrypt C key (bs_Payload s) = Some c"
    and t: "t = s\<lparr>bs_Key := hex_EncodeToString secretKey, bs_Payload := base64_EncodeToString c,
       bs_Status := SecretStatusSecretBox, bs_Mode := local_getEncryptionMode mk\<rparr>"
    using e by (auto simp: local_Encrypt_def split: if_splits option.splits)
  have "local_deriveKey C mk t secretKey True = Some key"
    using *(3) local_deriveKey_decrypt [of t s mk C secretKey] by (simp add: t)
  then show ?thesis
    using C *(2,4) by (simp add: t local_Decrypt_def crypto_ok_def)
qed

lemma local_Encrypt_fields:
  assumes "local_Encrypt C rkey mk s = Inr t"
  shows "\<exists>k. rkey = Some k \<and> bs_Key t = hex_EncodeToString k"
    and "bs_AdditionalData t = bs_AdditionalData s" and "bs_Status t = SecretStatusSecretBox"
  using assms by (auto simp: local_Encrypt_def split: if_splits option.splits)

lemma gcloud_round_trip:
  assumes C: "crypto_ok C" and e: "gcloud_Encrypt C rkey url mk s = Inr t"
    and k: "\<forall>k. rkey = Some k \<longrightarrow> k \<noteq> []" and u: "t' = t\<lparr>bs_Status := st\<rparr>"
  shows "gcloud_Decrypt C url mk t' = Inr (s\<lparr>bs_Key := '''', bs_AdditionalData := '''', bs_Mode := 0\<rparr>)"
proof -
  have s: "bs_Status s = SecretStatusPlain"
    using e by (auto simp: gcloud_Encrypt_def split: if_splits)
  show ?thesis
  proof (cases "mk = ''''")
    case True
    then obtain c where "keeper_Encrypt C url (bs_Payload s) = Some c"
      "t = s\<lparr>bs_Payload := base64_EncodeToString c, bs_Key := '''', bs_Mode := 0\<rparr>"
      using e by (auto simp: gcloud_Encrypt_def split: if_splits option.splits)
    then show ?thesis using C s u by (simp add: gcloud_Decrypt_def crypto_ok_def)
  next
    case False
    then obtain l c where l: "local_Encrypt C rkey mk s = Inr l"
      and c: "keeper_Encrypt C url (bs_Payload l) = Some c"
      and t: "t = s\<lparr>bs_Payload := base64_EncodeToString c, bs_Key := bs_Key l, bs_Mode := bs_Mode l\<rparr>"
      using e by (cases "local_Encrypt C rkey mk s")
        (auto simp: gcloud_Encrypt_def split: if_splits option.splits)
    have "bs_Key l \<noteq> ''''" using local_Encrypt_fields(1) [OF l] k by (metis hex_EncodeToString_Nil_iff)
    moreover have "\<lparr>bs_Status = SecretStatusSecretBox, bs_Payload = bs_Payload l, bs_Key = bs_Key l,
        bs_AdditionalData = bs_AdditionalData s, bs_Mode = bs_Mode l\<rparr> = l"
      using local_Encrypt_fields [OF l] by simp
    ultimately show ?thesis
      using C c s u local_round_trip [OF C l] by (simp add: t gcloud_Decrypt_def crypto_ok_def)
  qed
qed

text \<open>Encrypting and decrypting with any of the providers.\<close>

lemma cloud_round_trip:
  assumes "crypto_ok C" and "cloud_Encrypt st C rkey url mk s = Inr t"
    and "\<forall>k. rkey = Some k \<longrightarrow> k \<noteq> []"
  shows "bs_Status t = st \<and>
    cloud_Decrypt st C url mk t = Inr (s\<lparr>bs_Key := '''', bs_AdditionalData := '''', bs_Mode := 0\<rparr>)"
proof -
  obtain t0 where "gcloud_Encrypt C rkey url mk s = Inr t0" "t = t0\<lparr>bs_Status := st\<rparr>"
    using assms(2) by (cases "gcloud_Encrypt C rkey url mk s") (auto simp: cloud_Encrypt_def)
  then show ?thesis
    using gcloud_round_trip [OF assms(1) _ assms(3), of url mk s t0 t st]
    by (simp add: cloud_Decrypt_def)
qed

lemmas cloud_defs = aws_Encrypt_def aws_Decrypt_def gcp_Encrypt_def gcp_Decrypt_def
  vault_Encrypt_def vault_Decrypt_def

lemma map_sum_Inr_iff: "map_sum id f x = Inr y \<longleftrightarrow> (\<exists>z. x = Inr z \<and> y = f z)"
  by (cases x) auto

lemma provider_round_trip:
  assumes "crypto_ok C" and "provider_Encrypt C rkey rnonce s = Inr t"
    and "\<forall>k. rkey = Some k \<longrightarrow> k \<noteq> []" and "\<forall>n. rnonce = Some n \<longrightarrow> length n = gcm_NonceSize"
  shows "provider_IsEncrypted t \<and>
    (\<exists>m. provider_Decrypt C t =
       Inr (with_base (\<lambda>_. (pr_base s)\<lparr>bs_Key := '''', bs_AdditionalData := '''', bs_Mode := m\<rparr>) s))"
proof (cases s)
  case (builtinSecret b)
  then obtain b' where b': "builtin_Encrypt C rkey rnonce b = Inr b'" "t = builtinSecret b'"
    using assms(2) by (auto simp: map_sum_Inr_iff)
  show ?thesis
    using builtin_round_trip [OF assms(1) b'(1) assms(4)] b'(2) builtinSecret
    by (auto intro!: exI [of _ "bs_Mode b"])
next
  case (localSecret b mk)
  then obtain b' where "local_Encrypt C rkey mk b = Inr b'" "t = SecretProvider.localSecret b' mk"
    using assms(2) by (auto simp: map_sum_Inr_iff)
  then show ?thesis using local_round_trip [OF assms(1)] localSecret by auto
qed (use assms(2) cloud_round_trip [OF assms(1) _ assms(3)] in \<open>force simp: cloud_defs map_sum_Inr_iff\<close>)+

lemma provider_Encrypt_plain:
  assumes "provider_Encrypt C rkey rnonce s = Inr t"
  shows "bs_Status (pr_base s) = SecretStatusPlain \<and> bs_Payload (pr_base s) \<noteq> ''''"
  using assms
  by (cases s) (auto simp: map_sum_Inr_iff cloud_defs cloud_Encrypt_def gcloud_Encrypt_def local_Encrypt_def
      builtin_Encrypt_def split: if_splits)

text \<open>An encrypted secret of the configured provider is read back from its stored form as it was.\<close>

lemma Unmarshal_encrypted:
  assumes "provider_Encrypt C rkey rnonce (getSecretProvider c b) = Inr t" and "provider_IsEncrypted t"
  shows "Secret_UnmarshalJSON c (Some (Secret_MarshalJSON t)) = Inr t"
  using assms
  by (auto simp: getSecretProvider_def Secret_UnmarshalJSON_def baseSecret_isEmpty_def map_sum_Inr_iff
      split: if_splits)

subsection \<open>Properties\<close>


definition identity_crypto :: crypto where
  "identity_crypto =
     \<lparr>sha256 = (\<lambda>s. s), gcm_Seal = (\<lambda>k n p a. p), gcm_Open = (\<lambda>k n c a. Some c),
      hkdf32 = (\<lambda>m k i. Some m), box_Encrypt = (\<lambda>k p. Some p), box_Decrypt = (\<lambda>k c. Some c),
      keeper_Encrypt = (\<lambda>u p. Some p), keeper_Decrypt = (\<lambda>u c. Some c)\<rparr>"


end
