(* ===== verification/Vfs.thy ===== *)
theory Vfs
  imports Kms
begin

text \<open>
  \<^verbatim>\<open>vfs/vfs.go\<close>, \<^verbatim>\<open>vfs/sftpfs.go\<close>, \<^verbatim>\<open>vfs/filesystem.go\<close> and \<^verbatim>\<open>vfs/folder.go\<close>: the
  configuration of the storage backends, with validation, comparison, copying
  and encryption of the credentials, and the virtual folders. A pointer to a
  secret is an option, \<open>None\<close> being nil. An operation that updates its receiver
  returns the updated value; with an error result it returns both, the error
  first. An operation that dereferences a nil secret panics, which is the
  result \<open>None\<close> of an option. The KMS configuration, a global of the source, is
  the argument \<open>kc\<close>.
\<close>

subsection \<open>Quota checks\<close>

record QuotaCheckResult =
  q_HasSpace :: bool
  q_AllowedSize :: int
  q_AllowedFiles :: int
  q_UsedSize :: int
  q_UsedFiles :: int
  q_QuotaSize :: int
  q_QuotaFiles :: int

definition GetRemainingSize :: "QuotaCheckResult \<Rightarrow> int" where
  "GetRemainingSize q = (if q_QuotaSize q > 0 then sub64 (q_QuotaSize q) (q_UsedSize q) else 0)"

definition GetRemainingFiles :: "QuotaCheckResult \<Rightarrow> int" where
  "GetRemainingFiles q = (if q_QuotaFiles q > 0 then sub64 (q_QuotaFiles q) (q_UsedFiles q) else 0)"

subsection \<open>Filesystem configurations\<close>

record S3FsConfig =
  s3_Bucket :: string
  s3_KeyPrefix :: string
  s3_Region :: string
  s3_AccessKey :: string
  s3_AccessSecret :: "Secret option"
  s3_Endpoint :: string
  s3_StorageClass :: string
  s3_UploadPartSize :: int
  s3_UploadConcurrency :: int

record GCSFsConfig =
  gcs_Bucket :: string
  gcs_KeyPrefix :: string
  gcs_CredentialFile :: string
  gcs_Credentials :: "Secret option"
  gcs_AutomaticCredentials :: int
  gcs_StorageClass :: string

record AzBlobFsConfig =
  az_Container :: string
  az_AccountName :: string
  az_AccountKey :: "Secret option"
  az_Endpoint :: string
  az_SASURL :: string
  az_KeyPrefix :: string
  az_UploadPartSize :: int
  az_UploadConcurrency :: int
  az_UseEmulator :: bool
  az_AccessTier :: string

record CryptFsConfig =
  cr_Passphrase :: "Secret option"

record SFTPFsConfig =
  sf_Endpoint :: string
  sf_Username :: string
  sf_Password :: "Secret option"
  sf_PrivateKey :: "Secret option"
  sf_Fingerprints :: "string list"
  sf_Prefix :: string
  sf_DisableCouncurrentReads :: bool
  sf_BufferSize :: int
  sf_forbiddenSelfUsernames :: "string list"

abbreviation (input) LocalFilesystemProvider :: int where "LocalFilesystemProvider \<equiv> 0"
abbreviation (input) S3FilesystemProvider :: int where "S3FilesystemProvider \<equiv> 1"
abbreviation (input) GCSFilesystemProvider :: int where "GCSFilesystemProvider \<equiv> 2"
abbreviation (input) AzureBlobFilesystemProvider :: int where "AzureBlobFilesystemProvider \<equiv> 3"
abbreviation (input) CryptedFilesystemProvider :: int where "CryptedFilesystemProvider \<equiv> 4"
abbreviation (input) SFTPFilesystemProvider :: int where "SFTPFilesystemProvider \<equiv> 5"

record Filesystem =
  fc_RedactedSecret :: string
  fc_Provider :: int
  fc_S3Config :: S3FsConfig
  fc_GCSConfig :: GCSFsConfig
  fc_AzBlobConfig :: AzBlobFsConfig
  fc_CryptConfig :: CryptFsConfig
  fc_SFTPConfig :: SFTPFsConfig

text \<open>The zero value of the configuration.\<close>

definition zero_Filesystem :: Filesystem where
  "zero_Filesystem =
     \<lparr>fc_RedactedSecret = '''', fc_Provider = 0,
      fc_S3Config = \<lparr>s3_Bucket = '''', s3_KeyPrefix = '''', s3_Region = '''', s3_AccessKey = '''',
        s3_AccessSecret = None, s3_Endpoint = '''', s3_StorageClass = '''', s3_UploadPartSize = 0,
        s3_UploadConcurrency = 0\<rparr>,
      fc_GCSConfig = \<lparr>gcs_Bucket = '''', gcs_KeyPrefix = '''', gcs_CredentialFile = '''', gcs_Credentials = None,
        gcs_AutomaticCredentials = 0, gcs_StorageClass = ''''\<rparr>,
      fc_AzBlobConfig = \<lparr>az_Container = '''', az_AccountName = '''', az_AccountKey = None, az_Endpoint = '''',
        az_SASURL = '''', az_KeyPrefix = '''', az_UploadPartSize = 0, az_UploadConcurrency = 0,
        az_UseEmulator = False, az_AccessTier = ''''\<rparr>,
      fc_CryptConfig = \<lparr>cr_Passphrase = None\<rparr>,
      fc_SFTPConfig = \<lparr>sf_Endpoint = '''', sf_Username = '''', sf_Password = None, sf_PrivateKey = None,
        sf_Fingerprints = [], sf_Prefix = '''', sf_DisableCouncurrentReads = False, sf_BufferSize = 0,
        sf_forbiddenSelfUsernames = []\<rparr>\<rparr>"

subsection \<open>Secrets behind pointers\<close>

definition empty_if_nil :: "kms_Configuration \<Rightarrow> Secret option \<Rightarrow> Secret option" where
  "empty_if_nil kc x = (case x of None \<Rightarrow> Some (NewEmptySecret kc) | Some s \<Rightarrow> Some s)"

definition nil_if_empty :: "Secret option \<Rightarrow> Secret option" where
  "nil_if_empty x = (case x of None \<Rightarrow> None | Some s \<Rightarrow> if Secret_IsEmpty s then None else Some s)"

text \<open>Comparison of two pointers that were set to a secret before.\<close>

definition ptr_IsEqual :: "Secret option \<Rightarrow> Secret option \<Rightarrow> bool" where
  "ptr_IsEqual x y = (case (x, y) of (Some s, Some t) \<Rightarrow> Secret_IsEqual s t | _ \<Rightarrow> False)"

text \<open>
  The block that four configurations share: a plain secret gets the additional
  data and is encrypted.
\<close>

type_synonym random = "string option \<times> string option"

definition encrypt_plain ::
    "crypto \<Rightarrow> random \<Rightarrow> string \<Rightarrow> Secret \<Rightarrow> kms_error option \<times> Secret" where
  "encrypt_plain C rnd additionalData s =
     (if Secret_IsPlain s then
        (let s' = Secret_SetAdditionalData additionalData s
         in case Secret_Encrypt C (fst rnd) (snd rnd) s' of
              Inl e \<Rightarrow> (Some e, s')
            | Inr t \<Rightarrow> (None, t))
      else (None, s))"

text \<open>A key prefix that is cleaned and ends with a slash; \<open>None\<close> rejects it.\<close>

definition clean_key_prefix :: "string \<Rightarrow> string option" where
  "clean_key_prefix kp =
     (if kp \<noteq> '''' then
        (if strings_HasPrefix kp ''/'' then None
         else (let k = path_Clean kp in Some (if \<not> strings_HasSuffix k ''/'' then k @ ''/'' else k)))
      else Some kp)"

subsection \<open>S3\<close>

definition S3_isEqual ::
    "kms_Configuration \<Rightarrow> S3FsConfig \<Rightarrow> S3FsConfig \<Rightarrow> bool \<times> S3FsConfig \<times> S3FsConfig" where
  "S3_isEqual kc c other =
     (if s3_Bucket c \<noteq> s3_Bucket other then (False, c, other)
      else if s3_KeyPrefix c \<noteq> s3_KeyPrefix other then (False, c, other)
      else if s3_Region c \<noteq> s3_Region other then (False, c, other)
      else if s3_AccessKey c \<noteq> s3_AccessKey other then (False, c, other)
      else if s3_Endpoint c \<noteq> s3_Endpoint other then (False, c, other)
      else if s3_StorageClass c \<noteq> s3_StorageClass other then (False, c, other)
      else if s3_UploadPartSize c \<noteq> s3_UploadPartSize other then (False, c, other)
      else if s3_UploadConcurrency c \<noteq> s3_UploadConcurrency other then (False, c, other)
      else
        (let c' = c\<lparr>s3_AccessSecret := empty_if_nil kc (s3_AccessSecret c)\<rparr>;
             o' = other\<lparr>s3_AccessSecret := empty_if_nil kc (s3_AccessSecret other)\<rparr>
         in (ptr_IsEqual (s3_AccessSecret c') (s3_AccessSecret o'), c', o')))"

text \<open>\<open>s\<close> is the secret that \<^verbatim>\<open>AccessSecret\<close> points to.\<close>

definition S3_checkCredentials :: "S3FsConfig \<Rightarrow> Secret \<Rightarrow> string option" where
  "S3_checkCredentials c s =
     (if s3_AccessKey c = '''' \<and> \<not> Secret_IsEmpty s
      then Some ''access_key cannot be empty with access_secret not empty''
      else if Secret_IsEmpty s \<and> s3_AccessKey c \<noteq> ''''
      then Some ''access_secret cannot be empty with access_key not empty''
      else if Secret_IsEncrypted s \<and> \<not> Secret_IsValid s then Some ''invalid encrypted access_secret''
      else if \<not> Secret_IsEmpty s \<and> \<not> Secret_IsValidInput s then Some ''invalid access_secret''
      else None)"

definition S3_EncryptCredentials ::
    "crypto \<Rightarrow> random \<Rightarrow> string \<Rightarrow> S3FsConfig \<Rightarrow> (kms_error option \<times> S3FsConfig) option" where
  "S3_EncryptCredentials C rnd additionalData c =
     map_option (\<lambda>s. case encrypt_plain C rnd additionalData s of
                       (e, s') \<Rightarrow> (e, c\<lparr>s3_AccessSecret := Some s'\<rparr>)) (s3_AccessSecret c)"

definition S3_Validate :: "kms_Configuration \<Rightarrow> S3FsConfig \<Rightarrow> string option \<times> S3FsConfig" where
  "S3_Validate kc c0 =
     (let s = (case s3_AccessSecret c0 of None \<Rightarrow> NewEmptySecret kc | Some s \<Rightarrow> s);
          c = c0\<lparr>s3_AccessSecret := Some s\<rparr>
      in if s3_Bucket c = '''' then (Some ''bucket cannot be empty'', c)
         else if s3_Region c = '''' then (Some ''region cannot be empty'', c)
         else
           (case S3_checkCredentials c s of
              Some e \<Rightarrow> (Some e, c)
            | None \<Rightarrow>
                (case clean_key_prefix (s3_KeyPrefix c) of
                   None \<Rightarrow> (Some ''key_prefix cannot start with /'', c)
                 | Some kp \<Rightarrow>
                     (let c = c\<lparr>s3_KeyPrefix := kp\<rparr>
                      in if s3_UploadPartSize c \<noteq> 0 \<and> (s3_UploadPartSize c < 5 \<or> s3_UploadPartSize c > 5000)
                         then (Some ''upload_part_size cannot be != 0, lower than 5 (MB) or greater than 5000 (MB)'', c)
                         else if s3_UploadConcurrency c < 0 \<or> s3_UploadConcurrency c > 64
                         then (Some ''invalid upload concurrency'', c)
                         else (None, c)))))"

subsection \<open>Google Cloud Storage\<close>

definition GCS_isEqual ::
    "kms_Configuration \<Rightarrow> GCSFsConfig \<Rightarrow> GCSFsConfig \<Rightarrow> bool \<times> GCSFsConfig \<times> GCSFsConfig" where
  "GCS_isEqual kc c other =
     (if gcs_Bucket c \<noteq> gcs_Bucket other then (False, c, other)
      else if gcs_KeyPrefix c \<noteq> gcs_KeyPrefix other then (False, c, other)
      else if gcs_AutomaticCredentials c \<noteq> gcs_AutomaticCredentials other then (False, c, other)
      else if gcs_StorageClass c \<noteq> gcs_StorageClass other then (False, c, other)
      else
        (let c' = c\<lparr>gcs_Credentials := empty_if_nil kc (gcs_Credentials c)\<rparr>;
             o' = other\<lparr>gcs_Credentials := empty_if_nil kc (gcs_Credentials other)\<rparr>
         in (ptr_IsEqual (gcs_Credentials c') (gcs_Credentials o'), c', o')))"

text \<open>\<open>credFile\<close> is what \<^verbatim>\<open>os.Stat\<close> says of the credentials file: its size, if it can be read.\<close>

definition GCS_Validate ::
    "kms_Configuration \<Rightarrow> int option \<Rightarrow> GCSFsConfig \<Rightarrow> string option \<times> GCSFsConfig" where
  "GCS_Validate kc credFile c0 =
     (let s = (case gcs_Credentials c0 of None \<Rightarrow> NewEmptySecret kc | Some s \<Rightarrow> s);
          c = c0\<lparr>gcs_Credentials := Some s\<rparr>
      in if gcs_Bucket c = '''' then (Some ''bucket cannot be empty'', c)
         else
           (case clean_key_prefix (gcs_KeyPrefix c) of
              None \<Rightarrow> (Some ''key_prefix cannot start with /'', c)
            | Some kp \<Rightarrow>
                (let c = c\<lparr>gcs_KeyPrefix := kp\<rparr>
                 in if Secret_IsEncrypted s \<and> \<not> Secret_IsValid s then (Some ''invalid encrypted credentials'', c)
                    else if \<not> Secret_IsValidInput s \<and> gcs_AutomaticCredentials c = 0 then
                      (case credFile of
                         None \<Rightarrow> (Some ''invalid credentials'', c)
                       | Some sz \<Rightarrow> if sz = 0 then (Some ''credentials cannot be empty'', c) else (None, c))
                    else (None, c))))"

subsection \<open>Azure Blob Storage\<close>

definition validAzAccessTier :: "string list" where
  "validAzAccessTier = ['''', ''Archive'', ''Hot'', ''Cool'']"

definition AzBlob_isEqual ::
    "kms_Configuration \<Rightarrow> AzBlobFsConfig \<Rightarrow> AzBlobFsConfig \<Rightarrow> bool \<times> AzBlobFsConfig \<times> AzBlobFsConfig" where
  "AzBlob_isEqual kc c other =
     (if az_Container c \<noteq> az_Container other then (False, c, other)
      else if az_AccountName c \<noteq> az_AccountName other then (False, c, other)
      else if az_Endpoint c \<noteq> az_Endpoint other then (False, c, other)
      else if az_SASURL c \<noteq> az_SASURL other then (False, c, other)
      else if az_KeyPrefix c \<noteq> az_KeyPrefix other then (False, c, other)
      else if az_UploadPartSize c \<noteq> az_UploadPartSize other then (False, c, other)
      else if az_UploadConcurrency c \<noteq> az_UploadConcurrency other then (False, c, other)
      else if az_UseEmulator c \<noteq> az_UseEmulator other then (False, c, other)
      else if az_AccessTier c \<noteq> az_AccessTier other then (False, c, other)
      else
        (let c' = c\<lparr>az_AccountKey := empty_if_nil kc (az_AccountKey c)\<rparr>;
             o' = other\<lparr>az_AccountKey := empty_if_nil kc (az_AccountKey other)\<rparr>
         in (ptr_IsEqual (az_AccountKey c') (az_AccountKey o'), c', o')))"

definition AzBlob_EncryptCredentials ::
    "crypto \<Rightarrow> random \<Rightarrow> string \<Rightarrow> AzBlobFsConfig \<Rightarrow> (kms_error option \<times> AzBlobFsConfig) option" where
  "AzBlob_EncryptCredentials C rnd additionalData c =
     map_option (\<lambda>s. case encrypt_plain C rnd additionalData s of
                       (e, s') \<Rightarrow> (e, c\<lparr>az_AccountKey := Some s'\<rparr>)) (az_AccountKey c)"

definition AzBlob_checkCredentials :: "AzBlobFsConfig \<Rightarrow> Secret \<Rightarrow> string option" where
  "AzBlob_checkCredentials c s =
     (if az_AccountName c = '''' \<or> \<not> Secret_IsValidInput s
      then Some ''credentials cannot be empty or invalid''
      else if Secret_IsEncrypted s \<and> \<not> Secret_IsValid s then Some ''invalid encrypted account_key''
      else None)"

text \<open>\<open>url_Parse\<close> is the standard library's verdict on a shared access URL.\<close>

definition AzBlob_Validate ::
    "kms_Configuration \<Rightarrow> (string \<Rightarrow> string option) \<Rightarrow> AzBlobFsConfig \<Rightarrow> string option \<times> AzBlobFsConfig" where
  "AzBlob_Validate kc url_Parse c0 =
     (let s = (case az_AccountKey c0 of None \<Rightarrow> NewEmptySecret kc | Some s \<Rightarrow> s);
          c = c0\<lparr>az_AccountKey := Some s\<rparr>
      in if az_SASURL c \<noteq> '''' then (url_Parse (az_SASURL c), c)
         else if az_Container c = '''' then (Some ''container cannot be empty'', c)
         else
           (case AzBlob_checkCredentials c s of
              Some e \<Rightarrow> (Some e, c)
            | None \<Rightarrow>
                (case clean_key_prefix (az_KeyPrefix c) of
                   None \<Rightarrow> (Some ''key_prefix cannot start with /'', c)
                 | Some kp \<Rightarrow>
                     (let c = c\<lparr>az_KeyPrefix := kp\<rparr>
                      in if az_UploadPartSize c < 0 \<or> az_UploadPartSize c > 100
                         then (Some ''invalid upload part size'', c)
                         else if az_UploadConcurrency c < 0 \<or> az_UploadConcurrency c > 64
                         then (Some ''invalid upload concurrency'', c)
                         else if \<not> IsStringInSlice (az_AccessTier c) validAzAccessTier
                         then (Some ''invalid access tier'', c)
                         else (None, c)))))"

subsection \<open>Encrypted local storage\<close>

definition Crypt_isEqual ::
    "kms_Configuration \<Rightarrow> CryptFsConfig \<Rightarrow> CryptFsConfig \<Rightarrow> bool \<times> CryptFsConfig \<times> CryptFsConfig" where
  "Crypt_isEqual kc c other =
     (let c' = c\<lparr>cr_Passphrase := empty_if_nil kc (cr_Passphrase c)\<rparr>;
          o' = other\<lparr>cr_Passphrase := empty_if_nil kc (cr_Passphrase other)\<rparr>
      in (ptr_IsEqual (cr_Passphrase c') (cr_Passphrase o'), c', o'))"

definition Crypt_EncryptCredentials ::
    "crypto \<Rightarrow> random \<Rightarrow> string \<Rightarrow> CryptFsConfig \<Rightarrow> (kms_error option \<times> CryptFsConfig) option" where
  "Crypt_EncryptCredentials C rnd additionalData c =
     map_option (\<lambda>s. case encrypt_plain C rnd additionalData s of
                       (e, s') \<Rightarrow> (e, c\<lparr>cr_Passphrase := Some s'\<rparr>)) (cr_Passphrase c)"

definition Crypt_Validate :: "CryptFsConfig \<Rightarrow> string option" where
  "Crypt_Validate c =
     (case cr_Passphrase c of
        None \<Rightarrow> Some ''invalid passphrase''
      | Some s \<Rightarrow>
          if Secret_IsEmpty s then Some ''invalid passphrase''
          else if \<not> Secret_IsValidInput s then Some ''passphrase cannot be empty or invalid''
          else if Secret_IsEncrypted s \<and> \<not> Secret_IsValid s then Some ''invalid encrypted passphrase''
          else None)"

subsection \<open>SFTP storage\<close>

definition setEmptyCredentialsIfNil :: "kms_Configuration \<Rightarrow> SFTPFsConfig \<Rightarrow> SFTPFsConfig" where
  "setEmptyCredentialsIfNil kc c =
     c\<lparr>sf_Password := empty_if_nil kc (sf_Password c), sf_PrivateKey := empty_if_nil kc (sf_PrivateKey c)\<rparr>"

definition SFTP_isEqual ::
    "kms_Configuration \<Rightarrow> SFTPFsConfig \<Rightarrow> SFTPFsConfig \<Rightarrow> bool \<times> SFTPFsConfig \<times> SFTPFsConfig" where
  "SFTP_isEqual kc c other =
     (if sf_Endpoint c \<noteq> sf_Endpoint other then (False, c, other)
      else if sf_Username c \<noteq> sf_Username other then (False, c, other)
      else if sf_Prefix c \<noteq> sf_Prefix other then (False, c, other)
      else if sf_DisableCouncurrentReads c \<noteq> sf_DisableCouncurrentReads other then (False, c, other)
      else if sf_BufferSize c \<noteq> sf_BufferSize other then (False, c, other)
      else if length (sf_Fingerprints c) \<noteq> length (sf_Fingerprints other) then (False, c, other)
      else if list_ex (\<lambda>fp. \<not> IsStringInSlice fp (sf_Fingerprints other)) (sf_Fingerprints c)
      then (False, c, other)
      else
        (let c' = setEmptyCredentialsIfNil kc c; o' = setEmptyCredentialsIfNil kc other
         in if \<not> ptr_IsEqual (sf_Password c') (sf_Password o') then (False, c', o')
            else (ptr_IsEqual (sf_PrivateKey c') (sf_PrivateKey o'), c', o')))"

text \<open>\<open>pw\<close> and \<open>pk\<close> are the secrets that \<^verbatim>\<open>Password\<close> and \<^verbatim>\<open>PrivateKey\<close> point to.\<close>

definition SFTP_validateCredentials :: "Secret \<Rightarrow> Secret \<Rightarrow> string option" where
  "SFTP_validateCredentials pw pk =
     (if Secret_IsEmpty pw \<and> Secret_IsEmpty pk then Some ''credentials cannot be empty''
      else if Secret_IsEncrypted pw \<and> \<not> Secret_IsValid pw then Some ''invalid encrypted password''
      else if \<not> Secret_IsEmpty pw \<and> \<not> Secret_IsValidInput pw then Some ''invalid password''
      else if Secret_IsEncrypted pk \<and> \<not> Secret_IsValid pk then Some ''invalid encrypted private key''
      else if \<not> Secret_IsEmpty pk \<and> \<not> Secret_IsValidInput pk then Some ''invalid private key''
      else None)"

definition SFTP_Validate :: "kms_Configuration \<Rightarrow> SFTPFsConfig \<Rightarrow> string option \<times> SFTPFsConfig" where
  "SFTP_Validate kc c0 =
     (let c = setEmptyCredentialsIfNil kc c0 in
      if sf_Endpoint c = '''' then (Some ''endpoint cannot be empty'', c)
      else if net_SplitHostPort (sf_Endpoint c) = None then (Some ''invalid endpoint'', c)
      else if sf_Username c = '''' then (Some ''username cannot be empty'', c)
      else if sf_BufferSize c < 0 \<or> sf_BufferSize c > 16
      then (Some ''invalid buffer_size, valid range is 0-16'', c)
      else
        (case SFTP_validateCredentials (the (sf_Password c)) (the (sf_PrivateKey c)) of
           Some e \<Rightarrow> (Some e, c)
         | None \<Rightarrow>
             (None, c\<lparr>sf_Prefix := (if sf_Prefix c \<noteq> '''' then CleanPath (sf_Prefix c) else ''/'')\<rparr>)))"

definition SFTP_EncryptCredentials ::
    "crypto \<Rightarrow> random \<Rightarrow> random \<Rightarrow> string \<Rightarrow> SFTPFsConfig \<Rightarrow> (kms_error option \<times> SFTPFsConfig) option" where
  "SFTP_EncryptCredentials C rnd1 rnd2 additionalData c =
     (case sf_Password c of
        None \<Rightarrow> None
      | Some pw \<Rightarrow>
          (case encrypt_plain C rnd1 additionalData pw of
             (Some e, pw') \<Rightarrow> Some (Some e, c\<lparr>sf_Password := Some pw'\<rparr>)
           | (None, pw') \<Rightarrow>
               (case sf_PrivateKey c of
                  None \<Rightarrow> None
                | Some pk \<Rightarrow>
                    (case encrypt_plain C rnd2 additionalData pk of
                       (e, pk') \<Rightarrow> Some (e, c\<lparr>sf_Password := Some pw', sf_PrivateKey := Some pk'\<rparr>)))))"

subsection \<open>The filesystem configuration of a user or folder\<close>

definition SetEmptySecretsIfNil :: "kms_Configuration \<Rightarrow> Filesystem \<Rightarrow> Filesystem" where
  "SetEmptySecretsIfNil kc f =
     f\<lparr>fc_S3Config := (fc_S3Config f)\<lparr>s3_AccessSecret := empty_if_nil kc (s3_AccessSecret (fc_S3Config f))\<rparr>,
       fc_GCSConfig := (fc_GCSConfig f)\<lparr>gcs_Credentials := empty_if_nil kc (gcs_Credentials (fc_GCSConfig f))\<rparr>,
       fc_AzBlobConfig := (fc_AzBlobConfig f)\<lparr>az_AccountKey := empty_if_nil kc (az_AccountKey (fc_AzBlobConfig f))\<rparr>,
       fc_CryptConfig := (fc_CryptConfig f)\<lparr>cr_Passphrase := empty_if_nil kc (cr_Passphrase (fc_CryptConfig f))\<rparr>,
       fc_SFTPConfig := (fc_SFTPConfig f)
         \<lparr>sf_Password := empty_if_nil kc (sf_Password (fc_SFTPConfig f)),
          sf_PrivateKey := empty_if_nil kc (sf_PrivateKey (fc_SFTPConfig f))\<rparr>\<rparr>"

definition SetNilSecretsIfEmpty :: "Filesystem \<Rightarrow> Filesystem" where
  "SetNilSecretsIfEmpty f =
     f\<lparr>fc_S3Config := (fc_S3Config f)\<lparr>s3_AccessSecret := nil_if_empty (s3_AccessSecret (fc_S3Config f))\<rparr>,
       fc_GCSConfig := (fc_GCSConfig f)\<lparr>gcs_Credentials := nil_if_empty (gcs_Credentials (fc_GCSConfig f))\<rparr>,
       fc_AzBlobConfig := (fc_AzBlobConfig f)\<lparr>az_AccountKey := nil_if_empty (az_AccountKey (fc_AzBlobConfig f))\<rparr>,
       fc_CryptConfig := (fc_CryptConfig f)\<lparr>cr_Passphrase := nil_if_empty (cr_Passphrase (fc_CryptConfig f))\<rparr>,
       fc_SFTPConfig := (fc_SFTPConfig f)
         \<lparr>sf_Password := nil_if_empty (sf_Password (fc_SFTPConfig f)),
          sf_PrivateKey := nil_if_empty (sf_PrivateKey (fc_SFTPConfig f))\<rparr>\<rparr>"

definition Filesystem_IsEqual ::
    "kms_Configuration \<Rightarrow> Filesystem \<Rightarrow> Filesystem \<Rightarrow> bool \<times> Filesystem \<times> Filesystem" where
  "Filesystem_IsEqual kc f other =
     (if fc_Provider f \<noteq> fc_Provider other then (False, f, other)
      else if fc_Provider f = S3FilesystemProvider then
        (case S3_isEqual kc (fc_S3Config f) (fc_S3Config other) of
           (r, c, d) \<Rightarrow> (r, f\<lparr>fc_S3Config := c\<rparr>, other\<lparr>fc_S3Config := d\<rparr>))
      else if fc_Provider f = GCSFilesystemProvider then
        (case GCS_isEqual kc (fc_GCSConfig f) (fc_GCSConfig other) of
           (r, c, d) \<Rightarrow> (r, f\<lparr>fc_GCSConfig := c\<rparr>, other\<lparr>fc_GCSConfig := d\<rparr>))
      else if fc_Provider f = AzureBlobFilesystemProvider then
        (case AzBlob_isEqual kc (fc_AzBlobConfig f) (fc_AzBlobConfig other) of
           (r, c, d) \<Rightarrow> (r, f\<lparr>fc_AzBlobConfig := c\<rparr>, other\<lparr>fc_AzBlobConfig := d\<rparr>))
      else if fc_Provider f = CryptedFilesystemProvider then
        (case Crypt_isEqual kc (fc_CryptConfig f) (fc_CryptConfig other) of
           (r, c, d) \<Rightarrow> (r, f\<lparr>fc_CryptConfig := c\<rparr>, other\<lparr>fc_CryptConfig := d\<rparr>))
      else if fc_Provider f = SFTPFilesystemProvider then
        (case SFTP_isEqual kc (fc_SFTPConfig f) (fc_SFTPConfig other) of
           (r, c, d) \<Rightarrow> (r, f\<lparr>fc_SFTPConfig := c\<rparr>, other\<lparr>fc_SFTPConfig := d\<rparr>))
      else (True, f, other))"

text \<open>
  The copy, from a receiver that got its missing secrets first. Fields that the
  source leaves out of the literal have their zero value.
\<close>

definition Filesystem_copy_of :: "kms_Configuration \<Rightarrow> Filesystem \<Rightarrow> Filesystem" where
  "Filesystem_copy_of kc f =
     (let s3 = fc_S3Config f; gcs = fc_GCSConfig f; az = fc_AzBlobConfig f;
          cr = fc_CryptConfig f; sf = fc_SFTPConfig f; clone = map_option (Secret_Clone kc)
      in \<lparr>fc_RedactedSecret = '''', fc_Provider = fc_Provider f,
          fc_S3Config = \<lparr>s3_Bucket = s3_Bucket s3, s3_KeyPrefix = s3_KeyPrefix s3, s3_Region = s3_Region s3,
            s3_AccessKey = s3_AccessKey s3, s3_AccessSecret = clone (s3_AccessSecret s3),
            s3_Endpoint = s3_Endpoint s3, s3_StorageClass = s3_StorageClass s3,
            s3_UploadPartSize = s3_UploadPartSize s3, s3_UploadConcurrency = s3_UploadConcurrency s3\<rparr>,
          fc_GCSConfig = \<lparr>gcs_Bucket = gcs_Bucket gcs, gcs_KeyPrefix = gcs_KeyPrefix gcs,
            gcs_CredentialFile = gcs_CredentialFile gcs, gcs_Credentials = clone (gcs_Credentials gcs),
            gcs_AutomaticCredentials = gcs_AutomaticCredentials gcs, gcs_StorageClass = gcs_StorageClass gcs\<rparr>,
          fc_AzBlobConfig = \<lparr>az_Container = az_Container az, az_AccountName = az_AccountName az,
            az_AccountKey = clone (az_AccountKey az), az_Endpoint = az_Endpoint az, az_SASURL = az_SASURL az,
            az_KeyPrefix = az_KeyPrefix az, az_UploadPartSize = az_UploadPartSize az,
            az_UploadConcurrency = az_UploadConcurrency az, az_UseEmulator = az_UseEmulator az,
            az_AccessTier = az_AccessTier az\<rparr>,
          fc_CryptConfig = \<lparr>cr_Passphrase = clone (cr_Passphrase cr)\<rparr>,
          fc_SFTPConfig = \<lparr>sf_Endpoint = sf_Endpoint sf, sf_Username = sf_Username sf,
            sf_Password = clone (sf_Password sf), sf_PrivateKey = clone (sf_PrivateKey sf),
            sf_Fingerprints = (if length (sf_Fingerprints sf) > 0 then sf_Fingerprints sf else []),
            sf_Prefix = sf_Prefix sf, sf_DisableCouncurrentReads = sf_DisableCouncurrentReads sf,
            sf_BufferSize = sf_BufferSize sf, sf_forbiddenSelfUsernames = []\<rparr>\<rparr>)"

definition Filesystem_GetACopy :: "kms_Configuration \<Rightarrow> Filesystem \<Rightarrow> Filesystem \<times> Filesystem" where
  "Filesystem_GetACopy kc f = (let f' = SetEmptySecretsIfNil kc f in (f', Filesystem_copy_of kc f'))"

subsection \<open>Folders\<close>

record BaseVirtualFolder =
  bf_ID :: int
  bf_Name :: string
  bf_MappedPath :: string
  bf_Description :: string
  bf_UsedQuotaSize :: int
  bf_UsedQuotaFiles :: int
  bf_LastQuotaUpdate :: int
  bf_Users :: "string list"
  bf_FsConfig :: Filesystem

text \<open>\<^verbatim>\<open>VirtualFolder\<close> embeds a \<open>BaseVirtualFolder\<close>.\<close>

record VirtualFolder =
  vf_Base :: BaseVirtualFolder
  vf_VirtualPath :: string
  vf_QuotaSize :: int
  vf_QuotaFiles :: int

definition zero_BaseVirtualFolder :: BaseVirtualFolder where
  "zero_BaseVirtualFolder =
     \<lparr>bf_ID = 0, bf_Name = '''', bf_MappedPath = '''', bf_Description = '''', bf_UsedQuotaSize = 0,
      bf_UsedQuotaFiles = 0, bf_LastQuotaUpdate = 0, bf_Users = [], bf_FsConfig = zero_Filesystem\<rparr>"

definition zero_VirtualFolder :: VirtualFolder where
  "zero_VirtualFolder =
     \<lparr>vf_Base = zero_BaseVirtualFolder, vf_VirtualPath = '''', vf_QuotaSize = 0, vf_QuotaFiles = 0\<rparr>"

abbreviation vf_Name :: "VirtualFolder \<Rightarrow> string" where "vf_Name v \<equiv> bf_Name (vf_Base v)"
abbreviation vf_MappedPath :: "VirtualFolder \<Rightarrow> string" where "vf_MappedPath v \<equiv> bf_MappedPath (vf_Base v)"
abbreviation vf_FsConfig :: "VirtualFolder \<Rightarrow> Filesystem" where "vf_FsConfig v \<equiv> bf_FsConfig (vf_Base v)"

definition Folder_GetEncrytionAdditionalData :: "BaseVirtualFolder \<Rightarrow> string" where
  "Folder_GetEncrytionAdditionalData v = ''folder_'' @ bf_Name v"

definition Folder_GetGCSCredentialsFilePath :: "string \<Rightarrow> BaseVirtualFolder \<Rightarrow> string" where
  "Folder_GetGCSCredentialsFilePath credentialsDirPath v =
     path_Join [credentialsDirPath, ''folders'', bf_Name v @ ''_gcs_credentials.json'']"

definition Folder_GetACopy ::
    "kms_Configuration \<Rightarrow> BaseVirtualFolder \<Rightarrow> BaseVirtualFolder \<times> BaseVirtualFolder" where
  "Folder_GetACopy kc v =
     (case Filesystem_GetACopy kc (bf_FsConfig v) of
        (f, fs) \<Rightarrow>
          (v\<lparr>bf_FsConfig := f\<rparr>,
           \<lparr>bf_ID = bf_ID v, bf_Name = bf_Name v, bf_MappedPath = bf_MappedPath v,
            bf_Description = bf_Description v, bf_UsedQuotaSize = bf_UsedQuotaSize v,
            bf_UsedQuotaFiles = bf_UsedQuotaFiles v, bf_LastQuotaUpdate = bf_LastQuotaUpdate v,
            bf_Users = bf_Users v, bf_FsConfig = fs\<rparr>))"

definition GetUsersAsString :: "BaseVirtualFolder \<Rightarrow> string" where
  "GetUsersAsString v = join_with CHR '','' (bf_Users v)"

definition GetStorageDescrition :: "BaseVirtualFolder \<Rightarrow> string" where
  "GetStorageDescrition v =
     (let p = fc_Provider (bf_FsConfig v) in
      if p = LocalFilesystemProvider then ''Local: '' @ bf_MappedPath v
      else if p = S3FilesystemProvider then ''S3: '' @ s3_Bucket (fc_S3Config (bf_FsConfig v))
      else if p = GCSFilesystemProvider then ''GCS: '' @ gcs_Bucket (fc_GCSConfig (bf_FsConfig v))
      else if p = AzureBlobFilesystemProvider then ''AzBlob: '' @ az_Container (fc_AzBlobConfig (bf_FsConfig v))
      else if p = CryptedFilesystemProvider then ''Encrypted: '' @ bf_MappedPath v
      else if p = SFTPFilesystemProvider then ''SFTP: '' @ sf_Endpoint (fc_SFTPConfig (bf_FsConfig v))
      else '''')"

definition IsLocalOrLocalCrypted :: "BaseVirtualFolder \<Rightarrow> bool" where
  "IsLocalOrLocalCrypted v =
     (fc_Provider (bf_FsConfig v) = LocalFilesystemProvider \<or> fc_Provider (bf_FsConfig v) = CryptedFilesystemProvider)"

text \<open>
  Hiding the secrets of the configured provider; the same switch serves folders
  and users. \<open>None\<close>: a secret of that provider is nil.
\<close>

definition hide_Filesystem :: "Filesystem \<Rightarrow> Filesystem option" where
  "hide_Filesystem f =
     (if fc_Provider f = S3FilesystemProvider then
        map_option (\<lambda>s. f\<lparr>fc_S3Config := (fc_S3Config f)\<lparr>s3_AccessSecret := Some (Secret_Hide s)\<rparr>\<rparr>)
          (s3_AccessSecret (fc_S3Config f))
      else if fc_Provider f = GCSFilesystemProvider then
        map_option (\<lambda>s. f\<lparr>fc_GCSConfig := (fc_GCSConfig f)\<lparr>gcs_Credentials := Some (Secret_Hide s)\<rparr>\<rparr>)
          (gcs_Credentials (fc_GCSConfig f))
      else if fc_Provider f = AzureBlobFilesystemProvider then
        map_option (\<lambda>s. f\<lparr>fc_AzBlobConfig := (fc_AzBlobConfig f)\<lparr>az_AccountKey := Some (Secret_Hide s)\<rparr>\<rparr>)
          (az_AccountKey (fc_AzBlobConfig f))
      else if fc_Provider f = CryptedFilesystemProvider then
        map_option (\<lambda>s. f\<lparr>fc_CryptConfig := (fc_CryptConfig f)\<lparr>cr_Passphrase := Some (Secret_Hide s)\<rparr>\<rparr>)
          (cr_Passphrase (fc_CryptConfig f))
      else if fc_Provider f = SFTPFilesystemProvider then
        (case (sf_Password (fc_SFTPConfig f), sf_PrivateKey (fc_SFTPConfig f)) of
           (Some pw, Some pk) \<Rightarrow>
             Some (f\<lparr>fc_SFTPConfig := (fc_SFTPConfig f)
               \<lparr>sf_Password := Some (Secret_Hide pw), sf_PrivateKey := Some (Secret_Hide pk)\<rparr>\<rparr>)
         | _ \<Rightarrow> None)
      else Some f)"

definition Folder_hideConfidentialData :: "BaseVirtualFolder \<Rightarrow> BaseVirtualFolder option" where
  "Folder_hideConfidentialData v = map_option (\<lambda>f. v\<lparr>bf_FsConfig := f\<rparr>) (hide_Filesystem (bf_FsConfig v))"

definition Folder_PrepareForRendering :: "kms_Configuration \<Rightarrow> BaseVirtualFolder \<Rightarrow> BaseVirtualFolder option" where
  "Folder_PrepareForRendering kc v =
     map_option (\<lambda>v. v\<lparr>bf_FsConfig := SetEmptySecretsIfNil kc (bf_FsConfig v)\<rparr>) (Folder_hideConfidentialData v)"

text \<open>The secrets of the configured provider, in the order the source visits them.\<close>

definition provider_secrets :: "Filesystem \<Rightarrow> Secret option list" where
  "provider_secrets f =
     (if fc_Provider f = S3FilesystemProvider then [s3_AccessSecret (fc_S3Config f)]
      else if fc_Provider f = GCSFilesystemProvider then [gcs_Credentials (fc_GCSConfig f)]
      else if fc_Provider f = AzureBlobFilesystemProvider then [az_AccountKey (fc_AzBlobConfig f)]
      else if fc_Provider f = CryptedFilesystemProvider then [cr_Passphrase (fc_CryptConfig f)]
      else if fc_Provider f = SFTPFilesystemProvider
      then [sf_Password (fc_SFTPConfig f), sf_PrivateKey (fc_SFTPConfig f)]
      else [])"

fun any_redacted :: "Secret option list \<Rightarrow> bool option" where
  "any_redacted [] = Some False"
| "any_redacted (None # xs) = None"
| "any_redacted (Some s # xs) = (if Secret_IsRedacted s then Some True else any_redacted xs)"

definition HasRedactedSecret :: "BaseVirtualFolder \<Rightarrow> bool option" where
  "HasRedactedSecret v = any_redacted (provider_secrets (bf_FsConfig v))"

definition IsIncludedInUserQuota :: "VirtualFolder \<Rightarrow> bool" where
  "IsIncludedInUserQuota v = (vf_QuotaFiles v = -1 \<and> vf_QuotaSize v = -1)"

definition Folder_HasNoQuotaRestrictions :: "VirtualFolder \<Rightarrow> bool \<Rightarrow> bool" where
  "Folder_HasNoQuotaRestrictions v checkFiles =
     (if vf_QuotaSize v = 0 \<and> (\<not> checkFiles \<or> vf_QuotaFiles v = 0) then True else False)"

definition VirtualFolder_GetACopy :: "kms_Configuration \<Rightarrow> VirtualFolder \<Rightarrow> VirtualFolder \<times> VirtualFolder" where
  "VirtualFolder_GetACopy kc v =
     (case Folder_GetACopy kc (vf_Base v) of
        (b, c) \<Rightarrow> (v\<lparr>vf_Base := b\<rparr>,
                   \<lparr>vf_Base = c, vf_VirtualPath = vf_VirtualPath v, vf_QuotaSize = vf_QuotaSize v,
                    vf_QuotaFiles = vf_QuotaFiles v\<rparr>))"

subsection \<open>Lemmas\<close>

lemma empty_if_nil_Some [simp]: "empty_if_nil kc (Some s) = Some s"
  by (simp add: empty_if_nil_def)

lemma empty_if_nil_not_None [simp]: "empty_if_nil kc x \<noteq> None"
  by (simp add: empty_if_nil_def split: option.splits)

lemma empty_if_nil_idem [simp]: "empty_if_nil kc (empty_if_nil kc x) = empty_if_nil kc x"
  by (simp add: empty_if_nil_def split: option.splits)

lemma empty_if_nil_clone [simp]:
  "empty_if_nil kc (map_option (Secret_Clone kc) (empty_if_nil kc x)) =
     map_option (Secret_Clone kc) (empty_if_nil kc x)"
  by (simp add: empty_if_nil_def split: option.splits)

lemma ptr_IsEqual_iff:
  "ptr_IsEqual x y \<longleftrightarrow> (\<exists>s t. x = Some s \<and> y = Some t \<and> pr_base s = pr_base t)"
  by (auto simp: ptr_IsEqual_def Secret_IsEqual_iff split: option.splits)

lemma ptr_IsEqual_clone [simp]:
  "ptr_IsEqual (empty_if_nil kc x) (map_option (Secret_Clone kc) (empty_if_nil kc x))"
  by (cases x) (simp_all add: ptr_IsEqual_iff empty_if_nil_def)

lemma nil_if_empty_empty_if_nil [simp]: "nil_if_empty (empty_if_nil kc x) = nil_if_empty x"
  by (simp add: nil_if_empty_def empty_if_nil_def split: option.splits)

lemma SetEmptySecretsIfNil_idem [simp]:
  "SetEmptySecretsIfNil kc (SetEmptySecretsIfNil kc f) = SetEmptySecretsIfNil kc f"
  by (simp add: SetEmptySecretsIfNil_def)

lemma SetNilSecretsIfEmpty_SetEmpty [simp]:
  "SetNilSecretsIfEmpty (SetEmptySecretsIfNil kc f) = SetNilSecretsIfEmpty f"
  by (simp add: SetNilSecretsIfEmpty_def SetEmptySecretsIfNil_def)

lemma provider_secrets_SetEmpty [simp]:
  "provider_secrets (SetEmptySecretsIfNil kc f) = map (empty_if_nil kc) (provider_secrets f)"
  by (simp add: provider_secrets_def SetEmptySecretsIfNil_def)

lemma provider_secrets_hide:
  assumes "hide_Filesystem f = Some g"
  shows "provider_secrets g = map (map_option Secret_Hide) (provider_secrets f)"
    and "None \<notin> set (provider_secrets f)"
  using assms by (auto simp: hide_Filesystem_def provider_secrets_def split: if_splits option.splits)

lemma hide_Filesystem_None_iff: "hide_Filesystem f = None \<longleftrightarrow> None \<in> set (provider_secrets f)"
  by (auto simp: hide_Filesystem_def provider_secrets_def split: option.splits)

lemma pr_base_Hide [simp]:
  "pr_base (Secret_Hide s) = (pr_base s)\<lparr>bs_Key := '''', bs_AdditionalData := ''''\<rparr>"
  by (simp add: Secret_Hide_def)

lemma any_redacted_iff:
  "None \<notin> set xs \<Longrightarrow> any_redacted xs = Some (\<exists>s. Some s \<in> set xs \<and> Secret_IsRedacted s)"
  by (induction xs rule: any_redacted.induct) auto

lemma encrypt_plain_not_plain:
  assumes "encrypt_plain C rnd ad s = (None, t)"
  shows "\<not> Secret_IsPlain t"
proof (cases "Secret_IsPlain s")
  case True
  then have "provider_Encrypt C (fst rnd) (snd rnd) (Secret_SetAdditionalData ad s) = Inr t"
    using assms by (auto simp: encrypt_plain_def Secret_Encrypt_def Let_def split: sum.splits)
  then show ?thesis
    by (cases s) (auto simp: map_sum_Inr_iff Secret_SetAdditionalData_def Secret_IsPlain_def cloud_defs
        cloud_Encrypt_def local_Encrypt_def builtin_Encrypt_def split: if_splits option.splits)
qed (use assms in \<open>simp add: encrypt_plain_def\<close>)

text \<open>What the comments on the configurations ask of a key prefix.\<close>

definition key_prefix_ok :: "string \<Rightarrow> bool" where
  "key_prefix_ok k \<longleftrightarrow> k = '''' \<or> (\<not> strings_HasPrefix k ''/'' \<and> strings_HasSuffix k ''/'')"

lemma clean_key_prefix_wf:
  assumes "clean_key_prefix kp = Some k"
  shows "key_prefix_ok k"
proof (cases "kp = ''''")
  case False
  have slash: "strings_HasPrefix q ''/'' \<longleftrightarrow> path_IsAbs q" for q
    by (cases q) (auto simp: strings_HasPrefix_def path_IsAbs_def)
  have "\<not> path_IsAbs kp" "k = (if \<not> strings_HasSuffix (path_Clean kp) ''/'' then path_Clean kp @ ''/'' else path_Clean kp)"
    using assms False by (auto simp: clean_key_prefix_def Let_def slash split: if_splits)
  moreover have "\<not> path_IsAbs (path_Clean kp)" using \<open>\<not> path_IsAbs kp\<close> by (rule path_Clean_rel)
  moreover have "path_Clean kp \<noteq> []" by (auto simp: path_Clean_def Let_def)
  ultimately show ?thesis
    by (cases "path_Clean kp") (auto simp: key_prefix_ok_def slash strings_HasSuffix_def suffix_def path_IsAbs_def)
qed (use assms in \<open>simp add: clean_key_prefix_def key_prefix_ok_def\<close>)

lemma S3_Validate_key_prefix:
  "S3_Validate kc c = (None, c') \<Longrightarrow> clean_key_prefix (s3_KeyPrefix c) = Some (s3_KeyPrefix c')"
  by (auto simp: S3_Validate_def Let_def split: if_splits option.splits)

lemma GCS_Validate_key_prefix:
  "GCS_Validate kc f c = (None, c') \<Longrightarrow> clean_key_prefix (gcs_KeyPrefix c) = Some (gcs_KeyPrefix c')"
  by (auto simp: GCS_Validate_def Let_def split: if_splits option.splits)

lemma AzBlob_Validate_key_prefix:
  "AzBlob_Validate kc up (c\<lparr>az_SASURL := ''''\<rparr>) = (None, c') \<Longrightarrow>
     clean_key_prefix (az_KeyPrefix c) = Some (az_KeyPrefix c')"
  by (auto simp: AzBlob_Validate_def Let_def split: if_splits option.splits)

lemma Filesystem_copy_equal:
  "fst (Filesystem_IsEqual kc (SetEmptySecretsIfNil kc f) (Filesystem_copy_of kc (SetEmptySecretsIfNil kc f)))"
  by (simp add: Filesystem_IsEqual_def S3_isEqual_def GCS_isEqual_def AzBlob_isEqual_def Crypt_isEqual_def
      SFTP_isEqual_def setEmptyCredentialsIfNil_def Filesystem_copy_of_def SetEmptySecretsIfNil_def Let_def
      list_ex_iff)

subsection \<open>Properties\<close>

text \<open>
  The key prefix of a cloud storage configuration that validated is empty,
  or does not start with a slash and ends with one, so object names are always
  prefixed by whole directories.
\<close>
theorem Validate_KeyPrefix:
  "(case S3_Validate kc s3 of (None, c) \<Rightarrow> key_prefix_ok (s3_KeyPrefix c) | (Some e, c) \<Rightarrow> True)
   \<and> (case GCS_Validate kc credFile gcs of (None, c) \<Rightarrow> key_prefix_ok (gcs_KeyPrefix c) | (Some e, c) \<Rightarrow> True)
   \<and> (case AzBlob_Validate kc url_Parse (az\<lparr>az_SASURL := []\<rparr>) of
        (None, c) \<Rightarrow> key_prefix_ok (az_KeyPrefix c) | (Some e, c) \<Rightarrow> True)"
  by (auto dest!: S3_Validate_key_prefix GCS_Validate_key_prefix AzBlob_Validate_key_prefix
      intro: clean_key_prefix_wf split: prod.splits option.splits)

text \<open>
  A copy of a filesystem configuration compares equal to the original,
  whatever the provider and whichever secrets were nil, and both end up with a
  secret behind every pointer.
\<close>
theorem Filesystem_GetACopy_equal:
  "case Filesystem_GetACopy kc f of (f', g) \<Rightarrow>
     fst (Filesystem_IsEqual kc f' g) \<and> f' = SetEmptySecretsIfNil kc f \<and>
     None \<notin> set (provider_secrets g) \<and> map (map_option pr_base) (provider_secrets g) =
       map (map_option pr_base) (provider_secrets f')"
proof -
  let ?g = "Filesystem_copy_of kc (SetEmptySecretsIfNil kc f)"
  have "fst (Filesystem_IsEqual kc (SetEmptySecretsIfNil kc f) ?g)" by (rule Filesystem_copy_equal)
  moreover have "provider_secrets ?g = map (map_option (Secret_Clone kc)) (provider_secrets (SetEmptySecretsIfNil kc f))"
    by (simp add: provider_secrets_def Filesystem_copy_of_def SetEmptySecretsIfNil_def Let_def)
  ultimately show ?thesis
    by (auto simp: Filesystem_GetACopy_def Let_def option.map_comp comp_def)
qed

text \<open>
  Rendering a folder fails exactly when a secret of its storage provider is
  nil; otherwise none of the secrets of the provider carries a key or additional
  data any more, and payload and status are those of the folder.
\<close>
theorem Folder_PrepareForRendering_hides:
  "case Folder_PrepareForRendering kc v of
     None \<Rightarrow> None \<in> set (provider_secrets (bf_FsConfig v))
   | Some w \<Rightarrow>
       provider_secrets (bf_FsConfig w) = map (map_option Secret_Hide) (provider_secrets (bf_FsConfig v)) \<and>
       list_all (\<lambda>x. case x of None \<Rightarrow> False
                     | Some s \<Rightarrow> bs_Key (pr_base s) = '''' \<and> bs_AdditionalData (pr_base s) = '''')
         (provider_secrets (bf_FsConfig w))"
proof (cases "hide_Filesystem (bf_FsConfig v)")
  case (Some g)
  let ?xs = "provider_secrets (bf_FsConfig v)"
  have *: "\<exists>s. x = Some s" if "x \<in> set ?xs" for x
    using that provider_secrets_hide(2) [OF Some] by (cases x rule: option.exhaust) auto
  then have "map (empty_if_nil kc \<circ> map_option Secret_Hide) ?xs = map (map_option Secret_Hide) ?xs"
    by (intro map_cong) (use * in force)+
  then have eq: "provider_secrets (SetEmptySecretsIfNil kc g) = map (map_option Secret_Hide) ?xs"
    by (simp only: provider_secrets_SetEmpty provider_secrets_hide(1) [OF Some] map_map)
  have "list_all (\<lambda>x. case x of None \<Rightarrow> False
        | Some s \<Rightarrow> bs_Key (pr_base s) = '''' \<and> bs_AdditionalData (pr_base s) = '''')
      (map (map_option Secret_Hide) ?xs)"
    unfolding list_all_iff using * by force
  moreover have "Folder_PrepareForRendering kc v = Some (v\<lparr>bf_FsConfig := SetEmptySecretsIfNil kc g\<rparr>)"
    using Some by (simp add: Folder_PrepareForRendering_def Folder_hideConfidentialData_def)
  ultimately show ?thesis by (simp add: eq del: provider_secrets_SetEmpty)
next
  case None
  moreover have "None \<in> set (provider_secrets (bf_FsConfig v))"
    using None by (simp only: hide_Filesystem_None_iff)
  ultimately show ?thesis by (simp add: Folder_PrepareForRendering_def Folder_hideConfidentialData_def)
qed



end
