(* ===== verification/GoNet.thy ===== *)
theory GoNet
  imports GoLib "HOL-Library.Word"
begin

text \<open>
  The address parser of Go's \<^verbatim>\<open>net\<close> package, as far as the source uses it:
  \<^verbatim>\<open>ParseIP\<close>, \<^verbatim>\<open>ParseCIDR\<close> and \<^verbatim>\<open>IPNet.Contains\<close>. An address is its sixteen
  bytes, an IPv4 address being mapped into them; a network is a pair of a
  network number and a mask of equal length. \<open>None\<close> is a nil address or an error.
\<close>

unbundle bit_operations_syntax

type_synonym byte = "8 word"
type_synonym IP = "byte list"
type_synonym IPNet = "IP \<times> IP"

definition big :: nat where "big = 16777215"

definition dec_digit :: "char \<Rightarrow> nat option" where
  "dec_digit c = (let n = (of_char c :: nat) in if 48 \<le> n \<and> n \<le> 57 then Some (n - 48) else None)"

definition hex_digit :: "char \<Rightarrow> nat option" where
  "hex_digit c =
     (let n = (of_char c :: nat) in
      if 48 \<le> n \<and> n \<le> 57 then Some (n - 48)
      else if 97 \<le> n \<and> n \<le> 102 then Some (n - 97 + 10)
      else if 65 \<le> n \<and> n \<le> 70 then Some (n - 65 + 10)
      else None)"

text \<open>\<^verbatim>\<open>dtoi\<close> and \<^verbatim>\<open>xtoi\<close>: the value and the rest of the string after a number.\<close>

fun number :: "(char \<Rightarrow> nat option) \<Rightarrow> nat \<Rightarrow> nat \<Rightarrow> string \<Rightarrow> (nat \<times> string) option" where
  "number digit base n [] = Some (n, [])"
| "number digit base n (c # cs) =
     (case digit c of
        None \<Rightarrow> Some (n, c # cs)
      | Some d \<Rightarrow> (let m = n * base + d in if m \<ge> big then None else number digit base m cs))"

definition dtoi :: "string \<Rightarrow> (nat \<times> string) option" where
  "dtoi s = (case s of [] \<Rightarrow> None
             | c # _ \<Rightarrow> if dec_digit c = None then None else number dec_digit 10 0 s)"

definition xtoi :: "string \<Rightarrow> (nat \<times> string) option" where
  "xtoi s = (case s of [] \<Rightarrow> None
             | c # _ \<Rightarrow> if hex_digit c = None then None else number hex_digit 16 0 s)"

text \<open>\<open>k\<close> fields are left; only the first one has no dot before it.\<close>

fun parse_v4_fields :: "nat \<Rightarrow> bool \<Rightarrow> string \<Rightarrow> byte list option" where
  "parse_v4_fields 0 first s = (if s = [] then Some [] else None)"
| "parse_v4_fields (Suc k) first s =
     (if s = [] then None
      else if \<not> first \<and> hd s \<noteq> CHR ''.'' then None
      else
        (case dtoi (if first then s else tl s) of
           None \<Rightarrow> None
         | Some (n, rest) \<Rightarrow>
             if n > 255 then None else map_option ((#) (of_nat n)) (parse_v4_fields k False rest)))"

definition v4_prefix :: "byte list" where
  "v4_prefix = replicate 10 0 @ [0xFF, 0xFF]"

definition parseIPv4 :: "string \<Rightarrow> IP option" where
  "parseIPv4 s = map_option ((@) v4_prefix) (parse_v4_fields 4 True s)"

text \<open>
  The loop of \<^verbatim>\<open>parseIPv6\<close>: the bytes so far, the position of the ellipsis and
  the rest of the string. It returns the bytes and the ellipsis when it stopped
  with the whole string used. At most eight groups fit, one per iteration.
\<close>

fun parse_v6_groups :: "nat \<Rightarrow> byte list \<Rightarrow> nat option \<Rightarrow> string \<Rightarrow> (byte list \<times> nat option) option" where
  "parse_v6_groups 0 ip ell s = (if s = [] then Some (ip, ell) else None)"
| "parse_v6_groups (Suc k) ip ell s =
     (if length ip \<ge> 16 then (if s = [] then Some (ip, ell) else None)
      else
        (case xtoi s of
           None \<Rightarrow> None
         | Some (n, rest) \<Rightarrow>
             if n > 65535 then None
             else if rest \<noteq> [] \<and> hd rest = CHR ''.'' then
               (if ell = None \<and> length ip \<noteq> 12 then None
                else if length ip + 4 > 16 then None
                else map_option (\<lambda>p. (ip @ p, ell)) (parse_v4_fields 4 True s))
             else
               (let ip' = ip @ [of_nat (n div 256), of_nat (n mod 256)] in
                if rest = [] then Some (ip', ell)
                else if hd rest \<noteq> CHR '':'' \<or> length rest = 1 then None
                else
                  (let r = tl rest in
                   if hd r = CHR '':'' then
                     (if ell \<noteq> None then None
                      else if tl r = [] then Some (ip', Some (length ip'))
                      else parse_v6_groups k ip' (Some (length ip')) (tl r))
                   else parse_v6_groups k ip' ell r))))"

definition parseIPv6 :: "string \<Rightarrow> IP option" where
  "parseIPv6 s =
     (let leading = (length s \<ge> 2 \<and> hd s = CHR '':'' \<and> s ! 1 = CHR '':'') in
      if leading \<and> length s = 2 then Some (replicate 16 0)
      else
        (case parse_v6_groups 8 [] (if leading then Some 0 else None) (if leading then drop 2 s else s) of
           None \<Rightarrow> None
         | Some (ip, ell) \<Rightarrow>
             if length ip < 16 then
               (case ell of
                  None \<Rightarrow> None
                | Some e \<Rightarrow> Some (take e ip @ replicate (16 - length ip) 0 @ drop e ip))
             else if ell \<noteq> None then None
             else Some ip))"

fun ParseIP_scan :: "string \<Rightarrow> string \<Rightarrow> IP option" where
  "ParseIP_scan s [] = None"
| "ParseIP_scan s (c # cs) =
     (if c = CHR ''.'' then parseIPv4 s else if c = CHR '':'' then parseIPv6 s else ParseIP_scan s cs)"

definition net_ParseIP :: "string \<Rightarrow> IP option" where
  "net_ParseIP s = ParseIP_scan s s"

definition To4 :: "IP \<Rightarrow> IP option" where
  "To4 ip = (if length ip = 4 then Some ip
             else if length ip = 16 \<and> take 12 ip = v4_prefix then Some (drop 12 ip)
             else None)"

text \<open>The mask with \<open>ones\<close> leading ones in \<open>len\<close> bytes.\<close>

fun CIDRMask :: "nat \<Rightarrow> nat \<Rightarrow> byte list" where
  "CIDRMask ones 0 = []"
| "CIDRMask ones (Suc len) =
     (if ones \<ge> 8 then 0xFF # CIDRMask (ones - 8) len
      else NOT (drop_bit ones 0xFF) # CIDRMask 0 len)"

definition IP_Mask :: "IP \<Rightarrow> byte list \<Rightarrow> IP" where
  "IP_Mask ip m =
     (let ip' = (if length m = 4 \<and> length ip = 16 \<and> take 12 ip = v4_prefix then drop 12 ip else ip)
      in map2 (AND) ip' m)"

definition net_ParseCIDR :: "string \<Rightarrow> IPNet option" where
  "net_ParseCIDR s =
     (if CHR ''/'' \<notin> set s then None
      else
        (let addr = takeWhile (\<lambda>c. c \<noteq> CHR ''/'') s; mask = drop (length addr + 1) s;
             v4 = parseIPv4 addr; iplen = (if v4 \<noteq> None then 4 else 16)
         in case ((if v4 \<noteq> None then v4 else parseIPv6 addr), dtoi mask) of
              (Some ip, Some (n, rest)) \<Rightarrow>
                if rest \<noteq> [] \<or> n > 8 * iplen then None
                else (let m = CIDRMask n iplen in Some (IP_Mask ip m, m))
            | _ \<Rightarrow> None))"

definition networkNumberAndMask :: "IPNet \<Rightarrow> (IP \<times> IP) option" where
  "networkNumberAndMask n =
     (case n of (ip0, m) \<Rightarrow>
        (case (case To4 ip0 of Some x \<Rightarrow> Some x | None \<Rightarrow> if length ip0 = 16 then Some ip0 else None) of
           None \<Rightarrow> None
         | Some ip \<Rightarrow>
             if length m = 4 then (if length ip \<noteq> 4 then None else Some (ip, m))
             else if length m = 16 then Some (ip, if length ip = 4 then drop 12 m else m)
             else None))"

definition IPNet_Contains :: "IPNet \<Rightarrow> IP \<Rightarrow> bool" where
  "IPNet_Contains n ip0 =
     (case networkNumberAndMask n of
        None \<Rightarrow> ip0 = []
      | Some (nn, m) \<Rightarrow>
          (let ip = (case To4 ip0 of Some x \<Rightarrow> x | None \<Rightarrow> ip0)
           in length ip = length nn \<and>
              list_all (\<lambda>i. (nn ! i) AND (m ! i) = (ip ! i) AND (m ! i)) [0..<length ip]))"

text \<open>Evaluation of addresses and networks by the simplifier.\<close>

lemma parse_v4_fields_4: "parse_v4_fields 4 b s = parse_v4_fields (Suc (Suc (Suc (Suc 0)))) b s"
  by (simp add: numeral_eq_Suc)

lemma CIDRMask_4: "CIDRMask n 4 = CIDRMask n (Suc (Suc (Suc (Suc 0))))"
  by (simp add: numeral_eq_Suc)

lemmas net_eval = net_ParseIP_def parseIPv4_def dtoi_def dec_digit_def big_def parse_v4_fields_4
  net_ParseCIDR_def CIDRMask_4 IP_Mask_def v4_prefix_def IPNet_Contains_def networkNumberAndMask_def To4_def

end
