(* ===== verification/GoMatch.thy ===== *)
theory GoMatch
  imports Encoding
begin

text \<open>
  Go's \<^verbatim>\<open>path.Match\<close> with the parts of \<^verbatim>\<open>unicode/utf8\<close> it needs, on byte strings.
  \<open>None\<close> is \<^verbatim>\<open>ErrBadPattern\<close>.
\<close>

subsection \<open>UTF-8\<close>

definition RuneError :: nat where "RuneError = 65533"

text \<open>How many bytes a first byte announces, and the range of the second one.\<close>

definition rune_shape :: "nat \<Rightarrow> (nat \<times> nat \<times> nat) option" where
  "rune_shape b =
     (if 194 \<le> b \<and> b \<le> 223 then Some (2, 128, 191)
      else if b = 224 then Some (3, 160, 191)
      else if b = 237 then Some (3, 128, 159)
      else if 225 \<le> b \<and> b \<le> 239 then Some (3, 128, 191)
      else if b = 240 then Some (4, 144, 191)
      else if 241 \<le> b \<and> b \<le> 243 then Some (4, 128, 191)
      else if b = 244 then Some (4, 128, 143)
      else None)"

definition DecodeRuneInString :: "string \<Rightarrow> nat \<times> nat" where
  "DecodeRuneInString s =
     (case s of
        [] \<Rightarrow> (RuneError, 0)
      | c # _ \<Rightarrow>
          (let b = byte_nat c in
           if b < 128 then (b, 1)
           else
             (case rune_shape b of
                None \<Rightarrow> (RuneError, 1)
              | Some (n, lo, hi) \<Rightarrow>
                  (let bs = map byte_nat (take (n - 1) (drop 1 s)) in
                   if length bs < n - 1 then (RuneError, 1)
                   else if hd bs < lo \<or> hi < hd bs then (RuneError, 1)
                   else if list_ex (\<lambda>x. x < 128 \<or> 191 < x) (tl bs) then (RuneError, 1)
                   else (foldl (\<lambda>r x. r * 64 + (x - 128))
                           (if n = 2 then b - 192 else if n = 3 then b - 224 else b - 240) bs, n)))))"

lemma rune_shape_size: "rune_shape b = Some (n, r) \<Longrightarrow> 2 \<le> n"
  by (simp add: rune_shape_def split: if_splits)

lemma DecodeRune_size: "s \<noteq> [] \<Longrightarrow> 1 \<le> snd (DecodeRuneInString s)"
  using rune_shape_size [of "byte_nat (hd s)"]
  by (cases s) (auto simp: DecodeRuneInString_def Let_def split: option.splits prod.splits)

subsection \<open>Chunks\<close>

fun drop_stars :: "string \<Rightarrow> string" where
  "drop_stars [] = []"
| "drop_stars (c # cs) = (if c = CHR ''*'' then drop_stars cs else c # cs)"

text \<open>The part of a pattern before the next star outside brackets.\<close>

fun scan_chunk :: "bool \<Rightarrow> string \<Rightarrow> string \<times> string" where
  "scan_chunk inrange [] = ([], [])"
| "scan_chunk inrange (c # cs) =
     (if c = CHR 0x5C then
        (case cs of
           [] \<Rightarrow> ([c], [])
         | d # ds \<Rightarrow> (case scan_chunk inrange ds of (a, b) \<Rightarrow> (c # d # a, b)))
      else if c = CHR ''*'' \<and> \<not> inrange then ([], c # cs)
      else
        (let r = (if c = CHR ''['' then True else if c = CHR '']'' then False else inrange)
         in case scan_chunk r cs of (a, b) \<Rightarrow> (c # a, b)))"

definition scanChunk :: "string \<Rightarrow> bool \<times> string \<times> string" where
  "scanChunk pattern =
     (let p = drop_stars pattern in (p \<noteq> pattern, scan_chunk False p))"

definition getEsc :: "string \<Rightarrow> (nat \<times> string) option" where
  "getEsc chunk =
     (if chunk = [] \<or> hd chunk = CHR ''-'' \<or> hd chunk = CHR '']'' then None
      else
        (let c = (if hd chunk = CHR 0x5C then tl chunk else chunk) in
         if c = [] then None
         else
           (case DecodeRuneInString c of
              (r, n) \<Rightarrow>
                if r = RuneError \<and> n = 1 then None
                else if drop n c = [] then None
                else Some (r, drop n c))))"

lemma getEsc_shorter: "getEsc chunk = Some (r, rest) \<Longrightarrow> length rest < length chunk"
  using DecodeRune_size [of chunk] DecodeRune_size [of "tl chunk"]
  by (cases chunk) (auto simp: getEsc_def Let_def split: if_splits prod.splits)

text \<open>The ranges of a character class up to its closing bracket; \<open>r\<close> is the rune to match.\<close>

function class_ranges :: "nat \<Rightarrow> nat \<Rightarrow> bool \<Rightarrow> string \<Rightarrow> (bool \<times> string) option" where
  "class_ranges r nrange m chunk =
     (if chunk \<noteq> [] \<and> hd chunk = CHR '']'' \<and> nrange > 0 then Some (m, tl chunk)
      else
        (case getEsc chunk of
           None \<Rightarrow> None
         | Some (lo, rest) \<Rightarrow>
             if hd rest = CHR ''-'' then
               (case getEsc (tl rest) of
                  None \<Rightarrow> None
                | Some (hi, rest') \<Rightarrow> class_ranges r (nrange + 1) (m \<or> (lo \<le> r \<and> r \<le> hi)) rest')
             else class_ranges r (nrange + 1) (m \<or> (lo \<le> r \<and> r \<le> lo)) rest))"
  by pat_completeness auto
termination
proof (relation "measure (\<lambda>(r, n, m, chunk). length chunk)")
  fix r nrange :: nat and m chunk rest hi rest' and x y :: "nat \<times> string" and lo
  assume "getEsc chunk = Some x" "(lo, rest) = x" "getEsc (tl rest) = Some y" "(hi, rest') = y"
  then have "length rest < length chunk" "length rest' < length (tl rest)"
    by (auto dest: getEsc_shorter)
  then show "((r, nrange + 1, m \<or> lo \<le> r \<and> r \<le> hi, rest'), r, nrange, m, chunk)
      \<in> measure (\<lambda>(r, n, m, chunk). length chunk)" by simp
qed (auto dest: getEsc_shorter)

declare class_ranges.simps [simp del]

lemma class_ranges_shorter:
  "class_ranges r n m chunk = Some (m', rest) \<Longrightarrow> length rest < length chunk"
proof (induction r n m chunk rule: class_ranges.induct)
  case (1 r n m chunk)
  show ?case
  proof (cases "chunk \<noteq> [] \<and> hd chunk = CHR '']'' \<and> n > 0")
    case True
    then have "rest = tl chunk" using "1.prems" by (simp add: class_ranges.simps [of r n m chunk])
    then show ?thesis using True by simp
  next
    case False
    then obtain lo q where q: "getEsc chunk = Some (lo, q)"
      using "1.prems" by (auto simp: class_ranges.simps [of r n m chunk] split: option.splits if_splits)
    have l: "length q < length chunk" using q by (rule getEsc_shorter)
    show ?thesis
    proof (cases "hd q = CHR ''-''")
      case True
      then obtain hi q' where q': "getEsc (tl q) = Some (hi, q')"
        and r: "class_ranges r (n + 1) (m \<or> (lo \<le> r \<and> r \<le> hi)) q' = Some (m', rest)"
        using "1.prems" False q by (auto simp: class_ranges.simps [of r n m chunk] split: option.splits)
      have "length rest < length q'" using "1.IH"(1) [OF False q refl True q' refl r] .
      with getEsc_shorter [OF q'] l show ?thesis by simp
    next
      case F: False
      then have "class_ranges r (n + 1) (m \<or> (lo \<le> r \<and> r \<le> lo)) q = Some (m', rest)"
        using "1.prems" False q by (simp add: class_ranges.simps [of r n m chunk])
      then have "length rest < length q" using "1.IH"(2) [OF False q refl F] by blast
      with l show ?thesis by simp
    qed
  qed
qed

text \<open>
  \<^verbatim>\<open>matchChunk\<close>: the rest of the name after the chunk, or no match. After a
  failure it reads on only to check the syntax.
\<close>

function match_chunk :: "bool \<Rightarrow> string \<Rightarrow> string \<Rightarrow> string option option" where
  "match_chunk failed0 chunk s =
     (if chunk = [] then Some (if failed0 then None else Some s)
      else
        (let failed = (failed0 \<or> s = []); c = hd chunk in
         if c = CHR ''['' then
           (let rn = (if failed then (0, 0) else DecodeRuneInString s);
                body = tl chunk;
                negated = (body \<noteq> [] \<and> hd body = CHR ''^'');
                body' = (if negated then tl body else body)
            in case class_ranges (fst rn) 0 False body' of
                 None \<Rightarrow> None
               | Some (m, rest) \<Rightarrow> match_chunk (failed \<or> m = negated) rest (drop (snd rn) s))
         else if c = CHR ''?'' then
           match_chunk (failed \<or> hd s = CHR ''/'') (tl chunk)
             (if failed then s else drop (snd (DecodeRuneInString s)) s)
         else if c = CHR 0x5C then
           (if tl chunk = [] then None
            else match_chunk (failed \<or> hd (tl chunk) \<noteq> hd s) (tl (tl chunk)) (if failed then s else tl s))
         else match_chunk (failed \<or> c \<noteq> hd s) (tl chunk) (if failed then s else tl s)))"
  by pat_completeness auto
termination
proof (relation "measure (\<lambda>(f, chunk, s). length chunk)")
  fix failed0 failed m :: bool and chunk s rest body body' :: string and c negated
    and x :: "bool \<times> string" and rn :: "nat \<times> nat"
  assume *: "chunk \<noteq> []" "body = tl chunk" "body' = (if negated then tl body else body)"
    and "class_ranges (fst rn) 0 False body' = Some x" "(m, rest) = x"
  then have "length rest < length body'" by (auto dest: class_ranges_shorter)
  also have "\<dots> \<le> length chunk" using * by auto
  finally show "((failed \<or> m = negated, rest, drop (snd rn) s), failed0, chunk, s)
      \<in> measure (\<lambda>(f, chunk, s). length chunk)" by simp
qed (auto simp: Let_def)

declare match_chunk.simps [simp del]

definition matchChunk :: "string \<Rightarrow> string \<Rightarrow> string option option" where
  "matchChunk chunk s = match_chunk False chunk s"

subsection \<open>Match\<close>

lemma drop_stars_length: "length (drop_stars p) \<le> length p"
  by (induction p) auto

lemma scan_chunk_fst_snd: "fst (scan_chunk r p) @ snd (scan_chunk r p) = p"
proof (induction r p rule: scan_chunk.induct)
  case (2 r c cs)
  consider "c = CHR 0x5C" "cs = []" | d ds where "c = CHR 0x5C" "cs = d # ds"
    | "c = CHR ''*''" "\<not> r" | "c \<noteq> CHR 0x5C" "\<not> (c = CHR ''*'' \<and> \<not> r)"
    by (cases cs) auto
  then show ?case
  proof cases
    case (2 d ds)
    then show ?thesis using "2.IH"(1) by (simp add: case_prod_beta)
  next
    case 4
    then show ?thesis using "2.IH"(2) [OF 4 refl] by (simp add: case_prod_beta Let_def)
  qed simp_all
qed simp

lemma scan_chunk_append: "scan_chunk r p = (a, b) \<Longrightarrow> p = a @ b"
  using scan_chunk_fst_snd [of r p] by simp

lemma scanChunk_shorter:
  assumes "scanChunk p = (star, chunk, rest)" and "p \<noteq> []"
  shows "length rest < length p"
proof (cases "drop_stars p = p")
  case True
  then have sc: "scan_chunk False p = (chunk, rest)" using assms by (simp add: scanChunk_def)
  obtain c cs where p: "p = c # cs" using assms(2) by (cases p) auto
  then have "c \<noteq> CHR ''*''" using True drop_stars_length [of cs] by auto
  then have "chunk \<noteq> []" using sc p by (auto split: if_splits list.splits prod.splits simp: Let_def)
  then show ?thesis using scan_chunk_append [OF sc] by auto
next
  case False
  then obtain c cs where p: "p = c # cs" using assms(2) by (cases p) auto
  then have "c = CHR ''*''" using False by (simp split: if_splits)
  then have "length (drop_stars p) < length p" using drop_stars_length [of cs] p by simp
  moreover have "drop_stars p = chunk @ rest"
    using assms(1) by (intro scan_chunk_append) (auto simp: scanChunk_def Let_def)
  ultimately show ?thesis by simp
qed

text \<open>Skip bytes of the name, none of them a slash, until the chunk matches.\<close>

fun skip_match :: "string \<Rightarrow> bool \<Rightarrow> string \<Rightarrow> string option option" where
  "skip_match chunk is_last [] = Some None"
| "skip_match chunk is_last (c # cs) =
     (if c = CHR ''/'' then Some None
      else
        (case matchChunk chunk cs of
           None \<Rightarrow> None
         | Some (Some t) \<Rightarrow> if is_last \<and> t \<noteq> [] then skip_match chunk is_last cs else Some (Some t)
         | Some None \<Rightarrow> skip_match chunk is_last cs))"

text \<open>The rest of the pattern is only checked.\<close>

function check_rest :: "string \<Rightarrow> bool option" where
  "check_rest pattern =
     (if pattern = [] then Some False
      else
        (case scanChunk pattern of
           (star, chunk, rest) \<Rightarrow> if matchChunk chunk [] = None then None else check_rest rest))"
  by pat_completeness auto
termination
  by (relation "measure length") (auto dest!: scanChunk_shorter [OF sym])

function path_Match :: "string \<Rightarrow> string \<Rightarrow> bool option" where
  "path_Match pattern name =
     (if pattern = [] then Some (name = [])
      else
        (case scanChunk pattern of
           (star, chunk, rest) \<Rightarrow>
             if star \<and> chunk = [] then Some (CHR ''/'' \<notin> set name)
             else
               (case matchChunk chunk name of
                  None \<Rightarrow> None
                | Some r \<Rightarrow>
                    (case r of
                       Some t \<Rightarrow>
                         if t = [] \<or> rest \<noteq> [] then path_Match rest t
                         else if star then
                           (case skip_match chunk (rest = []) name of
                              None \<Rightarrow> None
                            | Some (Some t') \<Rightarrow> path_Match rest t'
                            | Some None \<Rightarrow> check_rest rest)
                         else check_rest rest
                     | None \<Rightarrow>
                         if star then
                           (case skip_match chunk (rest = []) name of
                              None \<Rightarrow> None
                            | Some (Some t') \<Rightarrow> path_Match rest t'
                            | Some None \<Rightarrow> check_rest rest)
                         else check_rest rest))))"
  by pat_completeness auto
termination
  by (relation "measure (\<lambda>(p, n). length p)") (auto dest!: scanChunk_shorter [OF sym])

declare check_rest.simps [simp del] path_Match.simps [simp del]

end
