(* ===== verification/User.thy ===== *)
theory User
  imports Vfs GoNet GoMatch
begin

text \<open>
  \<^verbatim>\<open>dataprovider/user.go\<close>: a user with its permissions, virtual folders and
  filters. The permissions are a Go map from directories to lists. The cache of
  opened filesystems, \<^verbatim>\<open>fsCache\<close>, is state of its own: it is the argument
  \<open>cache\<close> of the operations that use it, and the constructors of the storage
  backends are arguments too. Case folding is that of ASCII names.
\<close>

subsection \<open>Constants\<close>

abbreviation PermAny :: string where "PermAny \<equiv> ''*''"
abbreviation PermListItems :: string where "PermListItems \<equiv> ''list''"
abbreviation PermDownload :: string where "PermDownload \<equiv> ''download''"
abbreviation PermUpload :: string where "PermUpload \<equiv> ''upload''"
abbreviation PermOverwrite :: string where "PermOverwrite \<equiv> ''overwrite''"
abbreviation PermDelete :: string where "PermDelete \<equiv> ''delete''"
abbreviation PermRename :: string where "PermRename \<equiv> ''rename''"
abbreviation PermCreateDirs :: string where "PermCreateDirs \<equiv> ''create_dirs''"
abbreviation PermCreateSymlinks :: string where "PermCreateSymlinks \<equiv> ''create_symlinks''"
abbreviation PermChmod :: string where "PermChmod \<equiv> ''chmod''"
abbreviation PermChown :: string where "PermChown \<equiv> ''chown''"
abbreviation PermChtimes :: string where "PermChtimes \<equiv> ''chtimes''"

abbreviation LoginMethodPassword :: string where "LoginMethodPassword \<equiv> ''password''"
abbreviation SSHLoginMethodPublicKey :: string where "SSHLoginMethodPublicKey \<equiv> ''publickey''"
abbreviation SSHLoginMethodKeyboardInteractive :: string where
  "SSHLoginMethodKeyboardInteractive \<equiv> ''keyboard-interactive''"
abbreviation SSHLoginMethodKeyAndPassword :: string where "SSHLoginMethodKeyAndPassword \<equiv> ''publickey+password''"
abbreviation SSHLoginMethodKeyAndKeyboardInt :: string where
  "SSHLoginMethodKeyAndKeyboardInt \<equiv> ''publickey+keyboard-interactive''"
abbreviation LoginMethodTLSCertificate :: string where "LoginMethodTLSCertificate \<equiv> ''TLSCertificate''"
abbreviation LoginMethodTLSCertificateAndPwd :: string where
  "LoginMethodTLSCertificateAndPwd \<equiv> ''TLSCertificate+password''"

definition ValidPerms :: "string list" where
  "ValidPerms = [PermAny, PermListItems, PermDownload, PermUpload, PermOverwrite, PermRename, PermDelete,
     PermCreateDirs, PermCreateSymlinks, PermChmod, PermChown, PermChtimes]"

definition ValidLoginMethods :: "string list" where
  "ValidLoginMethods = [SSHLoginMethodPublicKey, LoginMethodPassword, SSHLoginMethodKeyboardInteractive,
     SSHLoginMethodKeyAndPassword, SSHLoginMethodKeyAndKeyboardInt, LoginMethodTLSCertificate,
     LoginMethodTLSCertificateAndPwd]"

definition SSHMultiStepsLoginMethods :: "string list" where
  "SSHMultiStepsLoginMethods = [SSHLoginMethodKeyAndPassword, SSHLoginMethodKeyAndKeyboardInt]"

definition hashPwdPrefixes :: "string list" where
  "hashPwdPrefixes = [''$argon2id$'', ''$2a$'', ''$pbkdf2-sha1$'', ''$pbkdf2-sha256$'', ''$pbkdf2-sha512$'',
     ''$pbkdf2-b64salt-sha256$'', ''$1$'', ''$apr1$'', ''$6$'']"

subsection \<open>Data\<close>

record ExtensionsFilter =
  ef_Path :: string
  ef_AllowedExtensions :: "string list"
  ef_DeniedExtensions :: "string list"

record PatternsFilter =
  pf_Path :: string
  pf_AllowedPatterns :: "string list"
  pf_DeniedPatterns :: "string list"

record HooksFilter =
  hf_ExternalAuthDisabled :: bool
  hf_PreLoginDisabled :: bool
  hf_CheckPasswordDisabled :: bool

record UserFilters =
  fl_AllowedIP :: "string list"
  fl_DeniedIP :: "string list"
  fl_DeniedLoginMethods :: "string list"
  fl_DeniedProtocols :: "string list"
  fl_FileExtensions :: "ExtensionsFilter list"
  fl_FilePatterns :: "PatternsFilter list"
  fl_MaxUploadFileSize :: int
  fl_TLSUsername :: string
  fl_Hooks :: HooksFilter
  fl_DisableFsChecks :: bool
  fl_WebClient :: "string list"

record User =
  u_ID :: int
  u_Status :: int
  u_Username :: string
  u_ExpirationDate :: int
  u_Password :: string
  u_PublicKeys :: "string list"
  u_HomeDir :: string
  u_VirtualFolders :: "VirtualFolder list"
  u_UID :: int
  u_GID :: int
  u_MaxSessions :: int
  u_QuotaSize :: int
  u_QuotaFiles :: int
  u_Permissions :: "(string, string list) gomap"
  u_UsedQuotaSize :: int
  u_UsedQuotaFiles :: int
  u_LastQuotaUpdate :: int
  u_UploadBandwidth :: int
  u_DownloadBandwidth :: int
  u_LastLogin :: int
  u_Filters :: UserFilters
  u_FsConfig :: Filesystem
  u_Description :: string
  u_AdditionalInfo :: string

text \<open>The zero value of a user.\<close>

definition zero_UserFilters :: UserFilters where
  "zero_UserFilters =
     \<lparr>fl_AllowedIP = [], fl_DeniedIP = [], fl_DeniedLoginMethods = [], fl_DeniedProtocols = [],
      fl_FileExtensions = [], fl_FilePatterns = [], fl_MaxUploadFileSize = 0, fl_TLSUsername = '''',
      fl_Hooks = \<lparr>hf_ExternalAuthDisabled = False, hf_PreLoginDisabled = False, hf_CheckPasswordDisabled = False\<rparr>,
      fl_DisableFsChecks = False, fl_WebClient = []\<rparr>"

definition zero_User :: User where
  "zero_User =
     \<lparr>u_ID = 0, u_Status = 0, u_Username = '''', u_ExpirationDate = 0, u_Password = '''', u_PublicKeys = [],
      u_HomeDir = '''', u_VirtualFolders = [], u_UID = 0, u_GID = 0, u_MaxSessions = 0, u_QuotaSize = 0,
      u_QuotaFiles = 0, u_Permissions = [], u_UsedQuotaSize = 0, u_UsedQuotaFiles = 0, u_LastQuotaUpdate = 0,
      u_UploadBandwidth = 0, u_DownloadBandwidth = 0, u_LastLogin = 0, u_Filters = zero_UserFilters,
      u_FsConfig = zero_Filesystem, u_Description = '''', u_AdditionalInfo = ''''\<rparr>"

record FileInfo =
  fi_Name :: string
  fi_Size :: int
  fi_ModTime :: int
  fi_IsDir :: bool

definition NewFileInfo :: "string \<Rightarrow> bool \<Rightarrow> int \<Rightarrow> int \<Rightarrow> bool \<Rightarrow> FileInfo" where
  "NewFileInfo name isDirectory sizeInBytes modTime fullName =
     \<lparr>fi_Name = (if \<not> fullName then path_Base name else name), fi_Size = sizeInBytes,
      fi_ModTime = modTime, fi_IsDir = isDirectory\<rparr>"

subsection \<open>Secrets of a user\<close>

definition User_GetHomeDir :: "User \<Rightarrow> string" where
  "User_GetHomeDir u = path_Clean (u_HomeDir u)"

text \<open>
  The comparison of two users' storage. The secrets that it fills in on the way
  do not influence its outcome and are left out.
\<close>

fun folders_match :: "kms_Configuration \<Rightarrow> VirtualFolder \<Rightarrow> VirtualFolder list \<Rightarrow> bool \<Rightarrow> bool option" where
  "folders_match kc f [] found = Some found"
| "folders_match kc f (f1 # fs) found =
     (if vf_VirtualPath f = vf_VirtualPath f1 then
        (if fc_Provider (vf_FsConfig f) = LocalFilesystemProvider \<and> vf_MappedPath f \<noteq> vf_MappedPath f1 then None
         else if \<not> fst (Filesystem_IsEqual kc (vf_FsConfig f) (vf_FsConfig f1)) then None
         else folders_match kc f fs True)
      else folders_match kc f fs found)"

definition isFsEqual :: "kms_Configuration \<Rightarrow> User \<Rightarrow> User \<Rightarrow> bool" where
  "isFsEqual kc u other =
     (if fc_Provider (u_FsConfig u) = LocalFilesystemProvider \<and> User_GetHomeDir u \<noteq> User_GetHomeDir other then False
      else if \<not> fst (Filesystem_IsEqual kc (u_FsConfig u) (u_FsConfig other)) then False
      else if length (u_VirtualFolders u) \<noteq> length (u_VirtualFolders other) then False
      else list_all (\<lambda>f. folders_match kc f (u_VirtualFolders other) False = Some True) (u_VirtualFolders u))"

definition User_hideConfidentialData :: "User \<Rightarrow> User option" where
  "User_hideConfidentialData u =
     map_option (\<lambda>f. u\<lparr>u_Password := '''', u_FsConfig := f\<rparr>) (hide_Filesystem (u_FsConfig u))"

text \<open>The folders are prepared in order; a panic in one of them ends the loop.\<close>

fun map_panic :: "('a \<Rightarrow> 'b option) \<Rightarrow> 'a list \<Rightarrow> 'b list option" where
  "map_panic f [] = Some []"
| "map_panic f (x # xs) =
     (case f x of None \<Rightarrow> None | Some y \<Rightarrow> map_option ((#) y) (map_panic f xs))"

definition User_PrepareForRendering :: "kms_Configuration \<Rightarrow> User \<Rightarrow> User option" where
  "User_PrepareForRendering kc u =
     (case User_hideConfidentialData u of
        None \<Rightarrow> None
      | Some u1 \<Rightarrow>
          (let u2 = u1\<lparr>u_FsConfig := SetNilSecretsIfEmpty (u_FsConfig u1)\<rparr>
           in map_option (\<lambda>vs. u2\<lparr>u_VirtualFolders := vs\<rparr>)
                (map_panic (\<lambda>v. map_option (\<lambda>b. v\<lparr>vf_Base := b\<rparr>) (Folder_PrepareForRendering kc (vf_Base v)))
                   (u_VirtualFolders u2))))"

fun any_folder_redacted :: "VirtualFolder list \<Rightarrow> bool option" where
  "any_folder_redacted [] = Some False"
| "any_folder_redacted (v # vs) =
     (case HasRedactedSecret (vf_Base v) of
        None \<Rightarrow> None
      | Some True \<Rightarrow> Some True
      | Some False \<Rightarrow> any_folder_redacted vs)"

definition hasRedactedSecret :: "User \<Rightarrow> bool option" where
  "hasRedactedSecret u =
     (case any_redacted (provider_secrets (u_FsConfig u)) of
        None \<Rightarrow> None
      | Some True \<Rightarrow> Some True
      | Some False \<Rightarrow> any_folder_redacted (u_VirtualFolders u))"

definition IsPasswordHashed :: "User \<Rightarrow> bool" where
  "IsPasswordHashed u = IsStringPrefixInSlice (u_Password u) hashPwdPrefixes"

definition IsTLSUsernameVerificationEnabled :: "User \<Rightarrow> bool" where
  "IsTLSUsernameVerificationEnabled u =
     (if fl_TLSUsername (u_Filters u) \<noteq> '''' then fl_TLSUsername (u_Filters u) \<noteq> ''None'' else False)"

definition set_folder_secrets :: "kms_Configuration \<Rightarrow> VirtualFolder \<Rightarrow> VirtualFolder" where
  "set_folder_secrets kc v = v\<lparr>vf_Base := (vf_Base v)\<lparr>bf_FsConfig := SetEmptySecretsIfNil kc (vf_FsConfig v)\<rparr>\<rparr>"

definition SetEmptySecrets :: "kms_Configuration \<Rightarrow> User \<Rightarrow> User" where
  "SetEmptySecrets kc u =
     (let f = u_FsConfig u; e = Some (NewEmptySecret kc)
      in u\<lparr>u_FsConfig := f
             \<lparr>fc_S3Config := (fc_S3Config f)\<lparr>s3_AccessSecret := e\<rparr>,
              fc_GCSConfig := (fc_GCSConfig f)\<lparr>gcs_Credentials := e\<rparr>,
              fc_AzBlobConfig := (fc_AzBlobConfig f)\<lparr>az_AccountKey := e\<rparr>,
              fc_CryptConfig := (fc_CryptConfig f)\<lparr>cr_Passphrase := e\<rparr>,
              fc_SFTPConfig := (fc_SFTPConfig f)\<lparr>sf_Password := e, sf_PrivateKey := e\<rparr>\<rparr>,
           u_VirtualFolders := map (set_folder_secrets kc) (u_VirtualFolders u)\<rparr>)"

definition User_SetEmptySecretsIfNil :: "kms_Configuration \<Rightarrow> User \<Rightarrow> User" where
  "User_SetEmptySecretsIfNil kc u =
     u\<lparr>u_FsConfig := SetEmptySecretsIfNil kc (u_FsConfig u),
       u_VirtualFolders := map (set_folder_secrets kc) (u_VirtualFolders u)\<rparr>"

subsection \<open>Permissions\<close>

definition find_permissions :: "User \<Rightarrow> string \<Rightarrow> string list option" where
  "find_permissions u p = first_some (gm_get (u_Permissions u)) (GetDirsForVirtualPath p)"

definition GetPermissionsForPath :: "User \<Rightarrow> string \<Rightarrow> string list" where
  "GetPermissionsForPath u p =
     (case gm_get (u_Permissions u) ''/'' of
        Some perms \<Rightarrow>
          if gm_len (u_Permissions u) = 1 then perms
          else (case find_permissions u p of Some ps \<Rightarrow> ps | None \<Rightarrow> perms)
      | None \<Rightarrow> (case find_permissions u p of Some ps \<Rightarrow> ps | None \<Rightarrow> []))"

definition HasPerm :: "User \<Rightarrow> string \<Rightarrow> string \<Rightarrow> bool" where
  "HasPerm u permission p =
     (let perms = GetPermissionsForPath u p
      in if IsStringInSlice PermAny perms then True else IsStringInSlice permission perms)"

definition HasPerms :: "User \<Rightarrow> string list \<Rightarrow> string \<Rightarrow> bool" where
  "HasPerms u permissions p =
     (let perms = GetPermissionsForPath u p
      in if IsStringInSlice PermAny perms then True
         else list_all (\<lambda>permission. IsStringInSlice permission perms) permissions)"

text \<open>The order of the iteration over the map does not matter: some entry qualifies or none does.\<close>

definition HasPermissionsInside :: "User \<Rightarrow> string \<Rightarrow> bool" where
  "HasPermissionsInside u virtualPath =
     list_ex (\<lambda>dir. if dir = virtualPath then True
                    else if length dir > length virtualPath then strings_HasPrefix dir (virtualPath @ ''/'')
                    else False) (gm_keys (u_Permissions u))"

subsection \<open>Virtual folders\<close>

definition folder_at :: "User \<Rightarrow> string \<Rightarrow> VirtualFolder option" where
  "folder_at u d = List.find (\<lambda>v. vf_VirtualPath v = d) (u_VirtualFolders u)"

definition GetVirtualFolderForPath :: "User \<Rightarrow> string \<Rightarrow> VirtualFolder option" where
  "GetVirtualFolderForPath u virtualPath =
     (if length (u_VirtualFolders u) = 0 then None
      else first_some (folder_at u) (GetDirsForVirtualPath virtualPath))"

definition GetVirtualFoldersInPath :: "User \<Rightarrow> string \<Rightarrow> (string, bool) gomap" where
  "GetVirtualFoldersInPath u virtualPath =
     foldl (\<lambda>result v.
              foldl (\<lambda>result d. if d = ''/'' then result
                                else if path_Dir d = virtualPath then gm_put result d True
                                else result)
                result (GetDirsForVirtualPath (vf_VirtualPath v)))
       [] (u_VirtualFolders u)"

fun replace_info :: "FileInfo \<Rightarrow> FileInfo list \<Rightarrow> FileInfo list" where
  "replace_info fi [] = [fi]"
| "replace_info fi (x # xs) = (if fi_Name x = fi_Name fi then fi # xs else x # replace_info fi xs)"

text \<open>\<open>now\<close> is the time of the listing.\<close>

definition AddVirtualDirs :: "int \<Rightarrow> User \<Rightarrow> FileInfo list \<Rightarrow> string \<Rightarrow> FileInfo list" where
  "AddVirtualDirs now u xs virtualPath =
     (if length (u_VirtualFolders u) = 0 then xs
      else foldl (\<lambda>xs dir. replace_info (NewFileInfo dir True 0 now False) xs) xs
             (gm_keys (GetVirtualFoldersInPath u virtualPath)))"

definition IsMappedPath :: "User \<Rightarrow> string \<Rightarrow> bool" where
  "IsMappedPath u fsPath = list_ex (\<lambda>v. fsPath = vf_MappedPath v) (u_VirtualFolders u)"

definition IsVirtualFolder :: "User \<Rightarrow> string \<Rightarrow> bool" where
  "IsVirtualFolder u virtualPath = list_ex (\<lambda>v. virtualPath = vf_VirtualPath v) (u_VirtualFolders u)"

definition HasVirtualFoldersInside :: "User \<Rightarrow> string \<Rightarrow> bool" where
  "HasVirtualFoldersInside u virtualPath =
     (if virtualPath = ''/'' \<and> length (u_VirtualFolders u) > 0 then True
      else list_ex (\<lambda>v. length (vf_VirtualPath v) > length virtualPath \<and>
                        strings_HasPrefix (vf_VirtualPath v) (virtualPath @ ''/'')) (u_VirtualFolders u))"

definition User_HasNoQuotaRestrictions :: "User \<Rightarrow> bool \<Rightarrow> bool" where
  "User_HasNoQuotaRestrictions u checkFiles =
     (if u_QuotaSize u = 0 \<and> (\<not> checkFiles \<or> u_QuotaFiles u = 0) then True else False)"

definition HasQuotaRestrictions :: "User \<Rightarrow> bool" where
  "HasQuotaRestrictions u = (u_QuotaFiles u > 0 \<or> u_QuotaSize u > 0)"

text \<open>
  The scan adds up the root and the folders included in the user quota:
  \<open>root\<close> and \<open>scan\<close> are the contents of the storages, or an error.
\<close>

fun scan_folders :: "(VirtualFolder \<Rightarrow> 'e + (int \<times> int)) \<Rightarrow> VirtualFolder list \<Rightarrow> int \<times> int \<Rightarrow> 'e option \<times> int \<times> int" where
  "scan_folders scan [] acc = (None, acc)"
| "scan_folders scan (v # vs) acc =
     (if \<not> IsIncludedInUserQuota v then scan_folders scan vs acc
      else
        (case scan v of
           Inl e \<Rightarrow> (Some e, acc)
         | Inr (num, s) \<Rightarrow> scan_folders scan vs (add64 (fst acc) num, add64 (snd acc) s)))"

definition User_ScanQuota ::
    "'e + (int \<times> int) \<Rightarrow> (VirtualFolder \<Rightarrow> 'e + (int \<times> int)) \<Rightarrow> User \<Rightarrow> 'e option \<times> int \<times> int" where
  "User_ScanQuota root scan u =
     (case root of Inl e \<Rightarrow> (Some e, 0, 0) | Inr acc \<Rightarrow> scan_folders scan (u_VirtualFolders u) acc)"

subsection \<open>The filesystem of a path\<close>

text \<open>
  \<open>userExists\<close> looks a user up in the provider: \<open>Inl True\<close> is the error that no
  such user exists, \<open>Inl False\<close> any other error.
\<close>

definition getForbiddenSFTPSelfUsers :: "(string \<Rightarrow> bool + User) \<Rightarrow> string \<Rightarrow> string list option" where
  "getForbiddenSFTPSelfUsers userExists username =
     (case userExists username of
        Inr sftpUser \<Rightarrow>
          if fc_Provider (u_FsConfig sftpUser) = SFTPFilesystemProvider then Some [u_Username sftpUser]
          else if list_ex (\<lambda>v. fc_Provider (vf_FsConfig v) = SFTPFilesystemProvider) (u_VirtualFolders sftpUser)
          then Some [u_Username sftpUser]
          else Some []
      | Inl notFound \<Rightarrow> if \<not> notFound then None else Some [])"

text \<open>
  The constructors of the backends: of the root storage from the user and the
  forbidden names, of a folder likewise. \<open>None\<close> is an error.
\<close>

record 'fs backends =
  mk_root :: "User \<Rightarrow> string list \<Rightarrow> 'fs option"
  mk_folder :: "VirtualFolder \<Rightarrow> string list \<Rightarrow> 'fs option"

definition getRootFs :: "(string \<Rightarrow> bool + User) \<Rightarrow> 'fs backends \<Rightarrow> User \<Rightarrow> 'fs option" where
  "getRootFs userExists B u =
     (if fc_Provider (u_FsConfig u) = SFTPFilesystemProvider then
        (case getForbiddenSFTPSelfUsers userExists (sf_Username (fc_SFTPConfig (u_FsConfig u))) of
           None \<Rightarrow> None
         | Some forbidden \<Rightarrow> mk_root B u (forbidden @ [u_Username u]))
      else mk_root B u [])"

definition GetFilesystem ::
    "(string \<Rightarrow> bool + User) \<Rightarrow> 'fs backends \<Rightarrow> User \<Rightarrow> (string, 'fs) gomap \<Rightarrow> 'fs option \<times> (string, 'fs) gomap" where
  "GetFilesystem userExists B u cache =
     (case getRootFs userExists B u of
        None \<Rightarrow> (None, cache)
      | Some fs \<Rightarrow> (Some fs, [(''/'', fs)]))"

definition GetFilesystemForPath ::
    "(string \<Rightarrow> bool + User) \<Rightarrow> 'fs backends \<Rightarrow> User \<Rightarrow> (string, 'fs) gomap \<Rightarrow> string
       \<Rightarrow> 'fs option \<times> (string, 'fs) gomap" where
  "GetFilesystemForPath userExists B u cache virtualPath =
     (let root = (case gm_get cache ''/'' of
                    Some fs \<Rightarrow> (Some fs, cache)
                  | None \<Rightarrow> GetFilesystem userExists B u cache)
      in if virtualPath \<noteq> '''' \<and> virtualPath \<noteq> ''/'' \<and> length (u_VirtualFolders u) > 0 then
           (case GetVirtualFolderForPath u virtualPath of
              None \<Rightarrow> root
            | Some folder \<Rightarrow>
                (case gm_get cache (vf_VirtualPath folder) of
                   Some fs \<Rightarrow> (Some fs, cache)
                 | None \<Rightarrow>
                     (case (if fc_Provider (vf_FsConfig folder) = SFTPFilesystemProvider
                            then getForbiddenSFTPSelfUsers userExists (sf_Username (fc_SFTPConfig (vf_FsConfig folder)))
                            else Some []) of
                        None \<Rightarrow> (None, cache)
                      | Some forbiddens \<Rightarrow>
                          (case mk_folder B folder ([u_Username u] @ forbiddens) of
                             None \<Rightarrow> (None, cache)
                           | Some fs \<Rightarrow> (Some fs, gm_put cache (vf_VirtualPath folder) fs)))))
         else root)"

subsection \<open>Login\<close>

definition GetAllowedLoginMethods :: "User \<Rightarrow> string list" where
  "GetAllowedLoginMethods u =
     filter (\<lambda>m. \<not> IsStringInSlice m (fl_DeniedLoginMethods (u_Filters u))) ValidLoginMethods"

definition GetNextAuthMethods :: "User \<Rightarrow> string list \<Rightarrow> bool \<Rightarrow> string list" where
  "GetNextAuthMethods u partialSuccessMethods isPasswordAuthEnabled =
     (if length partialSuccessMethods \<noteq> 1 then []
      else if hd partialSuccessMethods \<noteq> SSHLoginMethodPublicKey then []
      else foldl (\<lambda>methods m.
             (let methods = (if m = SSHLoginMethodKeyAndPassword \<and> isPasswordAuthEnabled
                             then methods @ [LoginMethodPassword] else methods)
              in if m = SSHLoginMethodKeyAndKeyboardInt then methods @ [SSHLoginMethodKeyboardInteractive]
                 else methods)) [] (GetAllowedLoginMethods u))"

definition IsLoginMethodAllowed :: "User \<Rightarrow> string \<Rightarrow> string list \<Rightarrow> bool" where
  "IsLoginMethodAllowed u loginMethod partialSuccessMethods =
     (if length (fl_DeniedLoginMethods (u_Filters u)) = 0 then True
      else if length partialSuccessMethods = 1 \<and>
              list_ex (\<lambda>m. m = loginMethod) (GetNextAuthMethods u partialSuccessMethods True) then True
      else if IsStringInSlice loginMethod (fl_DeniedLoginMethods (u_Filters u)) then False
      else True)"

definition IsPartialAuth :: "User \<Rightarrow> string \<Rightarrow> bool" where
  "IsPartialAuth u loginMethod =
     (if loginMethod \<noteq> SSHLoginMethodPublicKey then False
      else list_all (\<lambda>m. if m = LoginMethodTLSCertificate \<or> m = LoginMethodTLSCertificateAndPwd then True
                         else IsStringInSlice m SSHMultiStepsLoginMethods) (GetAllowedLoginMethods u))"

definition CanManagePublicKeys :: "User \<Rightarrow> bool" where
  "CanManagePublicKeys u = (\<not> IsStringInSlice ''publickey-change-disabled'' (fl_WebClient (u_Filters u)))"

fun denied_by :: "IP \<Rightarrow> string list \<Rightarrow> bool" where
  "denied_by ip [] = False"
| "denied_by ip (m # ms) =
     (case net_ParseCIDR m of
        None \<Rightarrow> True
      | Some n \<Rightarrow> if IPNet_Contains n ip then True else denied_by ip ms)"

fun allowed_by :: "IP \<Rightarrow> string list \<Rightarrow> bool option" where
  "allowed_by ip [] = None"
| "allowed_by ip (m # ms) =
     (case net_ParseCIDR m of
        None \<Rightarrow> Some False
      | Some n \<Rightarrow> if IPNet_Contains n ip then Some True else allowed_by ip ms)"

definition IsLoginFromAddrAllowed :: "User \<Rightarrow> string \<Rightarrow> bool" where
  "IsLoginFromAddrAllowed u remoteAddr =
     (let allowed = fl_AllowedIP (u_Filters u); denied = fl_DeniedIP (u_Filters u) in
      if length allowed = 0 \<and> length denied = 0 then True
      else
        (case net_ParseIP (GetIPFromRemoteAddress remoteAddr) of
           None \<Rightarrow> True
         | Some ip \<Rightarrow>
             if denied_by ip denied then False
             else (case allowed_by ip allowed of Some b \<Rightarrow> b | None \<Rightarrow> length allowed = 0)))"

subsection \<open>File filters\<close>

text \<open>
  A filter with an empty path counts as no filter: the search goes on and its
  result is ignored.
\<close>

definition extensions_at :: "User \<Rightarrow> string \<Rightarrow> ExtensionsFilter option" where
  "extensions_at u dir =
     (case List.find (\<lambda>f. ef_Path f = dir) (fl_FileExtensions (u_Filters u)) of
        None \<Rightarrow> None
      | Some f \<Rightarrow> if ef_Path f \<noteq> '''' then Some f else None)"

definition find_extensions :: "User \<Rightarrow> string \<Rightarrow> ExtensionsFilter option" where
  "find_extensions u dir = first_some (extensions_at u) (GetDirsForVirtualPath dir)"

definition isFileExtensionAllowed :: "User \<Rightarrow> string \<Rightarrow> bool" where
  "isFileExtensionAllowed u virtualPath =
     (if length (fl_FileExtensions (u_Filters u)) = 0 then True
      else
        (case find_extensions u (path_Dir virtualPath) of
           None \<Rightarrow> True
         | Some flt \<Rightarrow>
             (let toMatch = strings_ToLower virtualPath in
              if list_ex (\<lambda>denied. strings_HasSuffix toMatch denied) (ef_DeniedExtensions flt) then False
              else if list_ex (\<lambda>allowed. strings_HasSuffix toMatch allowed) (ef_AllowedExtensions flt) then True
              else length (ef_AllowedExtensions flt) = 0)))"

definition patterns_at :: "User \<Rightarrow> string \<Rightarrow> PatternsFilter option" where
  "patterns_at u dir =
     (case List.find (\<lambda>f. pf_Path f = dir) (fl_FilePatterns (u_Filters u)) of
        None \<Rightarrow> None
      | Some f \<Rightarrow> if pf_Path f \<noteq> '''' then Some f else None)"

definition find_patterns :: "User \<Rightarrow> string \<Rightarrow> PatternsFilter option" where
  "find_patterns u dir = first_some (patterns_at u) (GetDirsForVirtualPath dir)"

definition isFilePatternAllowed :: "User \<Rightarrow> string \<Rightarrow> bool" where
  "isFilePatternAllowed u virtualPath =
     (if length (fl_FilePatterns (u_Filters u)) = 0 then True
      else
        (case find_patterns u (path_Dir virtualPath) of
           None \<Rightarrow> True
         | Some flt \<Rightarrow>
             (let toMatch = strings_ToLower (path_Base virtualPath) in
              if list_ex (\<lambda>denied. path_Match denied toMatch \<noteq> Some False) (pf_DeniedPatterns flt) then False
              else if list_ex (\<lambda>allowed. path_Match allowed toMatch = Some True) (pf_AllowedPatterns flt) then True
              else length (pf_AllowedPatterns flt) = 0)))"

definition IsFileAllowed :: "User \<Rightarrow> string \<Rightarrow> bool" where
  "IsFileAllowed u virtualPath = (isFilePatternAllowed u virtualPath \<and> isFileExtensionAllowed u virtualPath)"

subsection \<open>Accessors and copies\<close>

definition valid_id :: "int \<Rightarrow> int" where
  "valid_id n = (if n \<le> 0 \<or> n > 2147483647 then -1 else n)"

definition User_GetUID :: "User \<Rightarrow> int" where
  "User_GetUID u = valid_id (u_UID u)"

definition User_GetGID :: "User \<Rightarrow> int" where
  "User_GetGID u = valid_id (u_GID u)"

definition GetStatusAsString :: "int \<Rightarrow> User \<Rightarrow> string" where
  "GetStatusAsString now u =
     (if u_ExpirationDate u > 0 \<and> u_ExpirationDate u < GetTimeAsMsSinceEpoch now then ''Expired''
      else if u_Status u = 1 then ''Active''
      else ''Inactive'')"

definition User_GetEncrytionAdditionalData :: "User \<Rightarrow> string" where
  "User_GetEncrytionAdditionalData u = u_Username u"

definition User_GetGCSCredentialsFilePath :: "string \<Rightarrow> User \<Rightarrow> string" where
  "User_GetGCSCredentialsFilePath credentialsDirPath u =
     path_Join [credentialsDirPath, u_Username u @ ''_gcs_credentials.json'']"

definition copy_filters :: "UserFilters \<Rightarrow> UserFilters" where
  "copy_filters f =
     \<lparr>fl_AllowedIP = fl_AllowedIP f, fl_DeniedIP = fl_DeniedIP f,
      fl_DeniedLoginMethods = fl_DeniedLoginMethods f, fl_DeniedProtocols = fl_DeniedProtocols f,
      fl_FileExtensions = fl_FileExtensions f, fl_FilePatterns = fl_FilePatterns f,
      fl_MaxUploadFileSize = fl_MaxUploadFileSize f, fl_TLSUsername = fl_TLSUsername f,
      fl_Hooks = \<lparr>hf_ExternalAuthDisabled = hf_ExternalAuthDisabled (fl_Hooks f),
                  hf_PreLoginDisabled = hf_PreLoginDisabled (fl_Hooks f),
                  hf_CheckPasswordDisabled = hf_CheckPasswordDisabled (fl_Hooks f)\<rparr>,
      fl_DisableFsChecks = fl_DisableFsChecks f, fl_WebClient = fl_WebClient f\<rparr>"

text \<open>The first result is the receiver, which gets empty secrets for nil ones.\<close>

definition User_getACopy :: "kms_Configuration \<Rightarrow> User \<Rightarrow> User \<times> User" where
  "User_getACopy kc u0 =
     (let u = User_SetEmptySecretsIfNil kc u0
      in (u,
          \<lparr>u_ID = u_ID u, u_Status = u_Status u, u_Username = u_Username u,
           u_ExpirationDate = u_ExpirationDate u, u_Password = u_Password u, u_PublicKeys = u_PublicKeys u,
           u_HomeDir = u_HomeDir u,
           u_VirtualFolders = map (\<lambda>v. snd (VirtualFolder_GetACopy kc v)) (u_VirtualFolders u),
           u_UID = u_UID u, u_GID = u_GID u, u_MaxSessions = u_MaxSessions u,
           u_QuotaSize = u_QuotaSize u, u_QuotaFiles = u_QuotaFiles u,
           u_Permissions = foldl (\<lambda>m (k, v). gm_put m k v) [] (u_Permissions u),
           u_UsedQuotaSize = u_UsedQuotaSize u, u_UsedQuotaFiles = u_UsedQuotaFiles u,
           u_LastQuotaUpdate = u_LastQuotaUpdate u, u_UploadBandwidth = u_UploadBandwidth u,
           u_DownloadBandwidth = u_DownloadBandwidth u, u_LastLogin = u_LastLogin u,
           u_Filters = copy_filters (u_Filters u),
           u_FsConfig = snd (Filesystem_GetACopy kc (u_FsConfig u)),
           u_Description = u_Description u, u_AdditionalInfo = u_AdditionalInfo u\<rparr>))"

subsection \<open>The searches along the ancestors\<close>

interpretation perms: ancestor_search "\<lambda>u. gm_get (u_Permissions u)" find_permissions
  by unfold_locales (simp add: find_permissions_def)

interpretation folders: ancestor_search folder_at GetVirtualFolderForPath
proof
  fix u p
  have "u_VirtualFolders u = [] \<Longrightarrow> first_some (folder_at u) ds = None" for ds
    by (induction ds) (simp_all add: folder_at_def)
  then show "GetVirtualFolderForPath u p = first_some (folder_at u) (GetDirsForVirtualPath p)"
    by (simp add: GetVirtualFolderForPath_def)
qed

interpretation exts: ancestor_search extensions_at find_extensions
  by unfold_locales (simp add: find_extensions_def)

interpretation pats: ancestor_search patterns_at find_patterns
  by unfold_locales (simp add: find_patterns_def)

lemma GetPermissionsForPath_find:
  assumes "good_comps cs"
  shows "GetPermissionsForPath u (abs_of cs) =
    (case find_permissions u (abs_of cs) of Some ps \<Rightarrow> ps | None \<Rightarrow> [])"
proof (cases "gm_get (u_Permissions u) ''/''")
  case (Some perms)
  have root: "find_permissions u (abs_of cs) \<noteq> None"
    using Some perms.find_none_iff [OF assms, of u] by (auto intro!: exI [of _ 0])
  show ?thesis
  proof (cases "gm_len (u_Permissions u) = 1")
    case True
    then obtain k v where m: "u_Permissions u = [(k, v)]"
      by (cases "u_Permissions u") (auto simp: gm_len_def)
    with Some have "k = ''/''" "v = perms" by (auto simp: gm_get_def split: if_splits)
    with m root obtain ps where ps: "find_permissions u (abs_of cs) = Some ps" by blast
    then obtain j where "gm_get (u_Permissions u) (abs_of (take j cs)) = Some ps"
      using assms by (elim perms.find_some_ancestor) auto
    then have "ps = perms" using m \<open>v = perms\<close> by (auto simp: gm_get_def split: if_splits)
    with True Some ps show ?thesis by (simp add: GetPermissionsForPath_def)
  next
    case False
    with Some root show ?thesis by (auto simp: GetPermissionsForPath_def)
  qed
qed (simp add: GetPermissionsForPath_def)

lemma HasPerm_iff: "HasPerm u x p \<longleftrightarrow> PermAny \<in> set (GetPermissionsForPath u p) \<or> x \<in> set (GetPermissionsForPath u p)"
  by (auto simp: HasPerm_def Let_def)

lemma HasPerms_iff:
  "HasPerms u xs p \<longleftrightarrow> PermAny \<in> set (GetPermissionsForPath u p) \<or> set xs \<subseteq> set (GetPermissionsForPath u p)"
  by (auto simp: HasPerms_def Let_def list_all_iff)

lemma HasPerms_list_all: "HasPerms u xs p = list_all (\<lambda>x. HasPerm u x p) xs"
  by (auto simp: HasPerms_iff HasPerm_iff list_all_iff)

lemma folder_at_Some: "folder_at u d = Some v \<Longrightarrow> v \<in> set (u_VirtualFolders u) \<and> vf_VirtualPath v = d"
  by (auto simp: folder_at_def find_Some_iff)

lemma path_Dir_eq_iff:
  assumes "good_comps ds" and "good_comps cs"
  shows "abs_of ds \<noteq> ''/'' \<and> path_Dir (abs_of ds) = abs_of cs \<longleftrightarrow> (\<exists>c. ds = cs @ [c])"
proof (cases ds rule: rev_cases)
  case (snoc es c)
  with assms have "good_comps es" "good_comp c" by simp_all
  with assms snoc show ?thesis
    by (simp add: abs_of_eq_root) (metis abs_of_inj append1_eq_conv path_Dir_snoc)
qed (use assms in simp)

lemma foldl_inner_put:
  "gm_get (foldl (\<lambda>result d. if d = ''/'' then result else if path_Dir d = p then gm_put result d True else result) m ds) k =
     (if k \<in> set ds \<and> k \<noteq> ''/'' \<and> path_Dir k = p then Some True else gm_get m k)"
  by (induction ds arbitrary: m) auto

lemma GetVirtualFoldersInPath_iff:
  "gm_get (GetVirtualFoldersInPath u p) k \<noteq> None \<longleftrightarrow>
     k \<noteq> ''/'' \<and> path_Dir k = p \<and> (\<exists>v \<in> set (u_VirtualFolders u). k \<in> set (GetDirsForVirtualPath (vf_VirtualPath v)))"
proof -
  have *: "gm_get (foldl (\<lambda>result v. foldl (\<lambda>result d. if d = ''/'' then result
           else if path_Dir d = p then gm_put result d True else result) result
           (GetDirsForVirtualPath (vf_VirtualPath v))) m vs) k \<noteq> None \<longleftrightarrow>
      gm_get m k \<noteq> None \<or> k \<noteq> ''/'' \<and> path_Dir k = p \<and>
        (\<exists>v \<in> set vs. k \<in> set (GetDirsForVirtualPath (vf_VirtualPath v)))" for m vs
    by (induction vs arbitrary: m) (auto simp: foldl_inner_put)
  show ?thesis using * [of "[]" "u_VirtualFolders u"] by (simp add: GetVirtualFoldersInPath_def)
qed

lemma set_GetDirs_abs_of:
  "good_comps ds \<Longrightarrow> set (GetDirsForVirtualPath (abs_of ds)) = {abs_of es | es. prefix es ds}"
  by (auto simp: GetDirsForVirtualPath_abs_of)

lemma denied_by_valid:
  "\<forall>m \<in> set ms. net_ParseCIDR m \<noteq> None \<Longrightarrow>
     denied_by ip ms \<longleftrightarrow> (\<exists>m \<in> set ms. IPNet_Contains (the (net_ParseCIDR m)) ip)"
  by (induction ms) auto

lemma allowed_by_valid:
  "\<forall>m \<in> set ms. net_ParseCIDR m \<noteq> None \<Longrightarrow>
     allowed_by ip ms = (if \<exists>m \<in> set ms. IPNet_Contains (the (net_ParseCIDR m)) ip then Some True else None)"
  by (induction ms) auto

lemma gm_get_foldl_put:
  "wf_gm xs \<Longrightarrow> gm_get (foldl (\<lambda>m (k, v). gm_put m k v) m xs) k =
     (case gm_get xs k of Some v \<Rightarrow> Some v | None \<Rightarrow> gm_get m k)"
proof (induction xs arbitrary: m)
  case (Cons x xs)
  obtain a b where x: "x = (a, b)" by (cases x)
  have "wf_gm xs" "gm_get xs a = None"
    using Cons.prems x by (auto simp: wf_gm_def gm_get_def map_of_eq_None_iff)
  then show ?case using Cons.IH [of "gm_put m a b"] x
    by (auto simp: gm_get_Cons split: option.splits)
qed (simp add: gm_get_def)

lemma provider_copy [simp]: "fc_Provider (Filesystem_copy_of kc f) = fc_Provider f"
  by (simp add: Filesystem_copy_of_def Let_def)

lemma provider_SetEmpty [simp]: "fc_Provider (SetEmptySecretsIfNil kc f) = fc_Provider f"
  by (simp add: SetEmptySecretsIfNil_def)

lemma copy_IsEqual:
  "fst (Filesystem_IsEqual kc (SetEmptySecretsIfNil kc f) (Filesystem_copy_of kc (SetEmptySecretsIfNil kc f)))"
  using Filesystem_copy_equal [of kc f] by simp

lemma folders_match_distinct:
  assumes "distinct (map vf_VirtualPath gs)"
    and "\<And>g. g \<in> set gs \<Longrightarrow> vf_VirtualPath g = vf_VirtualPath f \<Longrightarrow>
      vf_MappedPath g = vf_MappedPath f \<and> fst (Filesystem_IsEqual kc (vf_FsConfig f) (vf_FsConfig g))"
  shows "folders_match kc f gs found = Some (found \<or> vf_VirtualPath f \<in> vf_VirtualPath ` set gs)"
  using assms by (induction gs arbitrary: found) auto

definition folder_copy :: "kms_Configuration \<Rightarrow> VirtualFolder \<Rightarrow> VirtualFolder" where
  "folder_copy kc v = snd (VirtualFolder_GetACopy kc v)"

lemma folder_copy_fields:
  "vf_VirtualPath (folder_copy kc v) = vf_VirtualPath v"
  "vf_MappedPath (folder_copy kc v) = vf_MappedPath v"
  "vf_FsConfig (folder_copy kc v) = Filesystem_copy_of kc (SetEmptySecretsIfNil kc (vf_FsConfig v))"
  by (simp_all add: folder_copy_def VirtualFolder_GetACopy_def Folder_GetACopy_def Filesystem_GetACopy_def
      Let_def split: prod.splits)

lemma isFsEqual_copy:
  assumes "distinct (map vf_VirtualPath (u_VirtualFolders u))"
  shows "isFsEqual kc (fst (User_getACopy kc u)) (snd (User_getACopy kc u))"
proof -
  let ?vs = "u_VirtualFolders u"
  let ?s = "set_folder_secrets kc"
  have path: "vf_VirtualPath (?s v) = vf_VirtualPath v" "vf_MappedPath (?s v) = vf_MappedPath v"
    "vf_FsConfig (?s v) = SetEmptySecretsIfNil kc (vf_FsConfig v)" for v
    by (simp_all add: set_folder_secrets_def)
  have d: "distinct (map vf_VirtualPath (map (\<lambda>v. folder_copy kc (?s v)) ?vs))"
    using assms by (simp add: comp_def folder_copy_fields path)
  have eq: "v = w" if "v \<in> set ?vs" "w \<in> set ?vs" "vf_VirtualPath v = vf_VirtualPath w" for v w
    using assms that by (auto simp: distinct_map inj_on_def)
  have "folders_match kc (?s v) (map (\<lambda>v. folder_copy kc (?s v)) ?vs) False = Some True" if "v \<in> set ?vs" for v
  proof -
    have "folders_match kc (?s v) (map (\<lambda>v. folder_copy kc (?s v)) ?vs) False =
        Some (False \<or> vf_VirtualPath (?s v) \<in> vf_VirtualPath ` set (map (\<lambda>v. folder_copy kc (?s v)) ?vs))"
    proof (rule folders_match_distinct [OF d])
      fix g assume "g \<in> set (map (\<lambda>v. folder_copy kc (?s v)) ?vs)" "vf_VirtualPath g = vf_VirtualPath (?s v)"
      then obtain w where "w \<in> set ?vs" "g = folder_copy kc (?s w)" "vf_VirtualPath w = vf_VirtualPath v"
        by (auto simp: folder_copy_fields path)
      with eq [OF _ that] have "g = folder_copy kc (?s v)" by auto
      then show "vf_MappedPath g = vf_MappedPath (?s v) \<and>
          fst (Filesystem_IsEqual kc (vf_FsConfig (?s v)) (vf_FsConfig g))"
        by (simp add: folder_copy_fields path copy_IsEqual)
    qed
    then show ?thesis using that by (simp add: image_image folder_copy_fields path)
  qed
  then show ?thesis
    by (simp add: User_getACopy_def isFsEqual_def Let_def User_SetEmptySecretsIfNil_def User_GetHomeDir_def
        list_all_iff Filesystem_GetACopy_def copy_IsEqual comp_def flip: folder_copy_def)
qed

subsection \<open>Properties\<close>

text \<open>
  C2: the permissions of a path are those of its nearest ancestor that has an
  entry in the permissions map, the path itself included. The shortcut for maps
  with one entry and the fallback to the root do not change that.
\<close>
theorem GetPermissionsForPath_nearest:
  assumes "good_comps cs" and "k \<le> length cs"
    and "gm_get (u_Permissions u) (abs_of (take k cs)) = Some ps"
    and "\<forall>j. k < j \<and> j \<le> length cs \<longrightarrow> gm_get (u_Permissions u) (abs_of (take j cs)) = None"
  shows "GetPermissionsForPath u (abs_of cs) = ps"
proof -
  have "find_permissions u (abs_of cs) = Some ps"
    using assms by (intro perms.find_nearest) auto
  then show ?thesis using assms(1) by (simp add: GetPermissionsForPath_find)
qed

theorem GetPermissionsForPath_nearest_witness:
  "let u = zero_User\<lparr>u_Permissions := [(''/'', [''*'']), (''/a'', [''list''])]\<rparr>
   in GetPermissionsForPath u ''/a/b'' = [''list''] \<and> GetPermissionsForPath u ''/c'' = [''*'']"
proof -
  define u where "u = zero_User\<lparr>u_Permissions := [(''/'', [''*'']), (''/a'', [''list''])]\<rparr>"
  have u: "u_Permissions u = [(''/'', [''*'']), (''/a'', [''list''])]" by (simp add: u_def)
  have "GetPermissionsForPath u (abs_of [''a'', ''b'']) = [''list'']"
  proof (rule GetPermissionsForPath_nearest [where k = 1])
    show "\<forall>j. 1 < j \<and> j \<le> length [''a'', ''b''] \<longrightarrow>
        gm_get (u_Permissions u) (abs_of (take j [''a'', ''b''])) = None"
    proof (intro allI impI)
      fix j :: nat assume "1 < j \<and> j \<le> length [''a'', ''b'']"
      then have "j = 2" by simp
      then show "gm_get (u_Permissions u) (abs_of (take j [''a'', ''b''])) = None"
        by (simp add: u gm_get_def abs_of_def)
    qed
  qed (simp_all add: u gm_get_def abs_of_def good_comp_def)
  moreover have "GetPermissionsForPath u (abs_of [''c'']) = [''*'']"
  proof (rule GetPermissionsForPath_nearest [where k = 0])
    show "\<forall>j. 0 < j \<and> j \<le> length [''c''] \<longrightarrow>
        gm_get (u_Permissions u) (abs_of (take j [''c''])) = None"
      by (auto simp: u gm_get_def abs_of_def)
  qed (simp_all add: u gm_get_def abs_of_def good_comp_def)
  ultimately show ?thesis by (simp add: abs_of_def u_def)
qed

text \<open>
  A set of permissions holds on a path exactly when each of them does; the
  permission \<^verbatim>\<open>*\<close> stands for all of them.
\<close>
theorem HasPerms_each: "HasPerms u permissions p = list_all (\<lambda>x. HasPerm u x p) permissions"
  by (rule HasPerms_list_all)

text \<open>
  The virtual directories shown in a directory are its direct children on
  the way to, or equal to, some virtual folder.
\<close>
theorem GetVirtualFoldersInPath_children:
  assumes "good_comps cs" and "\<forall>v \<in> set (u_VirtualFolders u). clean_abs (vf_VirtualPath v)"
  shows "gm_get (GetVirtualFoldersInPath u (abs_of cs)) d \<noteq> None \<longleftrightarrow>
    (\<exists>v \<in> set (u_VirtualFolders u). \<exists>c ds. good_comps ds \<and> vf_VirtualPath v = abs_of ds \<and>
       prefix (cs @ [c]) ds \<and> d = abs_of (cs @ [c]))" (is "?L \<longleftrightarrow> ?R")
proof
  assume ?L
  then obtain v where v: "v \<in> set (u_VirtualFolders u)" "d \<in> set (GetDirsForVirtualPath (vf_VirtualPath v))"
    and d: "d \<noteq> ''/''" "path_Dir d = abs_of cs" unfolding GetVirtualFoldersInPath_iff by blast
  obtain ds where ds: "good_comps ds" "vf_VirtualPath v = abs_of ds"
    using assms(2) v(1) by (auto simp: clean_abs_iff)
  then obtain es where es: "prefix es ds" "d = abs_of es" using v(2) by (auto simp: set_GetDirs_abs_of)
  have "good_comps es" using es(1) ds(1) by (rule good_comps_prefix)
  then obtain c where "es = cs @ [c]" using path_Dir_eq_iff [OF _ assms(1)] d es(2) by blast
  with v(1) ds es show ?R by blast
next
  assume ?R
  then obtain v c ds where v: "v \<in> set (u_VirtualFolders u)" "good_comps ds" "vf_VirtualPath v = abs_of ds"
    and p: "prefix (cs @ [c]) ds" "d = abs_of (cs @ [c])" by blast
  have "good_comps (cs @ [c])" using p(1) v(2) by (rule good_comps_prefix)
  then have "d \<noteq> ''/''" "path_Dir d = abs_of cs" using p(2) assms(1) by (auto simp: abs_of_eq_root)
  moreover have "d \<in> set (GetDirsForVirtualPath (vf_VirtualPath v))"
    using v p by (auto simp: set_GetDirs_abs_of)
  ultimately show ?L unfolding GetVirtualFoldersInPath_iff using v(1) by blast
qed

text \<open>
  C32: with folders mounted on clean paths other than the root, a directory has
  virtual folders inside exactly when some folder lies strictly below it.
\<close>
theorem HasVirtualFoldersInside_below:
  assumes "good_comps cs"
    and "\<forall>v \<in> set (u_VirtualFolders u). clean_abs (vf_VirtualPath v) \<and> vf_VirtualPath v \<noteq> ''/''"
  shows "HasVirtualFoldersInside u (abs_of cs) \<longleftrightarrow>
    (\<exists>v \<in> set (u_VirtualFolders u). \<exists>ds. good_comps ds \<and> vf_VirtualPath v = abs_of ds \<and> strict_prefix cs ds)"
proof -
  have "prefix (abs_of cs @ ''/'') p \<Longrightarrow> length (abs_of cs) < length p" for p
    by (drule prefix_length_le) simp
  then have inside: "HasVirtualFoldersInside u (abs_of cs) \<longleftrightarrow> (cs = [] \<and> u_VirtualFolders u \<noteq> []) \<or>
      (\<exists>v \<in> set (u_VirtualFolders u). prefix (abs_of cs @ ''/'') (vf_VirtualPath v))"
    using assms(1) by (auto simp: HasVirtualFoldersInside_def list_ex_iff strings_HasPrefix_def abs_of_eq_root)
  have path: "\<exists>ds. good_comps ds \<and> vf_VirtualPath v = abs_of ds \<and> ds \<noteq> []"
    if "v \<in> set (u_VirtualFolders u)" for v
    using assms(2) that unfolding clean_abs_iff by (metis abs_of_simps(1))
  show ?thesis
  proof (cases "cs = []")
    case True
    then have "HasVirtualFoldersInside u (abs_of cs) \<longleftrightarrow> u_VirtualFolders u \<noteq> []"
      unfolding inside by (metis empty_iff list.set(1))
    also have "\<dots> \<longleftrightarrow> (\<exists>v \<in> set (u_VirtualFolders u). \<exists>ds. good_comps ds \<and> vf_VirtualPath v = abs_of ds \<and> strict_prefix cs ds)"
      using True path by (metis list.set_intros(1) list.exhaust empty_iff list.set(1) strict_prefix_simps(2))
    finally show ?thesis .
  next
    case False
    show ?thesis
      unfolding inside using False path abs_of_below_iff [OF assms(1) _ False] by metis
  qed
qed

theorem HasVirtualFoldersInside_below_witness:
  "HasVirtualFoldersInside (zero_User\<lparr>u_VirtualFolders := [zero_VirtualFolder\<lparr>vf_VirtualPath := ''/a/b''\<rparr>]\<rparr>) ''/a''"
proof -
  let ?v = "zero_VirtualFolder\<lparr>vf_VirtualPath := ''/a/b''\<rparr>"
  let ?u = "zero_User\<lparr>u_VirtualFolders := [?v]\<rparr>"
  have p: "''/a/b'' = abs_of [''a'', ''b'']" by (simp add: abs_of_def)
  have g: "good_comps [''a'', ''b'']" by (simp add: good_comp_def)
  have "clean_abs ''/a/b''" unfolding p using g by (rule clean_abs_abs_of)
  then have *: "\<forall>v \<in> set (u_VirtualFolders ?u). clean_abs (vf_VirtualPath v) \<and> vf_VirtualPath v \<noteq> ''/''" by simp
  have "HasVirtualFoldersInside ?u (abs_of [''a''])"
  proof (rule HasVirtualFoldersInside_below [OF _ *, THEN iffD2])
    show "\<exists>v \<in> set (u_VirtualFolders ?u). \<exists>ds. good_comps ds \<and> vf_VirtualPath v = abs_of ds \<and> strict_prefix [''a''] ds"
      using g p by (intro bexI [of _ ?v] exI [of _ "[''a'', ''b'']"]) (simp_all add: strict_prefix_def)
  qed (use g in simp)
  then show ?thesis by (simp add: abs_of_def)
qed

text \<open>
  C14: with valid networks in both lists, a login from an address is allowed
  exactly when no denied network contains it and, if there are allowed
  networks, one of them does. Denied networks win.
\<close>
theorem IsLoginFromAddrAllowed_networks:
  assumes "net_ParseIP (GetIPFromRemoteAddress remoteAddr) = Some ip"
    and "\<forall>m \<in> set (fl_AllowedIP (u_Filters u)) \<union> set (fl_DeniedIP (u_Filters u)). net_ParseCIDR m \<noteq> None"
  shows "IsLoginFromAddrAllowed u remoteAddr \<longleftrightarrow>
    (\<forall>m \<in> set (fl_DeniedIP (u_Filters u)). \<not> IPNet_Contains (the (net_ParseCIDR m)) ip) \<and>
    (fl_AllowedIP (u_Filters u) = [] \<or>
     (\<exists>m \<in> set (fl_AllowedIP (u_Filters u)). IPNet_Contains (the (net_ParseCIDR m)) ip))"
proof -
  have "\<forall>m \<in> set (fl_DeniedIP (u_Filters u)). net_ParseCIDR m \<noteq> None"
    "\<forall>m \<in> set (fl_AllowedIP (u_Filters u)). net_ParseCIDR m \<noteq> None" using assms(2) by auto
  then show ?thesis
    using assms(1) by (auto simp: IsLoginFromAddrAllowed_def Let_def denied_by_valid allowed_by_valid)
qed

theorem IsLoginFromAddrAllowed_networks_witness:
  "\<not> IsLoginFromAddrAllowed (zero_User\<lparr>u_Filters := zero_UserFilters
       \<lparr>fl_AllowedIP := [''10.0.0.0/8''], fl_DeniedIP := [''10.1.0.0/16'']\<rparr>\<rparr>) ''10.1.2.3:2022''"
proof -
  let ?u = "zero_User\<lparr>u_Filters := zero_UserFilters\<lparr>fl_AllowedIP := [''10.0.0.0/8''], fl_DeniedIP := [''10.1.0.0/16'']\<rparr>\<rparr>"
  have "GetIPFromRemoteAddress ''10.1.2.3:2022'' = ''10.1.2.3''"
    using GetIPFromRemoteAddress_host_port [of "''10.1.2.3''" "''2022''"] by simp
  then have ip: "net_ParseIP (GetIPFromRemoteAddress ''10.1.2.3:2022'') = Some (v4_prefix @ [10, 1, 2, 3])"
    by (simp add: net_eval)
  have d: "net_ParseCIDR ''10.1.0.0/16'' = Some ([10, 1, 0, 0], [255, 255, 0, 0])" by (simp add: net_eval)
  have a: "net_ParseCIDR ''10.0.0.0/8'' = Some ([10, 0, 0, 0], [255, 0, 0, 0])" by (simp add: net_eval)
  have c: "IPNet_Contains ([10, 1, 0, 0], [255, 255, 0, 0]) (v4_prefix @ [10, 1, 2, 3])" by (simp add: net_eval)
  show ?thesis
    by (subst IsLoginFromAddrAllowed_networks [OF ip]) (simp_all add: a d c)
qed

text \<open>
  C18: when only multi-step methods are left, a public key alone gives partial
  success; the password or the keyboard-interactive step is then accepted
  exactly when its multi-step method is not denied, and none of the three
  methods is accepted on its own.
\<close>
theorem IsPartialAuth_steps:
  assumes "IsPartialAuth u SSHLoginMethodPublicKey"
  shows "\<not> IsLoginMethodAllowed u SSHLoginMethodPublicKey []
    \<and> \<not> IsLoginMethodAllowed u LoginMethodPassword []
    \<and> \<not> IsLoginMethodAllowed u SSHLoginMethodKeyboardInteractive []
    \<and> IsLoginMethodAllowed u LoginMethodPassword [SSHLoginMethodPublicKey] =
        (SSHLoginMethodKeyAndPassword \<notin> set (fl_DeniedLoginMethods (u_Filters u)))
    \<and> IsLoginMethodAllowed u SSHLoginMethodKeyboardInteractive [SSHLoginMethodPublicKey] =
        (SSHLoginMethodKeyAndKeyboardInt \<notin> set (fl_DeniedLoginMethods (u_Filters u)))"
proof -
  let ?D = "set (fl_DeniedLoginMethods (u_Filters u))"
  have "SSHLoginMethodPublicKey \<in> ?D" "LoginMethodPassword \<in> ?D" "SSHLoginMethodKeyboardInteractive \<in> ?D"
    using assms by (auto simp: IsPartialAuth_def GetAllowedLoginMethods_def ValidLoginMethods_def
        SSHMultiStepsLoginMethods_def list_all_iff split: if_splits)
  then show ?thesis
    by (auto simp: IsLoginMethodAllowed_def GetNextAuthMethods_def GetAllowedLoginMethods_def
        ValidLoginMethods_def list_ex_iff Let_def)
qed

theorem IsPartialAuth_steps_witness:
  "let u = zero_User\<lparr>u_Filters := zero_UserFilters\<lparr>fl_DeniedLoginMethods :=
       [''publickey'', ''password'', ''keyboard-interactive'']\<rparr>\<rparr>
   in \<not> IsLoginMethodAllowed u ''password'' [] \<and> IsLoginMethodAllowed u ''password'' [''publickey'']"
  using IsPartialAuth_steps [of "zero_User\<lparr>u_Filters := zero_UserFilters\<lparr>fl_DeniedLoginMethods :=
       [''publickey'', ''password'', ''keyboard-interactive'']\<rparr>\<rparr>"]
  by (simp add: IsPartialAuth_def GetAllowedLoginMethods_def ValidLoginMethods_def SSHMultiStepsLoginMethods_def
      zero_UserFilters_def)

text \<open>
  A filesystem that was returned for a path is returned again for the next
  request of that path, without opening anything.
\<close>
theorem GetFilesystemForPath_cached:
  assumes "GetFilesystemForPath userExists B u cache p = (Some fs, cache')"
  shows "GetFilesystemForPath userExists B u cache' p = (Some fs, cache')"
  using assms
  by (auto simp: GetFilesystemForPath_def GetFilesystem_def Let_def gm_get_Cons split: if_splits option.splits)

text \<open>
  C40: opening the root storage starts a new cache, so every folder opened
  before it is forgotten: it is opened a second time on the next access and the
  first instance is never closed.
\<close>
theorem GetFilesystem_forgets_folders:
  assumes "gm_get cache ''/'' = None" and "getRootFs userExists B u = Some fs" and "d \<noteq> ''/''"
  shows "gm_get (snd (GetFilesystemForPath userExists B u cache ''/'')) d = None"
  using assms by (simp add: GetFilesystemForPath_def GetFilesystem_def gm_get_Cons)

theorem GetFilesystem_forgets_folders_witness:
  "let B = \<lparr>mk_root = \<lambda>u f. Some (3::nat), mk_folder = \<lambda>v f. Some 2\<rparr>;
       u = zero_User\<lparr>u_VirtualFolders := [zero_VirtualFolder\<lparr>vf_VirtualPath := ''/v''\<rparr>]\<rparr>;
       cache = snd (GetFilesystemForPath (\<lambda>_. Inl True) B u [] ''/v'')
   in gm_get cache ''/v'' = Some 2 \<and>
      gm_get (snd (GetFilesystemForPath (\<lambda>_. Inl True) B u cache ''/'')) ''/v'' = None"
proof -
  define B where "B = \<lparr>mk_root = \<lambda>(u::User) (f::string list). Some (3::nat), mk_folder = \<lambda>(v::VirtualFolder) (f::string list). Some 2\<rparr>"
  define u where "u = zero_User\<lparr>u_VirtualFolders := [zero_VirtualFolder\<lparr>vf_VirtualPath := ''/v''\<rparr>]\<rparr>"
  have "GetDirsForVirtualPath ''/v'' = [''/v'', ''/'']"
    using GetDirsForVirtualPath_abs_of [of "[''v'']"] by (simp add: abs_of_def good_comp_def)
  then have c: "snd (GetFilesystemForPath (\<lambda>_. Inl True) B u [] ''/v'') = [(''/v'', 2)]"
    by (simp add: GetFilesystemForPath_def GetVirtualFolderForPath_def folder_at_def u_def B_def gm_put_def
        zero_VirtualFolder_def zero_BaseVirtualFolder_def zero_Filesystem_def)
  have "gm_get (snd (GetFilesystemForPath (\<lambda>_. Inl True) B u [(''/v'', 2)] ''/'')) ''/v'' = None"
    by (rule GetFilesystem_forgets_folders [where fs = 3])
      (simp_all add: gm_get_Cons getRootFs_def u_def B_def zero_User_def zero_Filesystem_def)
  with c show ?thesis by (simp add: Let_def gm_get_Cons flip: B_def u_def)
qed

text \<open>
  A copied user has the same storage as the original: the copies of the
  configurations compare equal for the user and for each of its folders.
\<close>
theorem User_getACopy_same_storage:
  assumes "distinct (map vf_VirtualPath (u_VirtualFolders u))"
  shows "isFsEqual kc (fst (User_getACopy kc u)) (snd (User_getACopy kc u))"
  using assms by (rule isFsEqual_copy)

end
