(* ===== verification/Validation.thy ===== *)
theory Validation
  imports User
begin

text \<open>
  The validation half of \<^verbatim>\<open>dataprovider/dataprovider.go\<close>: what \<^verbatim>\<open>ValidateFolder\<close>
  and \<^verbatim>\<open>ValidateUser\<close> reject and how they normalise what they accept. A
  validation step returns its error, if any, together with the updated object;
  a nil dereference is the result \<open>None\<close>. The configuration, the libraries and
  the random source are the record \<open>venv\<close>: \<open>ve_rnd s\<close> are the random bytes
  drawn when the secret \<open>s\<close> is encrypted. The credential files on disk are a
  Go map from paths to contents, threaded through.
\<close>

subsection \<open>Environment and results\<close>

datatype verr = ValidationError string | OtherError string

type_synonym 's vres = "(verr option \<times> 's) option"
type_synonym files = "(string, string) gomap"

record venv =
  ve_kms :: kms_Configuration
  ve_crypto :: crypto
  ve_rnd :: "Secret \<Rightarrow> random"
  ve_json :: "Secret \<Rightarrow> string"
  ve_url_Parse :: "string \<Rightarrow> string option"
  ve_mkdir_fails :: "string \<Rightarrow> bool"
  ve_write_fails :: "string \<Rightarrow> bool"
  ve_SkipNaturalKeysValidation :: bool
  ve_PreferDatabaseCredentials :: bool
  ve_credentialsDirPath :: string
  ve_UsersBaseDir :: string
  ve_TempDir :: string
  ve_useBcrypt :: bool
  ve_bcrypt :: "string \<Rightarrow> string option"
  ve_argon2id :: "string \<Rightarrow> string option"
  ve_ParseAuthorizedKey :: "string \<Rightarrow> bool"
  ve_email :: "string \<Rightarrow> bool"

text \<open>\<^verbatim>\<open>if err := step(x); err != nil { return err }\<close> followed by the rest.\<close>

definition vseq :: "'s vres \<Rightarrow> ('s \<Rightarrow> 's vres) \<Rightarrow> 's vres" where
  "vseq r f = (case r of None \<Rightarrow> None | Some (Some e, s) \<Rightarrow> Some (Some e, s) | Some (None, s) \<Rightarrow> f s)"

definition verror :: "string \<Rightarrow> 's \<Rightarrow> 's vres" where
  "verror e s = Some (Some (ValidationError e), s)"

definition vok :: "'s \<Rightarrow> 's vres" where
  "vok s = Some (None, s)"

lemma vseq_ok_iff: "vseq r f = Some (None, t) \<longleftrightarrow> (\<exists>s. r = Some (None, s) \<and> f s = Some (None, t))"
  by (auto simp: vseq_def split: option.splits prod.splits)

lemma vres_simps [simp]:
  "vok s = Some (None, t) \<longleftrightarrow> s = t" "verror e s \<noteq> Some (None, t)" "vok s \<noteq> None" "verror e s \<noteq> None"
  "vseq (vok s) f = f s"
  by (auto simp: vok_def verror_def vseq_def)

text \<open>\<^verbatim>\<open>usernameRegex\<close>: one or more letters, digits or characters of \<^verbatim>\<open>-_.~\<close>.\<close>

definition name_char :: "char \<Rightarrow> bool" where
  "name_char c \<longleftrightarrow>
     (CHR ''a'' \<le> c \<and> c \<le> CHR ''z'') \<or> (CHR ''A'' \<le> c \<and> c \<le> CHR ''Z'') \<or> (CHR ''0'' \<le> c \<and> c \<le> CHR ''9'') \<or>
     c \<in> {CHR ''-'', CHR ''_'', CHR ''.'', CHR ''~''}"

definition usernameRegex :: "string \<Rightarrow> bool" where
  "usernameRegex s \<longleftrightarrow> s \<noteq> [] \<and> list_all name_char s"

definition natural_key_ok :: "venv \<Rightarrow> string \<Rightarrow> bool" where
  "natural_key_ok E s \<longleftrightarrow> ve_SkipNaturalKeysValidation E \<or> usernameRegex s"

subsection \<open>Overlapping directories and folder limits\<close>

definition isVirtualDirOverlapped :: "string \<Rightarrow> string \<Rightarrow> bool \<Rightarrow> bool" where
  "isVirtualDirOverlapped dir1 dir2 fullCheck =
     (if dir1 = dir2 then True
      else if fullCheck then
        (if length dir1 > length dir2 \<and> strings_HasPrefix dir1 (dir2 @ ''/'') then True
         else if length dir2 > length dir1 \<and> strings_HasPrefix dir2 (dir1 @ ''/'') then True
         else False)
      else False)"

definition isMappedDirOverlapped :: "string \<Rightarrow> string \<Rightarrow> bool \<Rightarrow> bool" where
  "isMappedDirOverlapped dir1 dir2 fullCheck =
     (if dir1 = dir2 then True
      else if fullCheck then
        (if length dir1 > length dir2 \<and> strings_HasPrefix dir1 (dir2 @ ''/'') then True
         else if length dir2 > length dir1 \<and> strings_HasPrefix dir2 (dir1 @ ''/'') then True
         else False)
      else False)"

definition validateFolderQuotaLimits :: "VirtualFolder \<Rightarrow> verr option" where
  "validateFolderQuotaLimits folder =
     (if vf_QuotaSize folder < -1 then Some (ValidationError ''invalid quota_size'')
      else if vf_QuotaFiles folder < -1 then Some (ValidationError ''invalid quota_file'')
      else if (vf_QuotaSize folder = -1 \<and> vf_QuotaFiles folder \<noteq> -1) \<or>
              (vf_QuotaFiles folder = -1 \<and> vf_QuotaSize folder \<noteq> -1)
      then Some (ValidationError ''virtual folder quota_size and quota_files must be both -1 or >= 0'')
      else None)"

subsection \<open>The storage configuration\<close>

abbreviation "zero_S3 \<equiv> fc_S3Config zero_Filesystem"
abbreviation "zero_GCS \<equiv> fc_GCSConfig zero_Filesystem"
abbreviation "zero_AzBlob \<equiv> fc_AzBlobConfig zero_Filesystem"
abbreviation "zero_Crypt \<equiv> fc_CryptConfig zero_Filesystem"
abbreviation "zero_SFTP \<equiv> fc_SFTPConfig zero_Filesystem"

text \<open>
  The shape of the branches that validate a configuration and then encrypt its
  credentials: \<open>bad\<close> puts the configuration back, \<open>good\<close> also resets the
  configurations of the other providers.
\<close>

definition validate_encrypt ::
    "string \<Rightarrow> string \<Rightarrow> string option \<times> 'c \<Rightarrow> ('c \<Rightarrow> (kms_error option \<times> 'c) option) \<Rightarrow> ('c \<Rightarrow> Filesystem) \<Rightarrow>
       ('c \<Rightarrow> Filesystem) \<Rightarrow> Filesystem vres" where
  "validate_encrypt m1 m2 r enc bad good =
     (case r of
        (Some e, c) \<Rightarrow> verror m1 (bad c)
      | (None, c) \<Rightarrow>
          (case enc c of
             None \<Rightarrow> None
           | Some (Some e, c) \<Rightarrow> verror m2 (bad c)
           | Some (None, c) \<Rightarrow> vok (good c)))"

definition reset_configs :: "Filesystem \<Rightarrow> Filesystem" where
  "reset_configs f = f\<lparr>fc_S3Config := zero_S3, fc_GCSConfig := zero_GCS, fc_AzBlobConfig := zero_AzBlob,
     fc_CryptConfig := zero_Crypt, fc_SFTPConfig := zero_SFTP\<rparr>"

text \<open>\<open>ad\<close> and \<open>credPath\<close> are what the helper, a user or a folder, answers.\<close>

definition validateFilesystemConfig ::
    "venv \<Rightarrow> string \<Rightarrow> string \<Rightarrow> files \<Rightarrow> Filesystem \<Rightarrow> Filesystem vres" where
  "validateFilesystemConfig E ad credPath files f =
     (let kc = ve_kms E; C = ve_crypto E in
      if fc_Provider f = S3FilesystemProvider then
        validate_encrypt ''could not validate s3config'' ''could not encrypt s3 access secret''
          (S3_Validate kc (fc_S3Config f))
          (\<lambda>c. S3_EncryptCredentials C (ve_rnd E (the (s3_AccessSecret c))) ad c)
          (\<lambda>c. f\<lparr>fc_S3Config := c\<rparr>) (\<lambda>c. (reset_configs f)\<lparr>fc_S3Config := c\<rparr>)
      else if fc_Provider f = GCSFilesystemProvider then
        validate_encrypt ''could not validate GCS config'' ''''
          (GCS_Validate kc (map_option (\<lambda>s. int (length s)) (gm_get files credPath)) (fc_GCSConfig f))
          (\<lambda>c. Some (None, c))
          (\<lambda>c. f\<lparr>fc_GCSConfig := c\<rparr>) (\<lambda>c. (reset_configs f)\<lparr>fc_GCSConfig := c\<rparr>)
      else if fc_Provider f = AzureBlobFilesystemProvider then
        validate_encrypt ''could not validate Azure Blob config'' ''could not encrypt Azure blob account key''
          (AzBlob_Validate kc (ve_url_Parse E) (fc_AzBlobConfig f))
          (\<lambda>c. AzBlob_EncryptCredentials C (ve_rnd E (the (az_AccountKey c))) ad c)
          (\<lambda>c. f\<lparr>fc_AzBlobConfig := c\<rparr>) (\<lambda>c. (reset_configs f)\<lparr>fc_AzBlobConfig := c\<rparr>)
      else if fc_Provider f = CryptedFilesystemProvider then
        validate_encrypt ''could not validate Crypt fs config'' ''could not encrypt Crypt fs passphrase''
          (Crypt_Validate (fc_CryptConfig f), fc_CryptConfig f)
          (\<lambda>c. Crypt_EncryptCredentials C (ve_rnd E (the (cr_Passphrase c))) ad c)
          (\<lambda>c. f\<lparr>fc_CryptConfig := c\<rparr>) (\<lambda>c. (reset_configs f)\<lparr>fc_CryptConfig := c\<rparr>)
      else if fc_Provider f = SFTPFilesystemProvider then
        validate_encrypt ''could not validate SFTP fs config'' ''could not encrypt SFTP fs credentials''
          (SFTP_Validate kc (fc_SFTPConfig f))
          (\<lambda>c. SFTP_EncryptCredentials C (ve_rnd E (the (sf_Password c))) (ve_rnd E (the (sf_PrivateKey c))) ad c)
          (\<lambda>c. f\<lparr>fc_SFTPConfig := c\<rparr>) (\<lambda>c. (reset_configs f)\<lparr>fc_SFTPConfig := c\<rparr>)
      else vok ((reset_configs f)\<lparr>fc_Provider := LocalFilesystemProvider\<rparr>))"

text \<open>The JSON form of a secret is always defined, so marshalling does not fail.\<close>

definition saveGCSCredentials ::
    "venv \<Rightarrow> string \<Rightarrow> string \<Rightarrow> Filesystem \<times> files \<Rightarrow> (Filesystem \<times> files) vres" where
  "saveGCSCredentials E ad credPath s =
     (case s of (f, files) \<Rightarrow>
        let setc = (\<lambda>x. f\<lparr>fc_GCSConfig := (fc_GCSConfig f)\<lparr>gcs_Credentials := Some x\<rparr>\<rparr>) in
        if fc_Provider f \<noteq> GCSFilesystemProvider then vok (f, files)
        else
          (case gcs_Credentials (fc_GCSConfig f) of
             None \<Rightarrow> None
           | Some cr \<Rightarrow>
               if bs_Payload (pr_base cr) = '''' then vok (f, files)
               else if ve_PreferDatabaseCredentials E then
                 (case encrypt_plain (ve_crypto E) (ve_rnd E cr) ad cr of
                    (Some e, cr') \<Rightarrow> Some (Some (OtherError ''could not encrypt''), setc cr', files)
                  | (None, cr') \<Rightarrow> vok (setc cr', files))
               else
                 (case encrypt_plain (ve_crypto E) (ve_rnd E cr) ad cr of
                    (Some e, cr') \<Rightarrow> verror ''could not encrypt GCS credentials'' (setc cr', files)
                  | (None, cr') \<Rightarrow>
                      if ve_mkdir_fails E (path_Dir credPath)
                      then verror ''could not create GCS credentials dir'' (setc cr', files)
                      else if ve_write_fails E credPath
                      then verror ''could not save GCS credentials'' (setc cr', files)
                      else vok (setc (NewEmptySecret (ve_kms E)), gm_put files credPath (ve_json E cr')))))"

text \<open>
  Both validations on a record that holds the configuration: \<open>get\<close> and \<open>put\<close>
  access it.
\<close>

definition lift_fs :: "('o \<Rightarrow> Filesystem \<Rightarrow> 'o) \<Rightarrow> 'o \<Rightarrow> files \<Rightarrow> Filesystem vres \<Rightarrow> ('o \<times> files) vres" where
  "lift_fs put x files r = map_option (\<lambda>(e, f). (e, put x f, files)) r"

definition lift_fs_files :: "('o \<Rightarrow> Filesystem \<Rightarrow> 'o) \<Rightarrow> 'o \<Rightarrow> (Filesystem \<times> files) vres \<Rightarrow> ('o \<times> files) vres" where
  "lift_fs_files put x r = map_option (\<lambda>(e, f, files). (e, put x f, files)) r"

definition put_folder_fs :: "BaseVirtualFolder \<Rightarrow> Filesystem \<Rightarrow> BaseVirtualFolder" where
  "put_folder_fs v f = v\<lparr>bf_FsConfig := f\<rparr>"

definition put_user_fs :: "User \<Rightarrow> Filesystem \<Rightarrow> User" where
  "put_user_fs u f = u\<lparr>u_FsConfig := f\<rparr>"

subsection \<open>Folders\<close>

text \<open>The part of \<^verbatim>\<open>ValidateFolder\<close> after the checks of the name and of the mapped path.\<close>

definition folder_storage :: "venv \<Rightarrow> BaseVirtualFolder \<Rightarrow> files \<Rightarrow> (BaseVirtualFolder \<times> files) vres" where
  "folder_storage E folder files =
     (let ad = Folder_GetEncrytionAdditionalData folder; cp = Folder_GetGCSCredentialsFilePath (ve_credentialsDirPath E) folder
      in vseq (lift_fs put_folder_fs folder files (validateFilesystemConfig E ad cp files (bf_FsConfig folder)))
           (\<lambda>(folder, files). lift_fs_files put_folder_fs folder (saveGCSCredentials E ad cp (bf_FsConfig folder, files))))"

definition ValidateFolder ::
    "venv \<Rightarrow> BaseVirtualFolder \<times> files \<Rightarrow> (BaseVirtualFolder \<times> files) vres" where
  "ValidateFolder E s =
     (case s of (folder, files) \<Rightarrow>
        if bf_Name folder = '''' then verror ''folder name is mandatory'' (folder, files)
        else if \<not> natural_key_ok E (bf_Name folder) then verror ''folder name is not valid'' (folder, files)
        else
          (let checked = (fc_Provider (bf_FsConfig folder) = LocalFilesystemProvider \<or>
                          fc_Provider (bf_FsConfig folder) = CryptedFilesystemProvider \<or> bf_MappedPath folder \<noteq> '''');
               cleanedMPath = path_Clean (bf_MappedPath folder)
           in if checked \<and> \<not> path_IsAbs cleanedMPath then verror ''invalid folder mapped path'' (folder, files)
              else
                (let folder = (if checked then folder\<lparr>bf_MappedPath := cleanedMPath\<rparr> else folder)
                 in case HasRedactedSecret folder of
                      None \<Rightarrow> None
                    | Some True \<Rightarrow> Some (Some (OtherError ''cannot save a folder with a redacted secret''), folder, files)
                    | Some False \<Rightarrow> folder_storage E folder files)))"

text \<open>\<open>lookup\<close> is \<^verbatim>\<open>GetFolderByName\<close>; a pointer result is the folder itself.\<close>

definition getVirtualFolderIfInvalid ::
    "venv \<Rightarrow> (string \<Rightarrow> BaseVirtualFolder option) \<Rightarrow> BaseVirtualFolder \<times> files \<Rightarrow> (BaseVirtualFolder \<times> files) option" where
  "getVirtualFolderIfInvalid E lookup s =
     (case ValidateFolder E s of
        None \<Rightarrow> None
      | Some (None, s') \<Rightarrow> Some s'
      | Some (Some e, folder, files) \<Rightarrow>
          if bf_MappedPath folder \<noteq> '''' then Some (folder, files)
          else if bf_Name folder = '''' then Some (folder, files)
          else if fc_Provider (bf_FsConfig folder) \<noteq> LocalFilesystemProvider then Some (folder, files)
          else (case lookup (bf_Name folder) of Some f \<Rightarrow> Some (f, files) | None \<Rightarrow> Some (folder, files)))"

text \<open>
  The loop over the folders of a user: the mapped and virtual paths seen so far
  and the folders accepted so far. On an error the user keeps its folders; that the
  secrets of the folders visited before have been encrypted in place by then, through
  the pointers that the copies share, is not recorded: the user is dropped.
\<close>

fun folders_loop ::
    "venv \<Rightarrow> (string \<Rightarrow> BaseVirtualFolder option) \<Rightarrow> string \<Rightarrow> string list \<Rightarrow> string list \<Rightarrow> VirtualFolder list
       \<Rightarrow> VirtualFolder list \<Rightarrow> files \<Rightarrow> (VirtualFolder list \<times> files) vres" where
  "folders_loop E lookup home mapped virtual acc [] files = vok (acc, files)"
| "folders_loop E lookup home mapped virtual acc (v # vs) files =
     (let cleanedVPath = path_Clean (vf_VirtualPath v) in
      if \<not> path_IsAbs cleanedVPath \<or> cleanedVPath = ''/'' then verror ''invalid virtual folder'' (acc, files)
      else
        (case validateFolderQuotaLimits v of
           Some e \<Rightarrow> Some (Some e, acc, files)
         | None \<Rightarrow>
             (case getVirtualFolderIfInvalid E lookup (vf_Base v, files) of
                None \<Rightarrow> None
              | Some s \<Rightarrow>
                  (case ValidateFolder E s of
                     None \<Rightarrow> None
                   | Some (Some e, folder, files) \<Rightarrow> Some (Some e, acc, files)
                   | Some (None, folder, files) \<Rightarrow>
                       (let local = IsLocalOrLocalCrypted folder; mpath = bf_MappedPath folder in
                        if local \<and> isMappedDirOverlapped mpath home True
                        then verror ''invalid mapped folder cannot be inside or contain the user home dir'' (acc, files)
                        else if local \<and> list_ex (\<lambda>m. isMappedDirOverlapped m mpath False) mapped
                        then verror ''invalid mapped folder overlaps'' (acc, files)
                        else if list_ex (\<lambda>p. isVirtualDirOverlapped p cleanedVPath False) virtual
                        then verror ''invalid virtual folder overlaps'' (acc, files)
                        else
                          folders_loop E lookup home (if local then mapped @ [mpath] else mapped)
                            (virtual @ [cleanedVPath])
                            (acc @ [\<lparr>vf_Base = folder, vf_VirtualPath = cleanedVPath, vf_QuotaSize = vf_QuotaSize v,
                                     vf_QuotaFiles = vf_QuotaFiles v\<rparr>]) vs files)))))"

definition validateUserVirtualFolders ::
    "venv \<Rightarrow> (string \<Rightarrow> BaseVirtualFolder option) \<Rightarrow> User \<times> files \<Rightarrow> (User \<times> files) vres" where
  "validateUserVirtualFolders E lookup s =
     (case s of (u, files) \<Rightarrow>
        if length (u_VirtualFolders u) = 0 then vok (u\<lparr>u_VirtualFolders := []\<rparr>, files)
        else
          (case folders_loop E lookup (User_GetHomeDir u) [] [] [] (u_VirtualFolders u) files of
             None \<Rightarrow> None
           | Some (Some e, _, files) \<Rightarrow> Some (Some e, u, files)
           | Some (None, vs, files) \<Rightarrow> vok (u\<lparr>u_VirtualFolders := vs\<rparr>, files)))"

subsection \<open>Users\<close>

definition buildUserHomeDir :: "venv \<Rightarrow> User \<Rightarrow> User" where
  "buildUserHomeDir E u =
     (if u_HomeDir u = '''' then
        (if ve_UsersBaseDir E \<noteq> '''' then u\<lparr>u_HomeDir := path_Join [ve_UsersBaseDir E, u_Username u]\<rparr>
         else if fc_Provider (u_FsConfig u) = SFTPFilesystemProvider
         then u\<lparr>u_HomeDir := path_Join [ve_TempDir E, u_Username u]\<rparr>
         else u)
      else u)"

definition validateBaseParams :: "venv \<Rightarrow> User \<Rightarrow> User vres" where
  "validateBaseParams E u =
     (if u_Username u = '''' then verror ''username is mandatory'' u
      else if \<not> natural_key_ok E (u_Username u) then verror ''username is not valid'' u
      else if u_HomeDir u = '''' then verror ''home_dir is mandatory'' u
      else if u_Password u = '''' \<and> length (u_PublicKeys u) = 0
      then verror ''please set a password or at least a public_key'' u
      else if \<not> path_IsAbs (u_HomeDir u) then verror ''home_dir must be an absolute path'' u
      else vok u)"

text \<open>The loop over the permissions map, in the order of the iteration.\<close>

fun permissions_loop ::
    "(string, string list) gomap \<Rightarrow> (string, string list) gomap \<Rightarrow> string + (string, string list) gomap" where
  "permissions_loop acc [] = Inr acc"
| "permissions_loop acc ((dir, perms) # rest) =
     (if length perms = 0 \<and> dir = ''/'' then Inl ''no permissions granted for the directory''
      else if length perms > length ValidPerms then Inl ''invalid permissions''
      else if list_ex (\<lambda>p. \<not> IsStringInSlice p ValidPerms) perms then Inl ''invalid permission''
      else
        (let cleaned = path_Clean dir;
             cleanedDir = (if cleaned \<noteq> ''/'' then strings_TrimSuffix cleaned ''/'' else cleaned)
         in if \<not> path_IsAbs cleanedDir then Inl ''cannot set permissions for non absolute path''
            else if dir \<noteq> cleanedDir \<and> cleanedDir = ''/''
            then Inl ''cannot set permissions for invalid subdirectory''
            else
              permissions_loop
                (gm_put acc cleanedDir
                   (if IsStringInSlice PermAny perms then [PermAny] else RemoveDuplicates perms)) rest))"

definition validatePermissions :: "User \<Rightarrow> User vres" where
  "validatePermissions u =
     (if gm_len (u_Permissions u) = 0 then verror ''please grant some permissions to this user'' u
      else if gm_get (u_Permissions u) ''/'' = None then verror ''permissions for the root dir must be set'' u
      else
        (case permissions_loop [] (u_Permissions u) of
           Inl e \<Rightarrow> verror e u
         | Inr ps \<Rightarrow> vok (u\<lparr>u_Permissions := ps\<rparr>)))"

definition createUserPasswordHash :: "venv \<Rightarrow> User \<Rightarrow> User vres" where
  "createUserPasswordHash E u =
     (if u_Password u \<noteq> '''' \<and> \<not> IsPasswordHashed u then
        (case (if ve_useBcrypt E then ve_bcrypt E else ve_argon2id E) (u_Password u) of
           None \<Rightarrow> Some (Some (OtherError ''could not hash the password''), u)
         | Some pwd \<Rightarrow> vok (u\<lparr>u_Password := pwd\<rparr>))
      else vok u)"

definition validatePublicKeys :: "venv \<Rightarrow> User \<Rightarrow> User vres" where
  "validatePublicKeys E u =
     (if list_ex (\<lambda>k. \<not> ve_ParseAuthorizedKey E k) (u_PublicKeys u) then verror ''could not parse key'' u
      else vok u)"

fun patterns_loop :: "string list \<Rightarrow> PatternsFilter list \<Rightarrow> PatternsFilter list \<Rightarrow> string + PatternsFilter list" where
  "patterns_loop paths acc [] = Inr acc"
| "patterns_loop paths acc (f # fs) =
     (let cleanedPath = path_Clean (pf_Path f) in
      if \<not> path_IsAbs cleanedPath then Inl ''invalid path for file patterns filter''
      else if IsStringInSlice cleanedPath paths then Inl ''duplicate file patterns filter''
      else if length (pf_AllowedPatterns f) = 0 \<and> length (pf_DeniedPatterns f) = 0
      then Inl ''empty file patterns filter''
      else if list_ex (\<lambda>p. path_Match p ''abc'' = None) (pf_AllowedPatterns f) then Inl ''invalid file pattern filter''
      else if list_ex (\<lambda>p. path_Match p ''abc'' = None) (pf_DeniedPatterns f) then Inl ''invalid file pattern filter''
      else patterns_loop (paths @ [cleanedPath])
             (acc @ [\<lparr>pf_Path = cleanedPath, pf_AllowedPatterns = map strings_ToLower (pf_AllowedPatterns f),
                      pf_DeniedPatterns = map strings_ToLower (pf_DeniedPatterns f)\<rparr>]) fs)"

definition validateFiltersPatternExtensions :: "User \<Rightarrow> User vres" where
  "validateFiltersPatternExtensions u =
     (case patterns_loop [] [] (fl_FilePatterns (u_Filters u)) of
        Inl e \<Rightarrow> verror e u
      | Inr fs \<Rightarrow> vok (u\<lparr>u_Filters := (u_Filters u)\<lparr>fl_FilePatterns := fs\<rparr>\<rparr>))"

fun extensions_loop :: "string list \<Rightarrow> ExtensionsFilter list \<Rightarrow> ExtensionsFilter list \<Rightarrow> string + ExtensionsFilter list" where
  "extensions_loop paths acc [] = Inr acc"
| "extensions_loop paths acc (f # fs) =
     (let cleanedPath = path_Clean (ef_Path f) in
      if \<not> path_IsAbs cleanedPath then Inl ''invalid path for file extensions filter''
      else if IsStringInSlice cleanedPath paths then Inl ''duplicate file extensions filter''
      else if length (ef_AllowedExtensions f) = 0 \<and> length (ef_DeniedExtensions f) = 0
      then Inl ''empty file extensions filter''
      else extensions_loop (paths @ [cleanedPath])
             (acc @ [\<lparr>ef_Path = cleanedPath, ef_AllowedExtensions = map strings_ToLower (ef_AllowedExtensions f),
                      ef_DeniedExtensions = map strings_ToLower (ef_DeniedExtensions f)\<rparr>]) fs)"

definition validateFiltersFileExtensions :: "User \<Rightarrow> User vres" where
  "validateFiltersFileExtensions u =
     (case extensions_loop [] [] (fl_FileExtensions (u_Filters u)) of
        Inl e \<Rightarrow> verror e u
      | Inr fs \<Rightarrow> vok (u\<lparr>u_Filters := (u_Filters u)\<lparr>fl_FileExtensions := fs\<rparr>\<rparr>))"

definition validateFileFilters :: "User \<Rightarrow> User vres" where
  "validateFileFilters u = vseq (validateFiltersFileExtensions u) validateFiltersPatternExtensions"

definition ValidProtocols :: "string list" where
  "ValidProtocols = [''SSH'', ''FTP'', ''DAV'', ''HTTP'']"

definition validTLSUsernames :: "string list" where
  "validTLSUsernames = [''None'', ''CommonName'']"

definition WebClientOptions :: "string list" where
  "WebClientOptions = [''publickey-change-disabled'']"

definition validateFilters :: "User \<Rightarrow> User vres" where
  "validateFilters u =
     (let fl = u_Filters u in
      if list_ex (\<lambda>m. net_ParseCIDR m = None) (fl_DeniedIP fl) then verror ''could not parse denied IP/Mask'' u
      else if list_ex (\<lambda>m. net_ParseCIDR m = None) (fl_AllowedIP fl) then verror ''could not parse allowed IP/Mask'' u
      else if length (fl_DeniedLoginMethods fl) \<ge> length ValidLoginMethods then verror ''invalid denied_login_methods'' u
      else if list_ex (\<lambda>m. \<not> IsStringInSlice m ValidLoginMethods) (fl_DeniedLoginMethods fl)
      then verror ''invalid login method'' u
      else if length (fl_DeniedProtocols fl) \<ge> length ValidProtocols then verror ''invalid denied_protocols'' u
      else if list_ex (\<lambda>p. \<not> IsStringInSlice p ValidProtocols) (fl_DeniedProtocols fl) then verror ''invalid protocol'' u
      else if fl_TLSUsername fl \<noteq> '''' \<and> \<not> IsStringInSlice (fl_TLSUsername fl) validTLSUsernames
      then verror ''invalid TLS username'' u
      else if list_ex (\<lambda>w. \<not> IsStringInSlice w WebClientOptions) (fl_WebClient fl)
      then verror ''invalid web client options'' u
      else validateFileFilters u)"

text \<open>A step on the user that leaves the files alone.\<close>

definition on_user :: "(User \<Rightarrow> User vres) \<Rightarrow> User \<times> files \<Rightarrow> (User \<times> files) vres" where
  "on_user f s = map_option (\<lambda>(e, u). (e, u, snd s)) (f (fst s))"

definition redacted_check :: "User \<Rightarrow> User vres" where
  "redacted_check u =
     (case hasRedactedSecret u of
        None \<Rightarrow> None
      | Some True \<Rightarrow> Some (Some (OtherError ''cannot save a user with a redacted secret''), u)
      | Some False \<Rightarrow> vok u)"

definition status_check :: "User \<Rightarrow> User vres" where
  "status_check u = (if u_Status u < 0 \<or> u_Status u > 1 then verror ''invalid user status'' u else vok u)"

definition validate_user_fs :: "venv \<Rightarrow> User \<times> files \<Rightarrow> (User \<times> files) vres" where
  "validate_user_fs E s =
     (case s of (u, files) \<Rightarrow>
        lift_fs put_user_fs u files
          (validateFilesystemConfig E (User_GetEncrytionAdditionalData u)
             (User_GetGCSCredentialsFilePath (ve_credentialsDirPath E) u) files (u_FsConfig u)))"

definition save_user_credentials :: "venv \<Rightarrow> User \<times> files \<Rightarrow> (User \<times> files) vres" where
  "save_user_credentials E s =
     (case s of (u, files) \<Rightarrow>
        lift_fs_files put_user_fs u
          (saveGCSCredentials E (User_GetEncrytionAdditionalData u)
             (User_GetGCSCredentialsFilePath (ve_credentialsDirPath E) u) (u_FsConfig u, files)))"

definition ValidateUser ::
    "venv \<Rightarrow> (string \<Rightarrow> BaseVirtualFolder option) \<Rightarrow> User \<times> files \<Rightarrow> (User \<times> files) vres" where
  "ValidateUser E lookup s =
     (case s of (u0, files) \<Rightarrow>
        vseq (on_user (validateBaseParams E) (buildUserHomeDir E (User_SetEmptySecretsIfNil (ve_kms E) u0), files))
       (\<lambda>s. vseq (on_user validatePermissions s)
       (\<lambda>s. vseq (on_user redacted_check s)
       (\<lambda>s. vseq (validate_user_fs E s)
       (\<lambda>s. vseq (validateUserVirtualFolders E lookup s)
       (\<lambda>s. vseq (on_user status_check s)
       (\<lambda>s. vseq (on_user (createUserPasswordHash E) s)
       (\<lambda>s. vseq (on_user (validatePublicKeys E) s)
       (\<lambda>s. vseq (on_user validateFilters s)
       (save_user_credentials E))))))))))"


subsection \<open>What a validated object looks like\<close>

text \<open>A stored secret is present and, unless it is empty, not in clear text.\<close>

definition stored_secret :: "Secret option \<Rightarrow> bool" where
  "stored_secret x = (case x of None \<Rightarrow> False | Some s \<Rightarrow> \<not> Secret_IsPlain s \<or> bs_Payload (pr_base s) = '''')"

definition storage_ok :: "Filesystem \<Rightarrow> bool" where
  "storage_ok f = list_all stored_secret (provider_secrets f)"

text \<open>
  The providers the code knows. A folder with another provider number becomes a
  local one after its mapped path has been checked.
\<close>

definition known_provider :: "BaseVirtualFolder \<Rightarrow> bool" where
  "known_provider v \<longleftrightarrow> fc_Provider (bf_FsConfig v) \<in> {0, 1, 2, 3, 4, 5}"

definition perm_entry_ok :: "string \<Rightarrow> string list \<Rightarrow> bool" where
  "perm_entry_ok d p = (clean_abs d \<and> set p \<subseteq> set ValidPerms \<and> distinct p \<and>
      (PermAny \<in> set p \<longrightarrow> p = [PermAny]) \<and> (d = ''/'' \<longrightarrow> p \<noteq> []))"

definition perms_ok :: "(string, string list) gomap \<Rightarrow> bool" where
  "perms_ok ps = (wf_gm ps \<and> list_all (\<lambda>(d, p). perm_entry_ok d p) ps)"

definition base_folder_ok :: "venv \<Rightarrow> BaseVirtualFolder \<Rightarrow> bool" where
  "base_folder_ok E f = (bf_Name f \<noteq> '''' \<and> natural_key_ok E (bf_Name f) \<and> known_provider f \<and>
     (IsLocalOrLocalCrypted f \<longrightarrow> clean_abs (bf_MappedPath f)) \<and> storage_ok (bf_FsConfig f))"

definition limits_ok :: "VirtualFolder \<Rightarrow> bool" where
  "limits_ok v = ((vf_QuotaSize v = -1 \<and> vf_QuotaFiles v = -1) \<or> (0 \<le> vf_QuotaSize v \<and> 0 \<le> vf_QuotaFiles v))"

definition local_paths :: "VirtualFolder list \<Rightarrow> string list" where
  "local_paths vs = map vf_MappedPath (filter (\<lambda>v. IsLocalOrLocalCrypted (vf_Base v)) vs)"

definition user_folders_ok :: "venv \<Rightarrow> string \<Rightarrow> VirtualFolder list \<Rightarrow> bool" where
  "user_folders_ok E home vs =
     (list_all (\<lambda>v. clean_abs (vf_VirtualPath v) \<and> vf_VirtualPath v \<noteq> ''/'' \<and> limits_ok v \<and> base_folder_ok E (vf_Base v)) vs \<and>
      distinct (map vf_VirtualPath vs) \<and> distinct (local_paths vs) \<and>
      list_all (\<lambda>p. \<not> isMappedDirOverlapped p home True) (local_paths vs))"

definition filter_paths_ok :: "string list \<Rightarrow> bool" where
  "filter_paths_ok ps = (distinct ps \<and> list_all clean_abs ps)"

definition filters_ok :: "UserFilters \<Rightarrow> bool" where
  "filters_ok fl =
     (list_all (\<lambda>m. net_ParseCIDR m \<noteq> None) (fl_DeniedIP fl @ fl_AllowedIP fl) \<and>
      set (fl_DeniedLoginMethods fl) \<subset> set ValidLoginMethods \<and> set (fl_DeniedProtocols fl) \<subset> set ValidProtocols \<and>
      (fl_TLSUsername fl = '''' \<or> fl_TLSUsername fl \<in> set validTLSUsernames) \<and>
      set (fl_WebClient fl) \<subseteq> set WebClientOptions \<and>
      filter_paths_ok (map ef_Path (fl_FileExtensions fl)) \<and> filter_paths_ok (map pf_Path (fl_FilePatterns fl)))"

definition user_ok :: "venv \<Rightarrow> User \<Rightarrow> bool" where
  "user_ok E u =
     (u_Username u \<noteq> '''' \<and> natural_key_ok E (u_Username u) \<and> path_IsAbs (u_HomeDir u) \<and>
      (u_Password u \<noteq> '''' \<or> u_PublicKeys u \<noteq> []) \<and> (u_Password u = '''' \<or> IsPasswordHashed u) \<and>
      list_all (ve_ParseAuthorizedKey E) (u_PublicKeys u) \<and> (u_Status u = 0 \<or> u_Status u = 1) \<and>
      perms_ok (u_Permissions u) \<and> gm_get (u_Permissions u) ''/'' \<noteq> None \<and>
      user_folders_ok E (User_GetHomeDir u) (u_VirtualFolders u) \<and> filters_ok (u_Filters u) \<and> storage_ok (u_FsConfig u))"

subsection \<open>Permissions\<close>

lemma path_IsAbs_Clean [simp]: "path_IsAbs (path_Clean p) = path_IsAbs p"
  using path_Clean_rel clean_abs_Clean by (auto simp: clean_abs_def)

lemma TrimSuffix_clean:
  assumes "clean_abs p" "p \<noteq> ''/''"
  shows "strings_TrimSuffix p ''/'' = p"
proof -
  have "\<not> strings_HasSuffix p ''/''"
  proof
    assume "strings_HasSuffix p ''/''"
    then obtain r where r: "p = r @ ''/''" by (auto simp: strings_HasSuffix_def prefix_def)
    with assms have "path_IsAbs r" by (cases r) (auto simp: clean_abs_def path_IsAbs_def)
    from length_Clean_trailing [OF this] r assms show False by (simp add: clean_abs_def)
  qed
  then show ?thesis by (simp add: strings_TrimSuffix_def)
qed

lemma perms_ok_put: "perms_ok m \<Longrightarrow> perm_entry_ok d p \<Longrightarrow> perms_ok (gm_put m d p)"
  by (auto simp: perms_ok_def gm_all_iff gm.get_put gm.wf_put)

lemma cleaned_dir:
  assumes "cd = (if path_Clean dir \<noteq> ''/'' then strings_TrimSuffix (path_Clean dir) ''/'' else path_Clean dir)"
    and "path_IsAbs cd"
  shows "cd = path_Clean dir \<and> clean_abs cd"
proof -
  have "path_IsAbs (path_Clean dir)"
    using assms by (auto simp: strings_TrimSuffix_def path_IsAbs_def take_Cons' split: if_splits list.splits)
  then have "path_IsAbs dir" by simp
  then have "clean_abs (path_Clean dir)" by simp
  then show ?thesis using assms(1) by (auto simp: TrimSuffix_clean)
qed

lemma permissions_loop_ok:
  assumes "permissions_loop acc ps = Inr r" "perms_ok acc"
  shows "perms_ok r \<and> (gm_get acc ''/'' \<noteq> None \<or> gm_get ps ''/'' \<noteq> None \<longrightarrow> gm_get r ''/'' \<noteq> None)"
  using assms
proof (induction ps arbitrary: acc)
  case (Cons e rest)
  obtain dir perms where e: "e = (dir, perms)" by (cases e)
  define cd where "cd = (if path_Clean dir \<noteq> ''/'' then strings_TrimSuffix (path_Clean dir) ''/'' else path_Clean dir)"
  define np where "np = (if IsStringInSlice PermAny perms then [PermAny] else RemoveDuplicates perms)"
  from Cons.prems(1) have c: "\<not> (length perms = 0 \<and> dir = ''/'')"
      "\<not> list_ex (\<lambda>p. \<not> IsStringInSlice p ValidPerms) perms" "path_IsAbs cd" "\<not> (dir \<noteq> cd \<and> cd = ''/'')"
    and rec: "permissions_loop (gm_put acc cd np) rest = Inr r"
    by (auto simp: e Let_def cd_def np_def split: if_split_asm)
  note clean = cleaned_dir [OF cd_def c(3)]
  have "perm_entry_ok cd np"
    using c clean by (auto simp: perm_entry_ok_def np_def list_ex_iff)
  moreover have "path_Clean ''/'' = ''/''" using path_Clean_good [of "[]"] by simp
  ultimately show ?case
    using Cons.IH [OF rec perms_ok_put [OF Cons.prems(2)]] clean by (auto simp: e gm.get_put gm_get_Cons split: if_splits)
qed simp


lemma validatePermissions_ok:
  assumes "validatePermissions u = Some (None, v)"
  shows "perms_ok (u_Permissions v)" "gm_get (u_Permissions v) ''/'' \<noteq> None"
    "v = u\<lparr>u_Permissions := u_Permissions v\<rparr>"
proof -
  from assms obtain r where r: "permissions_loop [] (u_Permissions u) = Inr r" "gm_get (u_Permissions u) ''/'' \<noteq> None"
    and v: "v = u\<lparr>u_Permissions := r\<rparr>"
    by (auto simp: validatePermissions_def split: if_splits sum.splits)
  have "perms_ok []" by (simp add: perms_ok_def)
  from permissions_loop_ok [OF r(1) this] r(2) v
  show "perms_ok (u_Permissions v)" "gm_get (u_Permissions v) ''/'' \<noteq> None" by simp_all
  show "v = u\<lparr>u_Permissions := u_Permissions v\<rparr>" by (simp add: v)
qed

subsection \<open>Storage\<close>

lemma encrypt_plain_stored: "encrypt_plain C rnd ad s = (None, t) \<Longrightarrow> stored_secret (Some t)"
  by (simp add: stored_secret_def encrypt_plain_not_plain)

lemma SFTP_Validate_secrets:
  "sf_Password (snd (SFTP_Validate kc s)) = empty_if_nil kc (sf_Password s)"
  "sf_PrivateKey (snd (SFTP_Validate kc s)) = empty_if_nil kc (sf_PrivateKey s)"
  by (simp_all add: SFTP_Validate_def setEmptyCredentialsIfNil_def Let_def split: option.splits)

lemma Validate_secrets:
  "s3_AccessSecret (snd (S3_Validate kc c)) \<noteq> None"
  "gcs_Credentials (snd (GCS_Validate kc n g)) \<noteq> None"
  "az_AccountKey (snd (AzBlob_Validate kc up a)) \<noteq> None"
  "sf_Password (snd (SFTP_Validate kc s)) \<noteq> None"
  "sf_PrivateKey (snd (SFTP_Validate kc s)) \<noteq> None"
  "Crypt_Validate p = None \<Longrightarrow> cr_Passphrase p \<noteq> None"
  using empty_if_nil_not_None [of kc "sf_Password s"] empty_if_nil_not_None [of kc "sf_PrivateKey s"]
  by (simp_all add: S3_Validate_def GCS_Validate_def AzBlob_Validate_def SFTP_Validate_secrets
      Crypt_Validate_def Let_def del: empty_if_nil_not_None split: option.splits)

lemma Encrypt_returns:
  "S3_EncryptCredentials C r ad c = None \<longleftrightarrow> s3_AccessSecret c = None"
  "AzBlob_EncryptCredentials C r ad a = None \<longleftrightarrow> az_AccountKey a = None"
  "Crypt_EncryptCredentials C r ad p = None \<longleftrightarrow> cr_Passphrase p = None"
  "sf_Password s \<noteq> None \<Longrightarrow> sf_PrivateKey s \<noteq> None \<Longrightarrow> SFTP_EncryptCredentials C r r' ad s \<noteq> None"
  by (auto simp: S3_EncryptCredentials_def AzBlob_EncryptCredentials_def Crypt_EncryptCredentials_def
      SFTP_EncryptCredentials_def split: option.splits prod.splits)

lemma Encrypt_stored:
  "S3_EncryptCredentials C r ad c = Some (e, c') \<Longrightarrow>
     s3_AccessSecret c' \<noteq> None \<and> (e = None \<longrightarrow> stored_secret (s3_AccessSecret c'))"
  "AzBlob_EncryptCredentials C r ad a = Some (e, a') \<Longrightarrow>
     az_AccountKey a' \<noteq> None \<and> (e = None \<longrightarrow> stored_secret (az_AccountKey a'))"
  "Crypt_EncryptCredentials C r ad p = Some (e, p') \<Longrightarrow>
     cr_Passphrase p' \<noteq> None \<and> (e = None \<longrightarrow> stored_secret (cr_Passphrase p'))"
  by (auto simp: S3_EncryptCredentials_def AzBlob_EncryptCredentials_def Crypt_EncryptCredentials_def
      case_prod_unfold intro!: encrypt_plain_stored prod_eqI)

lemma SFTP_Encrypt_stored:
  assumes "SFTP_EncryptCredentials C r r' ad s = Some (e, s')"
  shows "sf_Password s' \<noteq> None \<and> (sf_PrivateKey s \<noteq> None \<longrightarrow> sf_PrivateKey s' \<noteq> None) \<and>
     (e = None \<longrightarrow> stored_secret (sf_Password s') \<and> stored_secret (sf_PrivateKey s'))"
  using assms by (auto simp: SFTP_EncryptCredentials_def dest: encrypt_plain_stored split: option.splits prod.splits)

lemma validate_encrypt_returns:
  assumes "fst r = None \<Longrightarrow> enc (snd r) \<noteq> None"
  shows "validate_encrypt m1 m2 r enc bad good \<noteq> None"
  using assms by (auto simp: validate_encrypt_def simp del: not_None_eq split: prod.splits option.splits)

text \<open>A property of the results: the configuration of a result comes from the validation or the encryption.\<close>

lemma validate_encrypt_result:
  assumes "validate_encrypt m1 m2 r enc bad good = Some (e, f')"
    and "\<And>x. fst r = Some x \<Longrightarrow> Q False (bad (snd r))"
    and "\<And>x c'. fst r = None \<Longrightarrow> enc (snd r) = Some (Some x, c') \<Longrightarrow> Q False (bad c')"
    and "\<And>c'. fst r = None \<Longrightarrow> enc (snd r) = Some (None, c') \<Longrightarrow> Q True (good c')"
  shows "Q (e = None) f'"
  using assms by (auto simp: validate_encrypt_def vok_def verror_def split: prod.splits option.splits)

lemma validateFilesystemConfig_returns: "validateFilesystemConfig E ad cp files f \<noteq> None"
  unfolding validateFilesystemConfig_def Let_def
  by (simp add: validate_encrypt_returns Encrypt_returns Validate_secrets del: not_None_eq)
    (intro impI validate_encrypt_returns, simp add: Encrypt_returns Validate_secrets del: not_None_eq)

text \<open>
  Every configuration that is accepted, and every rejected one that had no nil
  secret, has none; and an accepted one is encrypted, GCS credentials apart.
\<close>

definition config_result :: "Filesystem \<Rightarrow> bool \<Rightarrow> Filesystem \<Rightarrow> bool" where
  "config_result f ok f' =
     ((ok \<or> None \<notin> set (provider_secrets f) \<longrightarrow> None \<notin> set (provider_secrets f')) \<and>
      (ok \<longrightarrow> fc_Provider f' = GCSFilesystemProvider \<or> storage_ok f'))"

lemmas config_result_simps = config_result_def provider_secrets_def reset_configs_def storage_ok_def eq_commute [of None]

lemma validateFilesystemConfig_result:
  assumes "validateFilesystemConfig E ad cp files f = Some (e, f')"
  shows "config_result f (e = None) f'"
proof -
  note res = validate_encrypt_result [where Q = "config_result f"]
  note branch = assms [unfolded validateFilesystemConfig_def Let_def]
  consider (s3) "fc_Provider f = S3FilesystemProvider" | (gcs) "fc_Provider f = GCSFilesystemProvider"
    | (az) "fc_Provider f = AzureBlobFilesystemProvider" | (cr) "fc_Provider f = CryptedFilesystemProvider"
    | (sf) "fc_Provider f = SFTPFilesystemProvider"
    | (other) "fc_Provider f \<notin> {1, 2, 3, 4, 5}" by auto
  then show ?thesis
  proof cases
    case s3
    show ?thesis
      by (rule res [OF branch [unfolded s3, simplified]])
        (use s3 Validate_secrets(1) [of "ve_kms E" "fc_S3Config f"] in
          \<open>auto simp: config_result_simps simp del: not_None_eq dest!: Encrypt_stored\<close>)
  next
    case gcs
    show ?thesis
      by (rule res [OF branch [unfolded gcs, simplified]])
        (use gcs Validate_secrets(2) [of "ve_kms E" _ "fc_GCSConfig f"] in
          \<open>auto simp: config_result_simps simp del: not_None_eq\<close>)
  next
    case az
    show ?thesis
      by (rule res [OF branch [unfolded az, simplified]])
        (use az Validate_secrets(3) [of "ve_kms E" "ve_url_Parse E" "fc_AzBlobConfig f"] in
          \<open>auto simp: config_result_simps simp del: not_None_eq dest!: Encrypt_stored\<close>)
  next
    case cr
    show ?thesis
      by (rule res [OF branch [unfolded cr, simplified]])
        (use cr in \<open>auto simp: config_result_simps simp del: not_None_eq dest!: Encrypt_stored\<close>)
  next
    case sf
    show ?thesis
      by (rule res [OF branch [unfolded sf, simplified]])
        (use sf Validate_secrets(4,5) [of "ve_kms E" "fc_SFTPConfig f"] in
          \<open>auto simp: config_result_simps simp del: not_None_eq dest!: SFTP_Encrypt_stored\<close>)
  next
    case other
    then show ?thesis using assms
      by (auto simp: validateFilesystemConfig_def vok_def config_result_simps)
  qed
qed

lemma saveGCSCredentials_result:
  assumes "saveGCSCredentials E ad cp (f, files) = Some (e, f', files')"
  shows "None \<notin> set (provider_secrets f) \<Longrightarrow> None \<notin> set (provider_secrets f')"
    and "e = None \<Longrightarrow> fc_Provider f = GCSFilesystemProvider \<or> storage_ok f \<Longrightarrow> storage_ok f'"
proof -
  show "None \<notin> set (provider_secrets f) \<Longrightarrow> None \<notin> set (provider_secrets f')"
    using assms by (auto simp: saveGCSCredentials_def provider_secrets_def vok_def verror_def
        split: if_splits option.splits prod.splits)
  assume ok: "e = None" "fc_Provider f = GCSFilesystemProvider \<or> storage_ok f"
  have storage: "storage_ok f' = stored_secret (gcs_Credentials (fc_GCSConfig f'))"
    if "fc_Provider f' = GCSFilesystemProvider" for f' using that by (simp add: storage_ok_def provider_secrets_def)
  show "storage_ok f'"
  proof (cases "fc_Provider f = GCSFilesystemProvider")
    case True
    then obtain cr where cr: "gcs_Credentials (fc_GCSConfig f) = Some cr"
      using assms by (cases "gcs_Credentials (fc_GCSConfig f)") (simp_all add: saveGCSCredentials_def)
    obtain e' cr' where enc: "encrypt_plain (ve_crypto E) (ve_rnd E cr) ad cr = (e', cr')" by fastforce
    have "stored_secret (Some (NewEmptySecret (ve_kms E)))"
      by (simp add: stored_secret_def NewEmptySecret_def newSecret_def)
    then show ?thesis
      using assms ok(1) True cr enc encrypt_plain_stored [of "ve_crypto E" "ve_rnd E cr" ad cr cr']
      by (cases e') (auto simp: saveGCSCredentials_def storage stored_secret_def [of "Some cr"] split: if_split_asm)
  next
    case False
    with assms ok show ?thesis by (simp add: saveGCSCredentials_def)
  qed
qed

lemma saveGCSCredentials_returns:
  "None \<notin> set (provider_secrets f) \<Longrightarrow> saveGCSCredentials E ad cp (f, files) \<noteq> None"
  by (auto simp: saveGCSCredentials_def provider_secrets_def Let_def vok_def verror_def split: option.splits prod.splits)


subsection \<open>Folders\<close>

abbreviation folder_secrets :: "BaseVirtualFolder \<Rightarrow> Secret option set" where
  "folder_secrets v \<equiv> set (provider_secrets (bf_FsConfig v))"

lemma folder_storage_result:
  assumes "folder_storage E v files = Some (e, v', files')"
  shows "v' = v\<lparr>bf_FsConfig := bf_FsConfig v'\<rparr>" "None \<notin> folder_secrets v \<Longrightarrow> None \<notin> folder_secrets v'"
    "e = None \<Longrightarrow> storage_ok (bf_FsConfig v')"
proof -
  define ad where "ad = Folder_GetEncrytionAdditionalData v"
  define cp where "cp = Folder_GetGCSCredentialsFilePath (ve_credentialsDirPath E) v"
  obtain e1 f1 where v1: "validateFilesystemConfig E ad cp files (bf_FsConfig v) = Some (e1, f1)"
    using validateFilesystemConfig_returns by (metis option.exhaust surj_pair)
  note c1 = validateFilesystemConfig_result [OF v1, unfolded config_result_def]
  show "v' = v\<lparr>bf_FsConfig := bf_FsConfig v'\<rparr>" "None \<notin> folder_secrets v \<Longrightarrow> None \<notin> folder_secrets v'"
    "e = None \<Longrightarrow> storage_ok (bf_FsConfig v')"
    using assms v1 c1
    by (cases e1; auto simp: folder_storage_def lift_fs_def lift_fs_files_def put_folder_fs_def vseq_def
        simp flip: ad_def cp_def dest: saveGCSCredentials_result)+
qed

lemma folder_storage_returns: "folder_storage E v files \<noteq> None"
proof -
  define ad where "ad = Folder_GetEncrytionAdditionalData v"
  define cp where "cp = Folder_GetGCSCredentialsFilePath (ve_credentialsDirPath E) v"
  obtain e1 f1 where v1: "validateFilesystemConfig E ad cp files (bf_FsConfig v) = Some (e1, f1)"
    using validateFilesystemConfig_returns by (metis option.exhaust surj_pair)
  show ?thesis
    using v1 validateFilesystemConfig_result [OF v1, unfolded config_result_def] saveGCSCredentials_returns [of f1]
    by (cases e1; simp add: folder_storage_def lift_fs_def lift_fs_files_def put_folder_fs_def vseq_def
        del: not_None_eq flip: ad_def cp_def)
qed



lemma validate_encrypt_provider:
  assumes "validate_encrypt m1 m2 r enc bad good = Some (e, f')"
  shows "(\<exists>c. f' = bad c) \<or> (\<exists>c. f' = good c)"
  using assms by (auto simp: validate_encrypt_def vok_def verror_def split: prod.splits option.splits)

lemma validateFilesystemConfig_provider:
  assumes "validateFilesystemConfig E ad cp files f = Some (e, f')"
  shows "fc_Provider f' = (if fc_Provider f \<in> {0, 1, 2, 3, 4, 5} then fc_Provider f else 0)"
  using assms by (auto simp: validateFilesystemConfig_def Let_def reset_configs_def vok_def
      dest!: validate_encrypt_provider split: if_splits)

lemma folder_storage_provider:
  assumes "folder_storage E v files = Some (e, v', files')"
  shows "known_provider v'" "fc_Provider (bf_FsConfig v') = (if known_provider v then fc_Provider (bf_FsConfig v) else 0)"
proof -
  define ad where "ad = Folder_GetEncrytionAdditionalData v"
  define cp where "cp = Folder_GetGCSCredentialsFilePath (ve_credentialsDirPath E) v"
  obtain e1 f1 where v1: "validateFilesystemConfig E ad cp files (bf_FsConfig v) = Some (e1, f1)"
    using validateFilesystemConfig_returns by (metis option.exhaust surj_pair)
  have save: "saveGCSCredentials E ad cp (f1, files) = Some (e2, f2, fs2) \<Longrightarrow> fc_Provider f2 = fc_Provider f1" for e2 f2 fs2
    by (auto simp: saveGCSCredentials_def Let_def vok_def verror_def split: if_splits option.splits prod.splits)
  have "fc_Provider (bf_FsConfig v') = fc_Provider f1"
    using assms v1 by (cases e1) (auto simp: folder_storage_def lift_fs_def lift_fs_files_def put_folder_fs_def vseq_def
        simp flip: ad_def cp_def dest: save)
  moreover have "fc_Provider f1 = (if known_provider v then fc_Provider (bf_FsConfig v) else 0)"
    using validateFilesystemConfig_provider [OF v1] by (simp add: known_provider_def)
  ultimately show "known_provider v'"
    "fc_Provider (bf_FsConfig v') = (if known_provider v then fc_Provider (bf_FsConfig v) else 0)"
    by (auto simp: known_provider_def)
qed

lemma ValidateFolder_cases:
  assumes "ValidateFolder E (v, files) = Some (e, v', files')"
  obtains (bad_name) "e \<noteq> None" "v' = v" "bf_Name v = '''' \<or> \<not> natural_key_ok E (bf_Name v)"
  | (mapped) "e \<noteq> None" "v' = v" "IsLocalOrLocalCrypted v \<or> bf_MappedPath v \<noteq> ''''"
  | (redacted) m where "e \<noteq> None" "v' = v\<lparr>bf_MappedPath := m\<rparr>" "any_redacted (provider_secrets (bf_FsConfig v)) = Some True"
  | (cleaned) "bf_Name v \<noteq> ''''" "natural_key_ok E (bf_Name v)" "IsLocalOrLocalCrypted v \<or> bf_MappedPath v \<noteq> ''''"
      "clean_abs (path_Clean (bf_MappedPath v))"
      "folder_storage E (v\<lparr>bf_MappedPath := path_Clean (bf_MappedPath v)\<rparr>) files = Some (e, v', files')"
  | (free) "bf_Name v \<noteq> ''''" "natural_key_ok E (bf_Name v)" "\<not> IsLocalOrLocalCrypted v" "bf_MappedPath v = ''''"
      "folder_storage E v files = Some (e, v', files')"
proof (cases "bf_Name v = '''' \<or> \<not> natural_key_ok E (bf_Name v)")
  case True
  then show thesis using assms bad_name by (auto simp: ValidateFolder_def verror_def split: if_splits)
next
  case ok: False
  show thesis
  proof (cases "IsLocalOrLocalCrypted v \<or> bf_MappedPath v \<noteq> ''''")
    case True
    show thesis
    proof (cases "path_IsAbs (bf_MappedPath v)")
      case abs: True
      then show thesis using ok True assms redacted [of "path_Clean (bf_MappedPath v)"] cleaned
        by (auto simp: ValidateFolder_def Let_def IsLocalOrLocalCrypted_def HasRedactedSecret_def
            split: option.splits bool.splits)
    qed (use ok True assms mapped in \<open>auto simp: ValidateFolder_def IsLocalOrLocalCrypted_def verror_def\<close>)
  next
    case False
    then show thesis using ok assms redacted [of "bf_MappedPath v"] free
      by (auto simp: ValidateFolder_def IsLocalOrLocalCrypted_def HasRedactedSecret_def
          split: option.splits bool.splits)
  qed
qed

lemma ValidateFolder_result:
  assumes "ValidateFolder E (v, files) = Some (e, v', files')"
  shows "None \<notin> folder_secrets v \<Longrightarrow> None \<notin> folder_secrets v'"
    "e = None \<Longrightarrow> known_provider v \<or> bf_MappedPath v \<noteq> '''' \<Longrightarrow> base_folder_ok E v'"
    "e = None \<Longrightarrow> known_provider v'"
proof -
  show "None \<notin> folder_secrets v \<Longrightarrow> None \<notin> folder_secrets v'"
    using assms by (cases rule: ValidateFolder_cases) (auto dest: folder_storage_result(2))
  assume e: "e = None"
  from assms show known: "known_provider v'"
    by (cases rule: ValidateFolder_cases) (use e in \<open>auto dest: folder_storage_provider\<close>)
  assume k: "known_provider v \<or> bf_MappedPath v \<noteq> ''''"
  from assms show "base_folder_ok E v'"
  proof (cases rule: ValidateFolder_cases)
    case cleaned
    obtain f where "v' = v\<lparr>bf_MappedPath := path_Clean (bf_MappedPath v), bf_FsConfig := f\<rparr>"
      using folder_storage_result(1) [OF cleaned(5)] by auto
    with folder_storage_result(3) [OF cleaned(5) e] cleaned known show ?thesis by (simp add: base_folder_ok_def)
  next
    case free
    obtain f where "v' = v\<lparr>bf_FsConfig := f\<rparr>" using folder_storage_result(1) [OF free(5)] by auto
    with folder_storage_result(3) [OF free(5) e] free k folder_storage_provider [OF free(5) [unfolded e]]
    show ?thesis using known by (simp add: base_folder_ok_def IsLocalOrLocalCrypted_def)
  qed (use e in auto)
qed

lemma ValidateFolder_returns: "None \<notin> folder_secrets v \<Longrightarrow> ValidateFolder E (v, files) \<noteq> None"
  by (auto simp: ValidateFolder_def Let_def HasRedactedSecret_def any_redacted_iff verror_def folder_storage_returns
      simp del: not_None_eq split: bool.splits)

text \<open>What the stored folders that a lookup returns satisfy.\<close>

definition lookup_ok :: "(string \<Rightarrow> BaseVirtualFolder option) \<Rightarrow> bool" where
  "lookup_ok lookup \<longleftrightarrow> (\<forall>n f. lookup n = Some f \<longrightarrow> None \<notin> folder_secrets f \<and> known_provider f)"

lemma getVirtualFolderIfInvalid_returns:
  assumes "None \<notin> folder_secrets v" "lookup_ok lookup"
  shows "\<exists>v' files'. getVirtualFolderIfInvalid E lookup (v, files) = Some (v', files') \<and> None \<notin> folder_secrets v'"
proof -
  obtain e v1 files1 where v1: "ValidateFolder E (v, files) = Some (e, v1, files1)"
    using ValidateFolder_returns [OF assms(1)] by (metis option.exhaust surj_pair)
  from ValidateFolder_result(1) [OF v1 assms(1)] v1 assms(2) show ?thesis
    by (cases e) (auto simp: getVirtualFolderIfInvalid_def lookup_ok_def split: option.split)
qed

lemma validated_twice_ok:
  assumes "getVirtualFolderIfInvalid E lookup (v, files) = Some (v1, files1)"
    and two: "ValidateFolder E (v1, files1) = Some (None, v2, files2)" and lookup: "lookup_ok lookup"
  shows "base_folder_ok E v2"
proof (rule ValidateFolder_result(2) [OF two refl])
  obtain e v0 files0 where one: "ValidateFolder E (v, files) = Some (e, v0, files0)"
    using assms(1) by (cases "ValidateFolder E (v, files)") (auto simp: getVirtualFolderIfInvalid_def)
  have named: "bf_Name v1 \<noteq> ''''" "natural_key_ok E (bf_Name v1)"
    using two by (cases rule: ValidateFolder_cases; simp)+
  consider (same) "v1 = v0" | (stored) "known_provider v1"
    using assms(1) one lookup by (cases e) (auto simp: getVirtualFolderIfInvalid_def lookup_ok_def split: if_splits option.splits)
  then show "known_provider v1 \<or> bf_MappedPath v1 \<noteq> ''''"
  proof cases
    case same
    from one show ?thesis
    proof (cases rule: ValidateFolder_cases)
      case mapped
      then show ?thesis by (auto simp: same known_provider_def IsLocalOrLocalCrypted_def)
    next
      case (redacted m)
      then show ?thesis by (auto simp: same known_provider_def provider_secrets_def split: if_splits)
    qed (use named same folder_storage_provider(1) in auto)
  qed simp
qed

lemma folders_loop_returns:
  assumes "lookup_ok lookup" "\<forall>v \<in> set vs. None \<notin> folder_secrets (vf_Base v)"
  shows "folders_loop E lookup home mapped virtual acc vs files \<noteq> None"
  using assms(2)
proof (induction vs arbitrary: mapped virtual acc files)
  case (Cons v vs)
  then have "None \<notin> folder_secrets (vf_Base v)" by simp
  from getVirtualFolderIfInvalid_returns [OF this assms(1)] obtain v1 files1 where
    v1: "getVirtualFolderIfInvalid E lookup (vf_Base v, files) = Some (v1, files1)" "None \<notin> folder_secrets v1" by blast
  obtain e v2 files2 where v2: "ValidateFolder E (v1, files1) = Some (e, v2, files2)"
    using ValidateFolder_returns [OF v1(2)] by (metis option.exhaust surj_pair)
  show ?case
    using Cons v1(1) v2 by (cases e) (auto simp: Let_def vok_def verror_def split: option.splits)
qed (simp add: vok_def)

lemma limits_ok_iff: "validateFolderQuotaLimits v = None \<longleftrightarrow> limits_ok v"
  by (auto simp: validateFolderQuotaLimits_def limits_ok_def)

lemma overlapped_False [simp]:
  "isMappedDirOverlapped d1 d2 False \<longleftrightarrow> d1 = d2" "isVirtualDirOverlapped d1 d2 False \<longleftrightarrow> d1 = d2"
  by (simp_all add: isMappedDirOverlapped_def isVirtualDirOverlapped_def)

lemma user_folders_ok_snoc:
  "user_folders_ok E home (vs @ [v]) \<longleftrightarrow>
     user_folders_ok E home vs \<and> clean_abs (vf_VirtualPath v) \<and> vf_VirtualPath v \<noteq> ''/'' \<and> limits_ok v \<and>
     base_folder_ok E (vf_Base v) \<and> vf_VirtualPath v \<notin> set (map vf_VirtualPath vs) \<and>
     (IsLocalOrLocalCrypted (vf_Base v) \<longrightarrow>
        vf_MappedPath v \<notin> set (local_paths vs) \<and> \<not> isMappedDirOverlapped (vf_MappedPath v) home True)"
  by (auto simp: user_folders_ok_def local_paths_def)

lemma folders_loop_ok:
  assumes "folders_loop E lookup home mapped virtual acc vs files = Some (None, r, files')"
    and "user_folders_ok E home acc" "mapped = local_paths acc" "virtual = map vf_VirtualPath acc" "lookup_ok lookup"
  shows "user_folders_ok E home r"
  using assms
proof (induction vs arbitrary: mapped virtual acc files)
  case (Cons v vs)
  define vp where "vp = path_Clean (vf_VirtualPath v)"
  from Cons.prems(1) have vp: "path_IsAbs vp" "vp \<noteq> ''/''" and lim: "validateFolderQuotaLimits v = None"
    by (auto simp: Let_def vp_def verror_def split: if_splits option.splits)
  from Cons.prems(1) vp lim obtain v1 files1 v2 files2 where
    v1: "getVirtualFolderIfInvalid E lookup (vf_Base v, files) = Some (v1, files1)"
    and v2: "ValidateFolder E (v1, files1) = Some (None, v2, files2)"
    by (auto simp: Let_def vp_def split: if_splits option.splits prod.splits)
  note ok2 = validated_twice_ok [OF v1 v2 assms(5)]
  define nv where "nv = \<lparr>vf_Base = v2, vf_VirtualPath = vp, vf_QuotaSize = vf_QuotaSize v, vf_QuotaFiles = vf_QuotaFiles v\<rparr>"
  let ?local = "IsLocalOrLocalCrypted v2"
  have c: "\<not> (?local \<and> isMappedDirOverlapped (bf_MappedPath v2) home True)"
     "\<not> (?local \<and> list_ex (\<lambda>m. isMappedDirOverlapped m (bf_MappedPath v2) False) mapped)"
     "\<not> list_ex (\<lambda>p. isVirtualDirOverlapped p vp False) virtual"
    and rec: "folders_loop E lookup home (if ?local then mapped @ [bf_MappedPath v2] else mapped) (virtual @ [vp])
       (acc @ [nv]) vs files2 = Some (None, r, files')"
    using Cons.prems(1) vp lim v1 v2 by (auto simp: Let_def vp_def [symmetric] nv_def verror_def split: if_splits)
  have "clean_abs vp" "limits_ok nv" using vp(1) lim by (simp_all add: vp_def nv_def limits_ok_iff limits_ok_def)
  then have "user_folders_ok E home (acc @ [nv])"
    using Cons.prems(2-4) c vp ok2 by (auto simp: user_folders_ok_snoc nv_def list_ex_iff)
  from Cons.IH [OF rec this] Cons.prems show ?case
    by (auto simp: nv_def local_paths_def)
qed simp


subsection \<open>The steps of the user validation\<close>

lemma extensions_loop_ok:
  assumes "extensions_loop paths acc fs = Inr r" "filter_paths_ok (map ef_Path acc)" "paths = map ef_Path acc"
  shows "filter_paths_ok (map ef_Path r)"
  using assms
proof (induction paths acc fs rule: extensions_loop.induct)
  case (2 paths acc f fs)
  then show ?case by (auto simp: Let_def filter_paths_ok_def split: if_splits)
qed simp

lemma patterns_loop_ok:
  assumes "patterns_loop paths acc fs = Inr r" "filter_paths_ok (map pf_Path acc)" "paths = map pf_Path acc"
  shows "filter_paths_ok (map pf_Path r)"
  using assms
proof (induction paths acc fs rule: patterns_loop.induct)
  case (2 paths acc f fs)
  then show ?case by (auto simp: Let_def filter_paths_ok_def split: if_splits)
qed simp

lemma proper_subset:
  assumes "length xs < length ys" "distinct ys" "\<not> list_ex (\<lambda>x. \<not> IsStringInSlice x ys) xs"
  shows "set xs \<subset> set ys"
proof -
  have "card (set xs) < card (set ys)"
    using assms(1,2) card_length [of xs] by (simp add: distinct_card)
  then show ?thesis using assms(3) by (auto simp: list_ex_iff)
qed

lemma validateFilters_ok:
  assumes "validateFilters u = Some (None, v)"
  shows "filters_ok (u_Filters v)" "v = u\<lparr>u_Filters := u_Filters v\<rparr>"
proof -
  let ?fl = "u_Filters u"
  have len: "length ValidLoginMethods = 7" "distinct ValidLoginMethods" "length ValidProtocols = 4" "distinct ValidProtocols"
    by (simp_all add: ValidLoginMethods_def ValidProtocols_def)
  from assms have c: "\<not> list_ex (\<lambda>m. net_ParseCIDR m = None) (fl_DeniedIP ?fl)"
      "\<not> list_ex (\<lambda>m. net_ParseCIDR m = None) (fl_AllowedIP ?fl)"
      "\<not> length (fl_DeniedLoginMethods ?fl) \<ge> length ValidLoginMethods"
      "\<not> list_ex (\<lambda>m. \<not> IsStringInSlice m ValidLoginMethods) (fl_DeniedLoginMethods ?fl)"
      "\<not> length (fl_DeniedProtocols ?fl) \<ge> length ValidProtocols"
      "\<not> list_ex (\<lambda>p. \<not> IsStringInSlice p ValidProtocols) (fl_DeniedProtocols ?fl)"
      "\<not> (fl_TLSUsername ?fl \<noteq> '''' \<and> \<not> IsStringInSlice (fl_TLSUsername ?fl) validTLSUsernames)"
      "\<not> list_ex (\<lambda>w. \<not> IsStringInSlice w WebClientOptions) (fl_WebClient ?fl)"
    and f: "validateFileFilters u = Some (None, v)"
    by (simp_all add: validateFilters_def Let_def split: if_split_asm)
  from f obtain es ps where es: "extensions_loop [] [] (fl_FileExtensions ?fl) = Inr es"
    and ps: "patterns_loop [] [] (fl_FilePatterns ?fl) = Inr ps"
    and v: "v = u\<lparr>u_Filters := ?fl\<lparr>fl_FileExtensions := es, fl_FilePatterns := ps\<rparr>\<rparr>"
    by (auto simp: validateFileFilters_def vseq_ok_iff validateFiltersFileExtensions_def
        validateFiltersPatternExtensions_def split: sum.splits)
  have "filter_paths_ok (map ef_Path es)" "filter_paths_ok (map pf_Path ps)"
    using extensions_loop_ok [OF es] patterns_loop_ok [OF ps] by (simp_all add: filter_paths_ok_def)
  moreover have "set (fl_DeniedLoginMethods ?fl) \<subset> set ValidLoginMethods" "set (fl_DeniedProtocols ?fl) \<subset> set ValidProtocols"
    using c len by (intro proper_subset; simp)+
  ultimately show "filters_ok (u_Filters v)"
    using c by (auto simp: v filters_ok_def list_ex_iff list_all_iff)
  show "v = u\<lparr>u_Filters := u_Filters v\<rparr>" by (simp add: v)
qed

lemma on_user_ok: "on_user f (u, files) = Some (None, s) \<longleftrightarrow> (\<exists>v. f u = Some (None, v) \<and> s = (v, files))"
  by (auto simp: on_user_def)

lemma on_user_returns: "on_user f s = None \<longleftrightarrow> f (fst s) = None"
  by (auto simp: on_user_def)

lemma validateUserVirtualFolders_ok:
  assumes "validateUserVirtualFolders E lookup (u, files) = Some (None, v, files')" "lookup_ok lookup"
  shows "user_folders_ok E (User_GetHomeDir u) (u_VirtualFolders v)" "v = u\<lparr>u_VirtualFolders := u_VirtualFolders v\<rparr>"
proof -
  have empty: "user_folders_ok E (User_GetHomeDir u) []" by (simp add: user_folders_ok_def local_paths_def)
  show "user_folders_ok E (User_GetHomeDir u) (u_VirtualFolders v)"
    using assms folders_loop_ok [OF _ empty] empty
    by (auto simp: validateUserVirtualFolders_def local_paths_def split: if_splits option.splits)
  show "v = u\<lparr>u_VirtualFolders := u_VirtualFolders v\<rparr>"
    using assms by (auto simp: validateUserVirtualFolders_def split: if_splits option.splits)
qed

text \<open>The hash functions produce the prefixes by which the code recognises a hash.\<close>

definition hashes_recognised :: "venv \<Rightarrow> bool" where
  "hashes_recognised E \<longleftrightarrow>
     (\<forall>p h. ve_bcrypt E p = Some h \<longrightarrow> strings_HasPrefix h ''$2a$'') \<and>
     (\<forall>p h. ve_argon2id E p = Some h \<longrightarrow> strings_HasPrefix h ''$argon2id$'')"

lemma IsPasswordHashed_prefix:
  "strings_HasPrefix (u_Password u) p \<Longrightarrow> p \<in> set hashPwdPrefixes \<Longrightarrow> IsPasswordHashed u"
  by (auto simp: IsPasswordHashed_def IsStringPrefixInSlice_iff strings_HasPrefix_def)

lemma createUserPasswordHash_ok:
  assumes "createUserPasswordHash E u = Some (None, v)" "hashes_recognised E"
  shows "u_Password v = '''' \<longleftrightarrow> u_Password u = ''''" "u_Password v = '''' \<or> IsPasswordHashed v"
    "v = u\<lparr>u_Password := u_Password v\<rparr>"
proof -
  have "(u_Password v = '''' \<longleftrightarrow> u_Password u = '''') \<and> (u_Password v = '''' \<or> IsPasswordHashed v) \<and>
      v = u\<lparr>u_Password := u_Password v\<rparr>"
  proof (cases "u_Password u \<noteq> '''' \<and> \<not> IsPasswordHashed u")
    case True
    then obtain h where h: "(if ve_useBcrypt E then ve_bcrypt E else ve_argon2id E) (u_Password u) = Some h"
      and v: "v = u\<lparr>u_Password := h\<rparr>"
      using assms(1) by (auto simp: createUserPasswordHash_def split: option.splits)
    obtain p where p: "strings_HasPrefix h p" "p \<in> set hashPwdPrefixes" "p \<noteq> ''''"
    proof (cases "ve_useBcrypt E")
      case True
      show ?thesis by (rule that [of "''$2a$''"])
          (use h True assms(2) in \<open>auto simp: hashes_recognised_def hashPwdPrefixes_def\<close>)
    next
      case False
      show ?thesis by (rule that [of "''$argon2id$''"])
          (use h False assms(2) in \<open>auto simp: hashes_recognised_def hashPwdPrefixes_def\<close>)
    qed
    then have "h \<noteq> ''''" by (auto simp: strings_HasPrefix_def)
    with p True IsPasswordHashed_prefix [of v p] show ?thesis by (simp add: v)
  qed (use assms(1) in \<open>auto simp: createUserPasswordHash_def\<close>)
  then show "u_Password v = '''' \<longleftrightarrow> u_Password u = ''''" "u_Password v = '''' \<or> IsPasswordHashed v"
    "v = u\<lparr>u_Password := u_Password v\<rparr>" by blast+
qed


lemma user_fs_steps:
  assumes "validate_user_fs E (u, files) = Some (e, v, files')"
  shows "v = u\<lparr>u_FsConfig := u_FsConfig v\<rparr>" "files' = files" "config_result (u_FsConfig u) (e = None) (u_FsConfig v)"
  using assms by (auto simp: validate_user_fs_def lift_fs_def put_user_fs_def dest: validateFilesystemConfig_result)

lemma save_user_credentials_ok:
  assumes "save_user_credentials E (u, files) = Some (None, v, files')"
    "fc_Provider (u_FsConfig u) = GCSFilesystemProvider \<or> storage_ok (u_FsConfig u)"
  shows "v = u\<lparr>u_FsConfig := u_FsConfig v\<rparr>" "storage_ok (u_FsConfig v)"
  using assms by (auto simp: save_user_credentials_def lift_fs_files_def put_user_fs_def dest: saveGCSCredentials_result)

lemma simple_steps_ok:
  "validateBaseParams E u = Some (None, v) \<Longrightarrow> v = u \<and> u_Username u \<noteq> '''' \<and> natural_key_ok E (u_Username u) \<and>
     path_IsAbs (u_HomeDir u) \<and> (u_Password u \<noteq> '''' \<or> u_PublicKeys u \<noteq> [])"
  "redacted_check u = Some (None, v) \<Longrightarrow> v = u"
  "status_check u = Some (None, v) \<Longrightarrow> v = u \<and> (u_Status u = 0 \<or> u_Status u = 1)"
  "validatePublicKeys E u = Some (None, v) \<Longrightarrow> v = u \<and> list_all (ve_ParseAuthorizedKey E) (u_PublicKeys u)"
  by (auto simp: validateBaseParams_def redacted_check_def status_check_def validatePublicKeys_def list_ex_iff list_all_iff
      split: if_splits option.splits bool.splits)

text \<open>No secret that the validation looks at is nil.\<close>

definition no_nil_secrets :: "User \<Rightarrow> bool" where
  "no_nil_secrets u \<longleftrightarrow> None \<notin> set (provider_secrets (u_FsConfig u)) \<and>
     (\<forall>v \<in> set (u_VirtualFolders u). None \<notin> folder_secrets (vf_Base v))"

lemma no_nil_secrets_SetEmpty: "no_nil_secrets (User_SetEmptySecretsIfNil kc u)"
  by (auto simp: no_nil_secrets_def User_SetEmptySecretsIfNil_def set_folder_secrets_def SetEmptySecretsIfNil_def
      provider_secrets_def eq_commute [of None] simp del: not_None_eq split: if_splits)

lemma no_nil_secrets_buildUserHomeDir: "no_nil_secrets (buildUserHomeDir E u) = no_nil_secrets u"
  by (simp add: no_nil_secrets_def buildUserHomeDir_def)

lemma any_folder_redacted_returns:
  "\<forall>v \<in> set vs. None \<notin> folder_secrets (vf_Base v) \<Longrightarrow> any_folder_redacted vs \<noteq> None"
  by (induction vs) (auto simp: HasRedactedSecret_def any_redacted_iff split: bool.splits option.splits)

lemma redacted_check_returns: "no_nil_secrets u \<Longrightarrow> redacted_check u \<noteq> None"
  using any_folder_redacted_returns [of "u_VirtualFolders u"]
  by (auto simp: no_nil_secrets_def redacted_check_def hasRedactedSecret_def any_redacted_iff vok_def
      split: bool.splits option.splits)

lemma simple_steps_return:
  "validateBaseParams E u \<noteq> None" "validatePermissions u \<noteq> None" "status_check u \<noteq> None"
  "createUserPasswordHash E u \<noteq> None" "validatePublicKeys E u \<noteq> None" "validateFilters u \<noteq> None"
  by (auto simp: validateBaseParams_def validatePermissions_def status_check_def createUserPasswordHash_def
      validatePublicKeys_def validateFilters_def validateFileFilters_def validateFiltersFileExtensions_def
      validateFiltersPatternExtensions_def Let_def vok_def verror_def vseq_def split: option.splits sum.splits)

lemma validate_user_fs_returns: "validate_user_fs E (u, files) \<noteq> None"
  using validateFilesystemConfig_returns by (simp add: validate_user_fs_def lift_fs_def del: not_None_eq)

lemma save_user_credentials_returns: "no_nil_secrets u \<Longrightarrow> save_user_credentials E (u, files) \<noteq> None"
  by (simp add: save_user_credentials_def lift_fs_files_def no_nil_secrets_def saveGCSCredentials_returns del: not_None_eq)

lemma validateUserVirtualFolders_returns:
  "no_nil_secrets u \<Longrightarrow> lookup_ok lookup \<Longrightarrow> validateUserVirtualFolders E lookup (u, files) \<noteq> None"
  using folders_loop_returns [of lookup "u_VirtualFolders u" E "User_GetHomeDir u" "[]" "[]" "[]" files]
  by (auto simp: validateUserVirtualFolders_def no_nil_secrets_def vok_def split: option.splits)

text \<open>A step that does not panic on a user without nil secrets, and introduces none.\<close>

definition safe_step :: "(User \<times> files \<Rightarrow> (User \<times> files) vres) \<Rightarrow> bool" where
  "safe_step f \<longleftrightarrow> (\<forall>s. no_nil_secrets (fst s) \<longrightarrow> f s \<noteq> None \<and> (\<forall>s'. f s = Some (None, s') \<longrightarrow> no_nil_secrets (fst s')))"

lemma safe_step_seq: "safe_step f \<Longrightarrow> safe_step g \<Longrightarrow> safe_step (\<lambda>s. vseq (f s) g)"
  unfolding safe_step_def
proof (intro allI impI)
  fix s :: "User \<times> files"
  assume fg: "\<forall>s. no_nil_secrets (fst s) \<longrightarrow> f s \<noteq> None \<and> (\<forall>s'. f s = Some (None, s') \<longrightarrow> no_nil_secrets (fst s'))"
    "\<forall>s. no_nil_secrets (fst s) \<longrightarrow> g s \<noteq> None \<and> (\<forall>s'. g s = Some (None, s') \<longrightarrow> no_nil_secrets (fst s'))"
    and s: "no_nil_secrets (fst s)"
  then obtain e t where f: "f s = Some (e, t)" by (metis option.exhaust surj_pair)
  show "vseq (f s) g \<noteq> None \<and> (\<forall>s'. vseq (f s) g = Some (None, s') \<longrightarrow> no_nil_secrets (fst s'))"
  proof (cases e)
    case None
    with f fg(1) s have "no_nil_secrets (fst t)" by blast
    moreover have "vseq (f s) g = g t" using f None by (simp add: vseq_def)
    ultimately show ?thesis using fg(2) by metis
  qed (use f in \<open>simp add: vseq_def\<close>)
qed

lemma safe_step_on_user:
  assumes "\<And>u. no_nil_secrets u \<Longrightarrow> f u \<noteq> None"
    and "\<And>u v. f u = Some (None, v) \<Longrightarrow> u_FsConfig v = u_FsConfig u \<and> u_VirtualFolders v = u_VirtualFolders u"
  shows "safe_step (on_user f)"
  using assms by (auto simp: safe_step_def on_user_returns on_user_ok no_nil_secrets_def simp del: not_None_eq)

lemma safe_simple_steps:
  "safe_step (on_user (validateBaseParams E))" "safe_step (on_user validatePermissions)" "safe_step (on_user redacted_check)"
  "safe_step (on_user status_check)" "safe_step (on_user (createUserPasswordHash E))"
  "safe_step (on_user (validatePublicKeys E))" "safe_step (on_user validateFilters)"
proof -
  show "safe_step (on_user (validateBaseParams E))" "safe_step (on_user redacted_check)"
    "safe_step (on_user status_check)" "safe_step (on_user (validatePublicKeys E))"
    by (rule safe_step_on_user; auto simp: simple_steps_return redacted_check_returns simp del: not_None_eq dest: simple_steps_ok)+
  show "safe_step (on_user validatePermissions)"
    by (rule safe_step_on_user) (simp_all add: simple_steps_return del: not_None_eq,
        drule validatePermissions_ok(3), erule ssubst, simp)
  show "safe_step (on_user validateFilters)"
    by (rule safe_step_on_user) (simp_all add: simple_steps_return del: not_None_eq,
        drule validateFilters_ok(2), erule ssubst, simp)
  show "safe_step (on_user (createUserPasswordHash E))"
    by (rule safe_step_on_user) (auto simp: simple_steps_return createUserPasswordHash_def simp del: not_None_eq
        split: if_splits option.splits)
qed

lemma storage_ok_not_nil: "storage_ok f \<Longrightarrow> None \<notin> set (provider_secrets f)"
  by (auto simp: storage_ok_def list_all_iff stored_secret_def)

lemma safe_fs_steps:
  "safe_step (validate_user_fs E)" "safe_step (save_user_credentials E)"
  "lookup_ok lookup \<Longrightarrow> safe_step (validateUserVirtualFolders E lookup)"
proof -
  have folders: "no_nil_secrets (u\<lparr>u_FsConfig := f\<rparr>)" if "no_nil_secrets u" "None \<notin> set (provider_secrets f)" for u f
    using that by (simp add: no_nil_secrets_def)
  show "safe_step (validate_user_fs E)"
    unfolding safe_step_def
  proof (intro allI impI conjI)
    fix s s' :: "User \<times> files" assume nn: "no_nil_secrets (fst s)"
    show "validate_user_fs E s \<noteq> None" using validate_user_fs_returns by (cases s) auto
    assume "validate_user_fs E s = Some (None, s')"
    then show "no_nil_secrets (fst s')"
      using nn by (cases s; cases s') (auto simp: validate_user_fs_def lift_fs_def put_user_fs_def config_result_def
          dest!: validateFilesystemConfig_result intro!: folders)
  qed
  show "safe_step (save_user_credentials E)"
    unfolding safe_step_def
  proof (intro allI impI conjI)
    fix s s' :: "User \<times> files" assume nn: "no_nil_secrets (fst s)"
    then show "save_user_credentials E s \<noteq> None" using save_user_credentials_returns by (cases s) auto
    assume "save_user_credentials E s = Some (None, s')"
    then show "no_nil_secrets (fst s')"
      using nn folders by (cases s; cases s')
        (auto simp: save_user_credentials_def lift_fs_files_def put_user_fs_def no_nil_secrets_def dest: saveGCSCredentials_result(1))
  qed
  assume l: "lookup_ok lookup"
  show "safe_step (validateUserVirtualFolders E lookup)"
    unfolding safe_step_def
  proof (intro allI impI conjI)
    fix s s' :: "User \<times> files" assume nn: "no_nil_secrets (fst s)"
    then show "validateUserVirtualFolders E lookup s \<noteq> None"
      using validateUserVirtualFolders_returns l by (cases s) auto
    obtain u files u' files' where s: "s = (u, files)" "s' = (u', files')" by (metis surj_pair)
    assume "validateUserVirtualFolders E lookup s = Some (None, s')"
    from validateUserVirtualFolders_ok [OF this [unfolded s] l] obtain vs where
      "u' = u\<lparr>u_VirtualFolders := vs\<rparr>" "user_folders_ok E (User_GetHomeDir u) vs" by auto
    then show "no_nil_secrets (fst s')"
      using nn by (auto simp: s no_nil_secrets_def user_folders_ok_def base_folder_ok_def list_all_iff
          dest: storage_ok_not_nil)
  qed
qed

lemma validated_user_ok:
  assumes "ValidateUser E lookup (u, files) = Some (None, v, files')" "lookup_ok lookup" "hashes_recognised E"
  shows "user_ok E v"
proof -
  from assms(1) obtain u1 u2 u3 u4 fs4 u5 fs5 u6 u7 u8 u9 where
    s1: "validateBaseParams E (buildUserHomeDir E (User_SetEmptySecretsIfNil (ve_kms E) u)) = Some (None, u1)"
    and s2: "validatePermissions u1 = Some (None, u2)" and s3: "redacted_check u2 = Some (None, u3)"
    and s4: "validate_user_fs E (u3, files) = Some (None, u4, fs4)"
    and s5: "validateUserVirtualFolders E lookup (u4, fs4) = Some (None, u5, fs5)"
    and s6: "status_check u5 = Some (None, u6)" and s7: "createUserPasswordHash E u6 = Some (None, u7)"
    and s8: "validatePublicKeys E u7 = Some (None, u8)" and s9: "validateFilters u8 = Some (None, u9)"
    and s10: "save_user_credentials E (u9, fs5) = Some (None, v, files')"
    by (auto simp: ValidateUser_def vseq_ok_iff on_user_ok)
  obtain ps f4 vs pw fl where
    e2: "u2 = u1\<lparr>u_Permissions := ps\<rparr>" and e4: "u4 = u3\<lparr>u_FsConfig := f4\<rparr>" and e5: "u5 = u4\<lparr>u_VirtualFolders := vs\<rparr>"
    and e7: "u7 = u6\<lparr>u_Password := pw\<rparr>" and e9: "u9 = u8\<lparr>u_Filters := fl\<rparr>"
    using validatePermissions_ok(3) [OF s2] user_fs_steps(1) [OF s4] validateUserVirtualFolders_ok(2) [OF s5 assms(2)]
      createUserPasswordHash_ok(3) [OF s7 assms(3)] validateFilters_ok(2) [OF s9] by metis
  note simple = simple_steps_ok(1) [OF s1] simple_steps_ok(2) [OF s3] simple_steps_ok(3) [OF s6] simple_steps_ok(4) [OF s8]
  have "fc_Provider f4 = GCSFilesystemProvider \<or> storage_ok f4"
    using user_fs_steps(3) [OF s4] by (simp add: config_result_def e4)
  then have st: "fc_Provider (u_FsConfig u9) = GCSFilesystemProvider \<or> storage_ok (u_FsConfig u9)"
    using simple by (simp add: e9 e7 e5 e4)
  then obtain f10 where e10: "v = u9\<lparr>u_FsConfig := f10\<rparr>" using save_user_credentials_ok(1) [OF s10] by metis
  have "IsPasswordHashed v = IsPasswordHashed u7" "User_GetHomeDir v = User_GetHomeDir u4"
    using simple by (simp_all add: IsPasswordHashed_def User_GetHomeDir_def e10 e9 e7 e5)
  then show ?thesis
    using simple save_user_credentials_ok(2) [OF s10 st] validatePermissions_ok(1,2) [OF s2]
      validateUserVirtualFolders_ok(1) [OF s5 assms(2)] createUserPasswordHash_ok(1,2) [OF s7 assms(3)] validateFilters_ok(1) [OF s9]
    by (auto simp: user_ok_def e10 e9 e7 e5 e4 e2)
qed


definition example_venv :: venv where
  "example_venv =
     \<lparr>ve_kms = \<lparr>km_URL = '''', km_masterKey = ''m''\<rparr>, ve_crypto = identity_crypto,
      ve_rnd = (\<lambda>_. (Some (replicate 32 CHR ''k''), Some (replicate 12 CHR ''n''))), ve_json = (\<lambda>_. ''{}''),
      ve_url_Parse = (\<lambda>_. None), ve_mkdir_fails = (\<lambda>_. False), ve_write_fails = (\<lambda>_. False),
      ve_SkipNaturalKeysValidation = False, ve_PreferDatabaseCredentials = False, ve_credentialsDirPath = ''/cred'',
      ve_UsersBaseDir = ''/srv'', ve_TempDir = ''/tmp'', ve_useBcrypt = True, ve_bcrypt = (\<lambda>p. Some (''$2a$'' @ p)),
      ve_argon2id = (\<lambda>p. Some (''$argon2id$'' @ p)), ve_ParseAuthorizedKey = (\<lambda>_. True), ve_email = (\<lambda>_. True)\<rparr>"

definition example_user :: User where
  "example_user = zero_User\<lparr>u_Username := ''u'', u_Password := ''pw'',
     u_Permissions := [(''/'', [''*'', ''list'']), (''/a/'', [''list'', ''list''])],
     u_FsConfig := zero_Filesystem\<lparr>fc_Provider := CryptedFilesystemProvider,
       fc_CryptConfig := \<lparr>cr_Passphrase = Some (NewPlainSecret (ve_kms example_venv) ''key'')\<rparr>\<rparr>\<rparr>"

lemmas validation_eval = ValidateUser_def example_venv_def example_user_def on_user_def vseq_def vok_def verror_def
  buildUserHomeDir_def User_SetEmptySecretsIfNil_def zero_User_def validateBaseParams_def natural_key_ok_def
  usernameRegex_def name_char_def path_IsAbs_def validatePermissions_def gm_len_def gm_get_Cons ValidPerms_def
  strings_TrimSuffix_def strings_HasSuffix_def RemoveDuplicates_eq gm_put_def redacted_check_def hasRedactedSecret_def
  provider_secrets_def validate_user_fs_def lift_fs_def put_user_fs_def validateFilesystemConfig_def validate_encrypt_def
  reset_configs_def validateUserVirtualFolders_def status_check_def createUserPasswordHash_def validatePublicKeys_def
  validateFilters_def zero_UserFilters_def validateFileFilters_def validateFiltersFileExtensions_def
  validateFiltersPatternExtensions_def save_user_credentials_def lift_fs_files_def saveGCSCredentials_def
  SetEmptySecretsIfNil_def zero_Filesystem_def ValidLoginMethods_def ValidProtocols_def IsPasswordHashed_def
  hashPwdPrefixes_def strings_HasPrefix_def path_Join_def path_Clean_def clean_step_def

lemmas secret_eval = Crypt_Validate_def Crypt_EncryptCredentials_def encrypt_plain_def Secret_Encrypt_def
  NewPlainSecret_def newSecret_def getSecretProvider_def identity_crypto_def Secret_IsEncrypted_def
  Secret_IsEmpty_def Secret_IsRedacted_def Secret_IsValidInput_def validSecretStatuses_def Secret_IsPlain_def
  Secret_SetAdditionalData_def local_Encrypt_def builtin_Encrypt_def local_deriveKey_def Let_def


lemma validation_returns:
  assumes "lookup_ok lookup"
  shows "ValidateUser E lookup (u, files) \<noteq> None"
proof -
  have nn: "no_nil_secrets (buildUserHomeDir E (User_SetEmptySecretsIfNil (ve_kms E) u))"
    by (simp add: no_nil_secrets_buildUserHomeDir no_nil_secrets_SetEmpty)
  have "safe_step (\<lambda>s. vseq (on_user (validateBaseParams E) s) (\<lambda>s. vseq (on_user validatePermissions s)
       (\<lambda>s. vseq (on_user redacted_check s) (\<lambda>s. vseq (validate_user_fs E s)
       (\<lambda>s. vseq (validateUserVirtualFolders E lookup s) (\<lambda>s. vseq (on_user status_check s)
       (\<lambda>s. vseq (on_user (createUserPasswordHash E) s) (\<lambda>s. vseq (on_user (validatePublicKeys E) s)
       (\<lambda>s. vseq (on_user validateFilters s) (save_user_credentials E))))))))))"
    by (intro safe_step_seq safe_simple_steps safe_fs_steps assms)
  with nn show ?thesis by (auto simp: ValidateUser_def safe_step_def simp del: not_None_eq)
qed

text \<open>
  C16: \<^verbatim>\<open>ValidateUser\<close> never dereferences a nil secret: it fills the missing secrets of
  the user and of its folders first, and no later step loses one.
\<close>

theorem ValidateUser_returns:
  assumes "lookup_ok lookup"
  shows "ValidateUser E lookup (u, files) \<noteq> None"
  using assms by (rule validation_returns)


theorem ValidateUser_returns_witness:
  "ValidateUser example_venv (\<lambda>n. if n = ''f'' then Some zero_BaseVirtualFolder else None) (example_user, []) \<noteq> None"
  by (rule ValidateUser_returns)
    (simp add: lookup_ok_def zero_BaseVirtualFolder_def zero_Filesystem_def provider_secrets_def known_provider_def)

text \<open>
  C39: \<^verbatim>\<open>ValidateFolder\<close> decides whether the mapped path has to be checked by the
  provider number it is given, and only afterwards turns an unknown number into
  the local provider. A folder with an unknown provider and no mapped path is
  therefore accepted, and becomes a local folder with an empty mapped path.
\<close>

theorem ValidateFolder_unknown_provider:
  assumes "\<not> known_provider v" "bf_MappedPath v = ''''" "bf_Name v \<noteq> ''''" "natural_key_ok E (bf_Name v)"
  shows "\<exists>v'. ValidateFolder E (v, files) = Some (None, v', files) \<and> IsLocalOrLocalCrypted v' \<and> bf_MappedPath v' = ''''"
  using assms
  by (simp add: ValidateFolder_def HasRedactedSecret_def provider_secrets_def known_provider_def folder_storage_def
      validateFilesystemConfig_def vok_def vseq_def lift_fs_def lift_fs_files_def put_folder_fs_def
      saveGCSCredentials_def IsLocalOrLocalCrypted_def)

theorem ValidateFolder_unknown_provider_witness:
  "\<exists>v'. ValidateFolder example_venv (zero_BaseVirtualFolder\<lparr>bf_Name := ''f'', bf_FsConfig := zero_Filesystem\<lparr>fc_Provider := 9\<rparr>\<rparr>, [])
     = Some (None, v', []) \<and> IsLocalOrLocalCrypted v' \<and> bf_MappedPath v' = ''''"
  by (rule ValidateFolder_unknown_provider)
    (simp_all add: known_provider_def zero_BaseVirtualFolder_def natural_key_ok_def usernameRegex_def name_char_def)

end
