(* ===== verification/Admin.thy ===== *)
theory Admin
  imports Validation
begin

text \<open>
  \<^verbatim>\<open>dataprovider/admin.go\<close>: the administrators, what their validation accepts, their
  password check and their login. The hash libraries compare through the record
  \<open>pwlib\<close>; \<open>pl_argon2\<close> answers \<open>None\<close> for a hash it cannot read.
\<close>

record AdminFilters =
  af_AllowList :: "string list"

record Admin =
  a_ID :: int
  a_Status :: int
  a_Username :: string
  a_Password :: string
  a_Email :: string
  a_Permissions :: "string list"
  a_Filters :: AdminFilters
  a_Description :: string
  a_AdditionalInfo :: string

definition zero_Admin :: Admin where
  "zero_Admin = \<lparr>a_ID = 0, a_Status = 0, a_Username = '''', a_Password = '''', a_Email = '''', a_Permissions = [],
     a_Filters = \<lparr>af_AllowList = []\<rparr>, a_Description = '''', a_AdditionalInfo = ''''\<rparr>"

abbreviation PermAdminAny :: string where "PermAdminAny \<equiv> ''*''"
abbreviation argonPwdPrefix :: string where "argonPwdPrefix \<equiv> ''$argon2id$''"
abbreviation bcryptPwdPrefix :: string where "bcryptPwdPrefix \<equiv> ''$2a$''"

definition validAdminPerms :: "string list" where
  "validAdminPerms = [PermAdminAny, ''add_users'', ''edit_users'', ''del_users'', ''view_users'', ''view_conns'',
     ''close_conns'', ''view_status'', ''manage_admins'', ''quota_scans'', ''manage_system'', ''manage_defender'',
     ''view_defender'']"

definition Admin_checkPassword :: "venv \<Rightarrow> Admin \<Rightarrow> Admin vres" where
  "Admin_checkPassword E a =
     (if a_Password a \<noteq> '''' \<and> \<not> strings_HasPrefix (a_Password a) argonPwdPrefix then
        (case (if ve_useBcrypt E then ve_bcrypt E else ve_argon2id E) (a_Password a) of
           None \<Rightarrow> Some (Some (OtherError ''could not hash the password''), a)
         | Some pwd \<Rightarrow> vok (a\<lparr>a_Password := pwd\<rparr>))
      else vok a)"

definition admin_permissions_check :: "venv \<Rightarrow> Admin \<Rightarrow> Admin vres" where
  "admin_permissions_check E a0 =
     (let a = a0\<lparr>a_Permissions := RemoveDuplicates (a_Permissions a0)\<rparr> in
      if length (a_Permissions a) = 0 then verror ''please grant some permissions to this admin'' a
      else
        (let a = (if IsStringInSlice PermAdminAny (a_Permissions a) then a\<lparr>a_Permissions := [PermAdminAny]\<rparr> else a) in
         if list_ex (\<lambda>p. \<not> IsStringInSlice p validAdminPerms) (a_Permissions a) then verror ''invalid permission'' a
         else if a_Email a \<noteq> '''' \<and> \<not> ve_email E (a_Email a) then verror ''email is not valid'' a
         else if list_ex (\<lambda>m. net_ParseCIDR m = None) (af_AllowList (a_Filters a))
         then verror ''could not parse allow list entry'' a
         else vok a))"

definition Admin_validate :: "venv \<Rightarrow> Admin \<Rightarrow> Admin vres" where
  "Admin_validate E a =
     (if a_Username a = '''' then verror ''username is mandatory'' a
      else if a_Password a = '''' then verror ''please set a password'' a
      else if \<not> natural_key_ok E (a_Username a) then verror ''username is not valid'' a
      else vseq (Admin_checkPassword E a) (admin_permissions_check E))"

subsection \<open>Passwords and login\<close>

record pwlib =
  pl_bcrypt :: "string \<Rightarrow> string \<Rightarrow> bool"
  pl_argon2 :: "string \<Rightarrow> string \<Rightarrow> bool option"

datatype login_error =
    ErrInvalidCredentials
  | ErrHashFormat
  | ErrDisabled
  | ErrExpired
  | ErrEmptyCredentials
  | ErrAddrNotAllowed
  | ErrNotFound
  | ErrClosed
  | ErrLogin string

definition Admin_CheckPassword :: "pwlib \<Rightarrow> Admin \<Rightarrow> string \<Rightarrow> login_error + bool" where
  "Admin_CheckPassword L a password =
     (if strings_HasPrefix (a_Password a) bcryptPwdPrefix then
        (if \<not> pl_bcrypt L (a_Password a) password then Inl ErrInvalidCredentials else Inr True)
      else
        (case pl_argon2 L password (a_Password a) of None \<Rightarrow> Inl ErrHashFormat | Some b \<Rightarrow> Inr b))"

definition net_in_list :: "string list \<Rightarrow> byte list \<Rightarrow> bool" where
  "net_in_list masks ip =
     list_ex (\<lambda>m. case net_ParseCIDR m of None \<Rightarrow> False | Some n \<Rightarrow> IPNet_Contains n ip) masks"

definition CanLoginFromIP :: "Admin \<Rightarrow> string \<Rightarrow> bool" where
  "CanLoginFromIP a ip =
     (if length (af_AllowList (a_Filters a)) = 0 then True
      else
        (case net_ParseIP ip of
           None \<Rightarrow> length (af_AllowList (a_Filters a)) = 0
         | Some parsedIP \<Rightarrow> net_in_list (af_AllowList (a_Filters a)) parsedIP))"

definition Admin_checkUserAndPass :: "pwlib \<Rightarrow> Admin \<Rightarrow> string \<Rightarrow> string \<Rightarrow> login_error option" where
  "Admin_checkUserAndPass L a password ip =
     (if a_Status a \<noteq> 1 then Some ErrDisabled
      else if a_Password a = '''' \<or> password = '''' then Some ErrEmptyCredentials
      else
        (case Admin_CheckPassword L a password of
           Inl e \<Rightarrow> Some e
         | Inr match \<Rightarrow>
             if \<not> match then Some ErrInvalidCredentials
             else if \<not> CanLoginFromIP a ip then Some ErrAddrNotAllowed
             else None))"

definition Admin_HideConfidentialData :: "Admin \<Rightarrow> Admin" where
  "Admin_HideConfidentialData a = a\<lparr>a_Password := ''''\<rparr>"

definition HasPermission :: "Admin \<Rightarrow> string \<Rightarrow> bool" where
  "HasPermission a perm =
     (if IsStringInSlice PermAdminAny (a_Permissions a) then True else IsStringInSlice perm (a_Permissions a))"

definition GetSignature :: "(string \<Rightarrow> string) \<Rightarrow> Admin \<Rightarrow> string" where
  "GetSignature sha a = base64_EncodeToString (sha (a_Username a @ a_Password a))"

definition Admin_getACopy :: "Admin \<Rightarrow> Admin" where
  "Admin_getACopy a =
     \<lparr>a_ID = a_ID a, a_Status = a_Status a, a_Username = a_Username a, a_Password = a_Password a,
      a_Email = a_Email a, a_Permissions = a_Permissions a,
      a_Filters = \<lparr>af_AllowList = af_AllowList (a_Filters a)\<rparr>, a_Description = a_Description a,
      a_AdditionalInfo = a_AdditionalInfo a\<rparr>"

definition setDefaults :: "Admin \<Rightarrow> Admin" where
  "setDefaults a = a\<lparr>a_Username := ''admin'', a_Password := ''password'', a_Status := 1, a_Permissions := [PermAdminAny]\<rparr>"


subsection \<open>What a validated administrator looks like\<close>

definition admin_ok :: "venv \<Rightarrow> Admin \<Rightarrow> bool" where
  "admin_ok E a =
     (a_Username a \<noteq> '''' \<and> natural_key_ok E (a_Username a) \<and> IsStringPrefixInSlice (a_Password a) [argonPwdPrefix, bcryptPwdPrefix] \<and>
      a_Permissions a \<noteq> [] \<and> distinct (a_Permissions a) \<and> set (a_Permissions a) \<subseteq> set validAdminPerms \<and>
      (PermAdminAny \<in> set (a_Permissions a) \<longrightarrow> a_Permissions a = [PermAdminAny]) \<and>
      (a_Email a = '''' \<or> ve_email E (a_Email a)) \<and>
      list_all (\<lambda>m. net_ParseCIDR m \<noteq> None) (af_AllowList (a_Filters a)))"

lemma Admin_checkPassword_ok:
  assumes "Admin_checkPassword E a = Some (None, b)" "hashes_recognised E" "a_Password a \<noteq> ''''"
  shows "\<exists>h. b = a\<lparr>a_Password := h\<rparr> \<and> IsStringPrefixInSlice h [argonPwdPrefix, bcryptPwdPrefix]"
proof (cases "strings_HasPrefix (a_Password a) argonPwdPrefix")
  case True
  then show ?thesis using assms by (intro exI [of _ "a_Password a"]) (simp add: Admin_checkPassword_def)
next
  case False
  with assms show ?thesis
    by (auto simp: Admin_checkPassword_def hashes_recognised_def split: option.splits if_splits)
qed

lemma admin_permissions_check_ok:
  assumes "admin_permissions_check E a = Some (None, b)"
  shows "\<exists>ps. b = a\<lparr>a_Permissions := ps\<rparr> \<and> ps \<noteq> [] \<and> distinct ps \<and> set ps \<subseteq> set validAdminPerms \<and>
    (PermAdminAny \<in> set ps \<longrightarrow> ps = [PermAdminAny]) \<and> (a_Email a = '''' \<or> ve_email E (a_Email a)) \<and>
    list_all (\<lambda>m. net_ParseCIDR m \<noteq> None) (af_AllowList (a_Filters a))"
proof -
  define ps where "ps = (if PermAdminAny \<in> set (a_Permissions a) then [PermAdminAny] else RemoveDuplicates (a_Permissions a))"
  have "b = a\<lparr>a_Permissions := ps\<rparr>" "ps \<noteq> []" "\<not> list_ex (\<lambda>p. p \<notin> set validAdminPerms) ps"
    "a_Email a = '''' \<or> ve_email E (a_Email a)" "\<not> list_ex (\<lambda>m. net_ParseCIDR m = None) (af_AllowList (a_Filters a))"
    using assms by (auto simp: admin_permissions_check_def Let_def ps_def split: if_splits)
  then show ?thesis
    by (intro exI [of _ ps]) (auto simp: ps_def list_ex_iff list_all_iff)
qed

text \<open>
  C33: An administrator that \<^verbatim>\<open>validate\<close> accepts has a legal name, a recognisable
  password hash, at least one permission, no duplicates and only known ones, \<^verbatim>\<open>*\<close>
  only on its own, a plausible email and only parsable networks in the allow list.
\<close>

theorem Admin_validate_admin_ok:
  assumes "Admin_validate E a = Some (None, b)" "hashes_recognised E"
  shows "admin_ok E b"
proof -
  from assms(1) have name: "a_Username a \<noteq> ''''" "a_Password a \<noteq> ''''" "natural_key_ok E (a_Username a)"
    and "vseq (Admin_checkPassword E a) (admin_permissions_check E) = Some (None, b)"
    by (simp_all add: Admin_validate_def split: if_split_asm)
  then obtain c where c: "Admin_checkPassword E a = Some (None, c)" "admin_permissions_check E c = Some (None, b)"
    by (auto simp: vseq_ok_iff)
  from Admin_checkPassword_ok [OF c(1) assms(2) name(2)] admin_permissions_check_ok [OF c(2)] name
  show ?thesis by (auto simp: admin_ok_def simp del: IsStringPrefixInSlice.simps)
qed

theorem Admin_validate_admin_ok_witness:
  "\<exists>b. Admin_validate example_venv (setDefaults zero_Admin) = Some (None, b) \<and> admin_ok example_venv b \<and> a_Password b = ''$2a$password''"
proof -
  have "\<exists>b. Admin_validate example_venv (setDefaults zero_Admin) = Some (None, b) \<and> a_Password b = ''$2a$password''"
    by (simp add: Admin_validate_def setDefaults_def zero_Admin_def Admin_checkPassword_def admin_permissions_check_def
        example_venv_def natural_key_ok_def usernameRegex_def name_char_def strings_HasPrefix_def vok_def vseq_def
        Let_def validAdminPerms_def)
  moreover have "hashes_recognised example_venv" by (simp add: hashes_recognised_def example_venv_def strings_HasPrefix_def)
  ultimately show ?thesis using Admin_validate_admin_ok by blast
qed


definition example_pwlib :: pwlib where
  "example_pwlib = \<lparr>pl_bcrypt = (\<lambda>h p. h = ''$2a$'' @ p), pl_argon2 = (\<lambda>p h. Some (h = ''$argon2id$'' @ p))\<rparr>"



end
