(* ===== verification/MemoryProvider.thy ===== *)
theory MemoryProvider
  imports Admin "HOL-Library.List_Lexorder" "HOL-Library.Char_ord"
begin

text \<open>
  \<^verbatim>\<open>dataprovider/memory.go\<close>: the provider that keeps users, folders and administrators
  in maps, each with a sorted slice of its keys. Every operation runs under the
  lock of the handle, except the validation that precedes it: an operation that
  validates is split into the validation and its locked part, so that sequences
  of the locked parts are the interleavings of concurrent calls. \<open>now\<close> is the time
  in milliseconds since the epoch.
\<close>

subsection \<open>Sorted key slices\<close>

text \<open>\<^verbatim>\<open>append\<close> followed by \<^verbatim>\<open>sort.Strings\<close>, and the slice rebuilt from the keys of the map.\<close>

definition index_add :: "string list \<Rightarrow> string \<Rightarrow> string list" where
  "index_add names n = sort (names @ [n])"

definition index_rebuild :: "(string, 'v) gomap \<Rightarrow> string list" where
  "index_rebuild m = sort (gm_keys m)"

text \<open>The loop of the paged listings: skip \<open>offset\<close> names, stop at \<open>limit\<close> results.\<close>

fun page_loop :: "int \<Rightarrow> int \<Rightarrow> int \<Rightarrow> string list \<Rightarrow> string list \<Rightarrow> string list" where
  "page_loop limit offset itNum acc [] = acc"
| "page_loop limit offset itNum acc (n # names) =
     (let itNum = itNum + 1 in
      if itNum \<le> offset then page_loop limit offset itNum acc names
      else
        (let acc = acc @ [n] in
         if int (length acc) \<ge> limit then acc else page_loop limit offset itNum acc names))"

definition OrderASC :: string where "OrderASC = ''ASC''"

definition page_names :: "string list \<Rightarrow> int \<Rightarrow> int \<Rightarrow> string \<Rightarrow> string list" where
  "page_names names limit offset order =
     (if limit \<le> 0 then []
      else page_loop limit offset 0 [] (if order = OrderASC then names else rev names))"

subsection \<open>The handle\<close>

record memoryProviderHandle =
  mp_isClosed :: bool
  mp_usernames :: "string list"
  mp_users :: "(string, User) gomap"
  mp_vfolders :: "(string, BaseVirtualFolder) gomap"
  mp_vfoldersNames :: "string list"
  mp_admins :: "(string, Admin) gomap"
  mp_adminsUsernames :: "string list"

datatype perr =
    MemoryProviderClosed
  | RecordNotFoundError string
  | Invalid verr
  | AlreadyExists string
  | LoadError string

definition empty_handle :: memoryProviderHandle where
  "empty_handle = \<lparr>mp_isClosed = False, mp_usernames = [], mp_users = [], mp_vfolders = [], mp_vfoldersNames = [],
     mp_admins = [], mp_adminsUsernames = []\<rparr>"

definition mem_checkAvailability :: "memoryProviderHandle \<Rightarrow> perr option" where
  "mem_checkAvailability h = (if mp_isClosed h then Some MemoryProviderClosed else None)"

definition mem_close :: "memoryProviderHandle \<Rightarrow> perr option \<times> memoryProviderHandle" where
  "mem_close h = (if mp_isClosed h then (Some MemoryProviderClosed, h) else (None, h\<lparr>mp_isClosed := True\<rparr>))"

definition mem_clear :: "memoryProviderHandle \<Rightarrow> memoryProviderHandle" where
  "mem_clear h = h\<lparr>mp_usernames := [], mp_users := [], mp_vfoldersNames := [], mp_vfolders := [], mp_admins := [],
     mp_adminsUsernames := []\<rparr>"

text \<open>The next free identifier; the addition wraps like an \<^verbatim>\<open>int64\<close>.\<close>

definition next_id :: "int list \<Rightarrow> int" where
  "next_id ids = foldl (\<lambda>nextID i. if i \<ge> nextID then add64 i 1 else nextID) 1 ids"

definition getNextID :: "memoryProviderHandle \<Rightarrow> int" where
  "getNextID h = next_id (map (u_ID \<circ> snd) (mp_users h))"

definition getNextFolderID :: "memoryProviderHandle \<Rightarrow> int" where
  "getNextFolderID h = next_id (map (bf_ID \<circ> snd) (mp_vfolders h))"

definition getNextAdminID :: "memoryProviderHandle \<Rightarrow> int" where
  "getNextAdminID h = next_id (map (a_ID \<circ> snd) (mp_admins h))"

subsection \<open>Folders\<close>

definition folderExistsInternal :: "memoryProviderHandle \<Rightarrow> string \<Rightarrow> BaseVirtualFolder option" where
  "folderExistsInternal h name = gm_get (mp_vfolders h) name"

definition updateFoldersMappingInternal :: "memoryProviderHandle \<Rightarrow> BaseVirtualFolder \<Rightarrow> memoryProviderHandle" where
  "updateFoldersMappingInternal h folder =
     (let h = h\<lparr>mp_vfolders := gm_put (mp_vfolders h) (bf_Name folder) folder\<rparr> in
      if \<not> IsStringInSlice (bf_Name folder) (mp_vfoldersNames h)
      then h\<lparr>mp_vfoldersNames := index_add (mp_vfoldersNames h) (bf_Name folder)\<rparr>
      else h)"

definition addOrUpdateFolderInternal ::
    "kms_Configuration \<Rightarrow> memoryProviderHandle \<Rightarrow> BaseVirtualFolder \<Rightarrow> string \<Rightarrow> int \<Rightarrow> int \<Rightarrow> int \<Rightarrow>
       BaseVirtualFolder \<times> memoryProviderHandle" where
  "addOrUpdateFolderInternal kc h baseFolder username usedQuotaSize usedQuotaFiles lastQuotaUpdate =
     (case folderExistsInternal h (bf_Name baseFolder) of
        Some folder \<Rightarrow>
          (let folder = folder\<lparr>bf_MappedPath := bf_MappedPath baseFolder, bf_Description := bf_Description baseFolder,
                 bf_FsConfig := snd (Filesystem_GetACopy kc (bf_FsConfig baseFolder))\<rparr>;
               folder = (if \<not> IsStringInSlice username (bf_Users folder)
                         then folder\<lparr>bf_Users := bf_Users folder @ [username]\<rparr> else folder)
           in (folder, updateFoldersMappingInternal h folder))
      | None \<Rightarrow>
          (let folder = (snd (Folder_GetACopy kc baseFolder))
                 \<lparr>bf_ID := getNextFolderID h, bf_UsedQuotaSize := usedQuotaSize, bf_UsedQuotaFiles := usedQuotaFiles,
                  bf_LastQuotaUpdate := lastQuotaUpdate, bf_Users := [username]\<rparr>
           in (folder, updateFoldersMappingInternal h folder)))"

fun join_loop ::
    "kms_Configuration \<Rightarrow> string \<Rightarrow> memoryProviderHandle \<Rightarrow> VirtualFolder list \<Rightarrow> VirtualFolder list \<times> memoryProviderHandle" where
  "join_loop kc username h [] = ([], h)"
| "join_loop kc username h (v # vs) =
     (case addOrUpdateFolderInternal kc h (vf_Base v) username 0 0 0 of
        (f, h) \<Rightarrow> (case join_loop kc username h vs of (fs, h) \<Rightarrow> (v\<lparr>vf_Base := f\<rparr> # fs, h)))"

definition joinVirtualFoldersFields ::
    "kms_Configuration \<Rightarrow> memoryProviderHandle \<Rightarrow> User \<Rightarrow> VirtualFolder list \<times> memoryProviderHandle" where
  "joinVirtualFoldersFields kc h user = join_loop kc (u_Username user) h (u_VirtualFolders user)"

definition removeUserFromFolderMapping :: "memoryProviderHandle \<Rightarrow> string \<Rightarrow> string \<Rightarrow> memoryProviderHandle" where
  "removeUserFromFolderMapping h folderName username =
     (case folderExistsInternal h folderName of
        Some folder \<Rightarrow>
          h\<lparr>mp_vfolders := gm_put (mp_vfolders h) (bf_Name folder)
               (folder\<lparr>bf_Users := filter (\<lambda>u. u \<noteq> username) (bf_Users folder)\<rparr>)\<rparr>
      | None \<Rightarrow> h)"

definition mem_getFolderByName :: "kms_Configuration \<Rightarrow> memoryProviderHandle \<Rightarrow> string \<Rightarrow> perr + BaseVirtualFolder" where
  "mem_getFolderByName kc h name =
     (if mp_isClosed h then Inl MemoryProviderClosed
      else
        (case folderExistsInternal h name of
           None \<Rightarrow> Inl (RecordNotFoundError name)
         | Some folder \<Rightarrow> Inr (snd (Folder_GetACopy kc folder))))"

definition addFolder_locked ::
    "kms_Configuration \<Rightarrow> memoryProviderHandle \<Rightarrow> BaseVirtualFolder \<Rightarrow> perr option \<times> BaseVirtualFolder \<times> memoryProviderHandle" where
  "addFolder_locked kc h folder =
     (if mp_isClosed h then (Some MemoryProviderClosed, folder, h)
      else
        (case folderExistsInternal h (bf_Name folder) of
           Some _ \<Rightarrow> (Some (AlreadyExists (bf_Name folder)), folder, h)
         | None \<Rightarrow>
             (let folder = folder\<lparr>bf_ID := getNextFolderID h, bf_Users := []\<rparr>
              in (None, folder,
                  h\<lparr>mp_vfolders := gm_put (mp_vfolders h) (bf_Name folder) (snd (Folder_GetACopy kc folder)),
                    mp_vfoldersNames := index_add (mp_vfoldersNames h) (bf_Name folder)\<rparr>))))"

subsection \<open>Users\<close>

definition userExistsInternal :: "kms_Configuration \<Rightarrow> memoryProviderHandle \<Rightarrow> string \<Rightarrow> User option" where
  "userExistsInternal kc h username = map_option (\<lambda>u. snd (User_getACopy kc u)) (gm_get (mp_users h) username)"

definition mem_userExists :: "kms_Configuration \<Rightarrow> memoryProviderHandle \<Rightarrow> string \<Rightarrow> perr + User" where
  "mem_userExists kc h username =
     (if mp_isClosed h then Inl MemoryProviderClosed
      else (case userExistsInternal kc h username of
              None \<Rightarrow> Inl (RecordNotFoundError username) | Some u \<Rightarrow> Inr u))"

text \<open>Storing a changed copy back under its own name.\<close>

definition put_user :: "memoryProviderHandle \<Rightarrow> User \<Rightarrow> memoryProviderHandle" where
  "put_user h u = h\<lparr>mp_users := gm_put (mp_users h) (u_Username u) u\<rparr>"

definition addUser_locked ::
    "kms_Configuration \<Rightarrow> memoryProviderHandle \<Rightarrow> User \<Rightarrow> perr option \<times> User \<times> memoryProviderHandle" where
  "addUser_locked kc h user =
     (if mp_isClosed h then (Some MemoryProviderClosed, user, h)
      else
        (case userExistsInternal kc h (u_Username user) of
           Some _ \<Rightarrow> (Some (AlreadyExists (u_Username user)), user, h)
         | None \<Rightarrow>
             (let user = user\<lparr>u_ID := getNextID h, u_LastQuotaUpdate := 0, u_UsedQuotaSize := 0, u_UsedQuotaFiles := 0,
                    u_LastLogin := 0\<rparr>
              in case joinVirtualFoldersFields kc h user of
                   (fs, h) \<Rightarrow>
                     (let user = user\<lparr>u_VirtualFolders := fs\<rparr>
                      in (None, user,
                          (put_user h (snd (User_getACopy kc user)))
                            \<lparr>mp_usernames := index_add (mp_usernames h) (u_Username user)\<rparr>)))))"

definition removeUserFromFolders :: "memoryProviderHandle \<Rightarrow> User \<Rightarrow> memoryProviderHandle" where
  "removeUserFromFolders h u =
     foldl (\<lambda>h oldFolder. removeUserFromFolderMapping h (vf_Name oldFolder) (u_Username u)) h (u_VirtualFolders u)"

definition updateUser_locked ::
    "kms_Configuration \<Rightarrow> memoryProviderHandle \<Rightarrow> User \<Rightarrow> perr option \<times> User \<times> memoryProviderHandle" where
  "updateUser_locked kc h user =
     (if mp_isClosed h then (Some MemoryProviderClosed, user, h)
      else
        (case userExistsInternal kc h (u_Username user) of
           None \<Rightarrow> (Some (RecordNotFoundError (u_Username user)), user, h)
         | Some u \<Rightarrow>
             (case joinVirtualFoldersFields kc (removeUserFromFolders h u) user of
                (fs, h) \<Rightarrow>
                  (let user = user\<lparr>u_VirtualFolders := fs, u_LastQuotaUpdate := u_LastQuotaUpdate u,
                         u_UsedQuotaSize := u_UsedQuotaSize u, u_UsedQuotaFiles := u_UsedQuotaFiles u,
                         u_LastLogin := u_LastLogin u, u_ID := u_ID u\<rparr>
                   in (None, user, put_user h (snd (User_getACopy kc user)))))))"

definition mem_deleteUser :: "kms_Configuration \<Rightarrow> memoryProviderHandle \<Rightarrow> User \<Rightarrow> perr option \<times> memoryProviderHandle" where
  "mem_deleteUser kc h user =
     (if mp_isClosed h then (Some MemoryProviderClosed, h)
      else
        (case userExistsInternal kc h (u_Username user) of
           None \<Rightarrow> (Some (RecordNotFoundError (u_Username user)), h)
         | Some u \<Rightarrow>
             (let h = removeUserFromFolders h u;
                  users = gm_del (mp_users h) (u_Username user)
              in (None, h\<lparr>mp_users := users, mp_usernames := index_rebuild users\<rparr>))))"

definition mem_updateLastLogin :: "kms_Configuration \<Rightarrow> memoryProviderHandle \<Rightarrow> int \<Rightarrow> string \<Rightarrow> perr option \<times> memoryProviderHandle" where
  "mem_updateLastLogin kc h now username =
     (if mp_isClosed h then (Some MemoryProviderClosed, h)
      else
        (case userExistsInternal kc h username of
           None \<Rightarrow> (Some (RecordNotFoundError username), h)
         | Some u \<Rightarrow> (None, put_user h (u\<lparr>u_LastLogin := now\<rparr>))))"

definition mem_updateQuota ::
    "kms_Configuration \<Rightarrow> memoryProviderHandle \<Rightarrow> int \<Rightarrow> string \<Rightarrow> int \<Rightarrow> int \<Rightarrow> bool \<Rightarrow> perr option \<times> memoryProviderHandle" where
  "mem_updateQuota kc h now username filesAdd sizeAdd reset =
     (if mp_isClosed h then (Some MemoryProviderClosed, h)
      else
        (case userExistsInternal kc h username of
           None \<Rightarrow> (Some (RecordNotFoundError username), h)
         | Some u \<Rightarrow>
             (let u = (if reset then u\<lparr>u_UsedQuotaSize := sizeAdd, u_UsedQuotaFiles := filesAdd\<rparr>
                       else u\<lparr>u_UsedQuotaSize := add64 (u_UsedQuotaSize u) sizeAdd,
                              u_UsedQuotaFiles := add64 (u_UsedQuotaFiles u) filesAdd\<rparr>)
              in (None, put_user h (u\<lparr>u_LastQuotaUpdate := now\<rparr>)))))"

definition mem_getUsedQuota :: "kms_Configuration \<Rightarrow> memoryProviderHandle \<Rightarrow> string \<Rightarrow> perr + int \<times> int" where
  "mem_getUsedQuota kc h username =
     (if mp_isClosed h then Inl MemoryProviderClosed
      else
        (case userExistsInternal kc h username of
           None \<Rightarrow> Inl (RecordNotFoundError username)
         | Some u \<Rightarrow> Inr (u_UsedQuotaFiles u, u_UsedQuotaSize u)))"


subsection \<open>Updating and deleting folders\<close>

text \<open>The folder of this name in one user, and the users of a folder one after the other.\<close>

definition replace_user_folder :: "kms_Configuration \<Rightarrow> BaseVirtualFolder \<Rightarrow> User \<Rightarrow> User" where
  "replace_user_folder kc folder user =
     user\<lparr>u_VirtualFolders := map (\<lambda>uf. if bf_Name folder = vf_Name uf
        then uf\<lparr>vf_Base := snd (Folder_GetACopy kc folder)\<rparr> else uf) (u_VirtualFolders user)\<rparr>"

definition remove_user_folder :: "BaseVirtualFolder \<Rightarrow> User \<Rightarrow> User" where
  "remove_user_folder folder user =
     user\<lparr>u_VirtualFolders := filter (\<lambda>uf. bf_Name folder \<noteq> vf_Name uf) (u_VirtualFolders user)\<rparr>"

definition on_users ::
    "kms_Configuration \<Rightarrow> (User \<Rightarrow> User) \<Rightarrow> memoryProviderHandle \<Rightarrow> string list \<Rightarrow> memoryProviderHandle" where
  "on_users kc f h names =
     foldl (\<lambda>h username. case userExistsInternal kc h username of
                            None \<Rightarrow> h | Some user \<Rightarrow> put_user h (f user)) h names"

definition updateFolder_locked ::
    "kms_Configuration \<Rightarrow> memoryProviderHandle \<Rightarrow> BaseVirtualFolder \<Rightarrow> perr option \<times> BaseVirtualFolder \<times> memoryProviderHandle" where
  "updateFolder_locked kc h folder =
     (if mp_isClosed h then (Some MemoryProviderClosed, folder, h)
      else
        (case folderExistsInternal h (bf_Name folder) of
           None \<Rightarrow> (Some (RecordNotFoundError (bf_Name folder)), folder, h)
         | Some f \<Rightarrow>
             (let folder = folder\<lparr>bf_ID := bf_ID f, bf_LastQuotaUpdate := bf_LastQuotaUpdate f,
                    bf_UsedQuotaFiles := bf_UsedQuotaFiles f, bf_UsedQuotaSize := bf_UsedQuotaSize f, bf_Users := bf_Users f\<rparr>;
                  h = h\<lparr>mp_vfolders := gm_put (mp_vfolders h) (bf_Name folder) (snd (Folder_GetACopy kc folder))\<rparr>
              in (None, folder, on_users kc (replace_user_folder kc folder) h (bf_Users folder)))))"

text \<open>The users to update are those of the folder that the caller passes.\<close>

definition mem_deleteFolder ::
    "kms_Configuration \<Rightarrow> memoryProviderHandle \<Rightarrow> BaseVirtualFolder \<Rightarrow> perr option \<times> memoryProviderHandle" where
  "mem_deleteFolder kc h folder =
     (if mp_isClosed h then (Some MemoryProviderClosed, h)
      else
        (case folderExistsInternal h (bf_Name folder) of
           None \<Rightarrow> (Some (RecordNotFoundError (bf_Name folder)), h)
         | Some _ \<Rightarrow>
             (let h = on_users kc (remove_user_folder folder) h (bf_Users folder);
                  vfolders = gm_del (mp_vfolders h) (bf_Name folder)
              in (None, h\<lparr>mp_vfolders := vfolders, mp_vfoldersNames := index_rebuild vfolders\<rparr>))))"

definition mem_updateFolderQuota ::
    "memoryProviderHandle \<Rightarrow> int \<Rightarrow> string \<Rightarrow> int \<Rightarrow> int \<Rightarrow> bool \<Rightarrow> perr option \<times> memoryProviderHandle" where
  "mem_updateFolderQuota h now name filesAdd sizeAdd reset =
     (if mp_isClosed h then (Some MemoryProviderClosed, h)
      else
        (case folderExistsInternal h name of
           None \<Rightarrow> (Some (RecordNotFoundError name), h)
         | Some f \<Rightarrow>
             (let f = (if reset then f\<lparr>bf_UsedQuotaSize := sizeAdd, bf_UsedQuotaFiles := filesAdd\<rparr>
                       else f\<lparr>bf_UsedQuotaSize := add64 (bf_UsedQuotaSize f) sizeAdd,
                              bf_UsedQuotaFiles := add64 (bf_UsedQuotaFiles f) filesAdd\<rparr>)
              in (None, h\<lparr>mp_vfolders := gm_put (mp_vfolders h) name (f\<lparr>bf_LastQuotaUpdate := now\<rparr>)\<rparr>))))"

definition mem_getUsedFolderQuota :: "memoryProviderHandle \<Rightarrow> string \<Rightarrow> perr + int \<times> int" where
  "mem_getUsedFolderQuota h name =
     (if mp_isClosed h then Inl MemoryProviderClosed
      else
        (case folderExistsInternal h name of
           None \<Rightarrow> Inl (RecordNotFoundError name)
         | Some f \<Rightarrow> Inr (bf_UsedQuotaFiles f, bf_UsedQuotaSize f)))"

subsection \<open>Administrators\<close>

definition adminExistsInternal :: "memoryProviderHandle \<Rightarrow> string \<Rightarrow> Admin option" where
  "adminExistsInternal h username = map_option Admin_getACopy (gm_get (mp_admins h) username)"

definition mem_adminExists :: "memoryProviderHandle \<Rightarrow> string \<Rightarrow> perr + Admin" where
  "mem_adminExists h username =
     (if mp_isClosed h then Inl MemoryProviderClosed
      else (case adminExistsInternal h username of
              None \<Rightarrow> Inl (RecordNotFoundError username) | Some a \<Rightarrow> Inr a))"

definition mem_addAdmin ::
    "venv \<Rightarrow> memoryProviderHandle \<Rightarrow> Admin \<Rightarrow> (perr option \<times> Admin \<times> memoryProviderHandle) option" where
  "mem_addAdmin E h admin =
     (if mp_isClosed h then Some (Some MemoryProviderClosed, admin, h)
      else
        (case Admin_validate E admin of
           None \<Rightarrow> None
         | Some (Some e, admin) \<Rightarrow> Some (Some (Invalid e), admin, h)
         | Some (None, admin) \<Rightarrow>
             (case adminExistsInternal h (a_Username admin) of
                Some _ \<Rightarrow> Some (Some (AlreadyExists (a_Username admin)), admin, h)
              | None \<Rightarrow>
                  (let admin = admin\<lparr>a_ID := getNextAdminID h\<rparr>
                   in Some (None, admin,
                        h\<lparr>mp_admins := gm_put (mp_admins h) (a_Username admin) (Admin_getACopy admin),
                          mp_adminsUsernames := index_add (mp_adminsUsernames h) (a_Username admin)\<rparr>)))))"

definition mem_updateAdmin ::
    "venv \<Rightarrow> memoryProviderHandle \<Rightarrow> Admin \<Rightarrow> (perr option \<times> Admin \<times> memoryProviderHandle) option" where
  "mem_updateAdmin E h admin =
     (if mp_isClosed h then Some (Some MemoryProviderClosed, admin, h)
      else
        (case Admin_validate E admin of
           None \<Rightarrow> None
         | Some (Some e, admin) \<Rightarrow> Some (Some (Invalid e), admin, h)
         | Some (None, admin) \<Rightarrow>
             (case adminExistsInternal h (a_Username admin) of
                None \<Rightarrow> Some (Some (RecordNotFoundError (a_Username admin)), admin, h)
              | Some a \<Rightarrow>
                  (let admin = admin\<lparr>a_ID := a_ID a\<rparr>
                   in Some (None, admin, h\<lparr>mp_admins := gm_put (mp_admins h) (a_Username admin) (Admin_getACopy admin)\<rparr>)))))"

definition mem_deleteAdmin :: "memoryProviderHandle \<Rightarrow> Admin \<Rightarrow> perr option \<times> memoryProviderHandle" where
  "mem_deleteAdmin h admin =
     (if mp_isClosed h then (Some MemoryProviderClosed, h)
      else
        (case adminExistsInternal h (a_Username admin) of
           None \<Rightarrow> (Some (RecordNotFoundError (a_Username admin)), h)
         | Some _ \<Rightarrow>
             (let admins = gm_del (mp_admins h) (a_Username admin)
              in (None, h\<lparr>mp_admins := admins, mp_adminsUsernames := index_rebuild admins\<rparr>))))"

subsection \<open>Listings and dumps\<close>

text \<open>
  A negative limit makes \<^verbatim>\<open>make\<close> panic before anything else is looked at. A name of
  the index without an entry in the map would read the zero value.
\<close>

definition user_at :: "memoryProviderHandle \<Rightarrow> string \<Rightarrow> User" where
  "user_at h name = (case gm_get (mp_users h) name of Some u \<Rightarrow> u | None \<Rightarrow> zero_User)"

definition folder_named :: "memoryProviderHandle \<Rightarrow> string \<Rightarrow> BaseVirtualFolder" where
  "folder_named h name = (case gm_get (mp_vfolders h) name of Some f \<Rightarrow> f | None \<Rightarrow> zero_BaseVirtualFolder)"

definition admin_at :: "memoryProviderHandle \<Rightarrow> string \<Rightarrow> Admin" where
  "admin_at h name = (case gm_get (mp_admins h) name of Some a \<Rightarrow> a | None \<Rightarrow> zero_Admin)"

definition mem_getUsers ::
    "kms_Configuration \<Rightarrow> memoryProviderHandle \<Rightarrow> int \<Rightarrow> int \<Rightarrow> string \<Rightarrow> (perr option \<times> User list) option" where
  "mem_getUsers kc h limit offset order =
     (if limit < 0 then None
      else if mp_isClosed h then Some (Some MemoryProviderClosed, [])
      else map_option (Pair None)
        (map_panic (\<lambda>n. User_PrepareForRendering kc (snd (User_getACopy kc (user_at h n))))
           (page_names (mp_usernames h) limit offset order)))"

definition mem_getFolders ::
    "kms_Configuration \<Rightarrow> memoryProviderHandle \<Rightarrow> int \<Rightarrow> int \<Rightarrow> string \<Rightarrow> (perr option \<times> BaseVirtualFolder list) option" where
  "mem_getFolders kc h limit offset order =
     (if limit < 0 then None
      else if mp_isClosed h then Some (Some MemoryProviderClosed, [])
      else map_option (Pair None)
        (map_panic (\<lambda>n. Folder_PrepareForRendering kc (snd (Folder_GetACopy kc (folder_named h n))))
           (page_names (mp_vfoldersNames h) limit offset order)))"

definition mem_getAdmins ::
    "memoryProviderHandle \<Rightarrow> int \<Rightarrow> int \<Rightarrow> string \<Rightarrow> (perr option \<times> Admin list) option" where
  "mem_getAdmins h limit offset order =
     (if limit < 0 then None
      else if mp_isClosed h then Some (Some MemoryProviderClosed, [])
      else Some (None, map (\<lambda>n. Admin_HideConfidentialData (Admin_getACopy (admin_at h n)))
        (page_names (mp_adminsUsernames h) limit offset order)))"

definition mem_dumpFolders :: "memoryProviderHandle \<Rightarrow> perr option \<times> BaseVirtualFolder list" where
  "mem_dumpFolders h = (if mp_isClosed h then (Some MemoryProviderClosed, []) else (None, map snd (mp_vfolders h)))"

definition mem_dumpAdmins :: "memoryProviderHandle \<Rightarrow> perr option \<times> Admin list" where
  "mem_dumpAdmins h = (if mp_isClosed h then (Some MemoryProviderClosed, []) else (None, map snd (mp_admins h)))"


text \<open>
  \<open>unjson\<close> decodes the JSON form of a secret. Credentials are read from their file
  when none are set; the first result is the error.
\<close>

definition read_credentials ::
    "kms_Configuration \<Rightarrow> (string \<Rightarrow> baseSecret option) \<Rightarrow> files \<Rightarrow> string \<Rightarrow> Filesystem \<Rightarrow> (perr option \<times> Filesystem) option" where
  "read_credentials kc unjson files path f =
     (if fc_Provider f \<noteq> GCSFilesystemProvider then Some (None, f)
      else if gcs_AutomaticCredentials (fc_GCSConfig f) > 0 then Some (None, f)
      else
        (case gcs_Credentials (fc_GCSConfig f) of
           None \<Rightarrow> None
         | Some cr \<Rightarrow>
             if Secret_IsValid cr then Some (None, f)
             else
               (case gm_get files path of
                  None \<Rightarrow> Some (Some (LoadError ''could not read the credentials''), f)
                | Some cred \<Rightarrow>
                    (case Secret_UnmarshalJSON kc (unjson cred) of
                       Inl e \<Rightarrow> Some (Some (LoadError ''could not decode the credentials''), f)
                     | Inr s \<Rightarrow> Some (None, f\<lparr>fc_GCSConfig := (fc_GCSConfig f)\<lparr>gcs_Credentials := Some s\<rparr>\<rparr>)))))"

fun addFolderCredentials_loop ::
    "kms_Configuration \<Rightarrow> (string \<Rightarrow> baseSecret option) \<Rightarrow> string \<Rightarrow> files \<Rightarrow> VirtualFolder list \<Rightarrow> (perr option \<times> VirtualFolder list) option" where
  "addFolderCredentials_loop kc unjson dir files [] = Some (None, [])"
| "addFolderCredentials_loop kc unjson dir files (v # vs) =
     (case read_credentials kc unjson files (Folder_GetGCSCredentialsFilePath dir (vf_Base v)) (vf_FsConfig v) of
        None \<Rightarrow> None
      | Some (Some e, f) \<Rightarrow> Some (Some e, v # vs)
      | Some (None, f) \<Rightarrow>
          map_option (\<lambda>(e, vs). (e, v\<lparr>vf_Base := (vf_Base v)\<lparr>bf_FsConfig := f\<rparr>\<rparr> # vs))
            (addFolderCredentials_loop kc unjson dir files vs))"

definition addFolderCredentialsToUser ::
    "kms_Configuration \<Rightarrow> (string \<Rightarrow> baseSecret option) \<Rightarrow> string \<Rightarrow> files \<Rightarrow> User \<Rightarrow> (perr option \<times> User) option" where
  "addFolderCredentialsToUser kc unjson dir files u =
     map_option (\<lambda>(e, vs). (e, u\<lparr>u_VirtualFolders := vs\<rparr>))
       (addFolderCredentials_loop kc unjson dir files (u_VirtualFolders u))"

definition addCredentialsToUser ::
    "kms_Configuration \<Rightarrow> (string \<Rightarrow> baseSecret option) \<Rightarrow> string \<Rightarrow> files \<Rightarrow> User \<Rightarrow> (perr option \<times> User) option" where
  "addCredentialsToUser kc unjson dir files u =
     (case addFolderCredentialsToUser kc unjson dir files u of
        None \<Rightarrow> None
      | Some (Some e, u) \<Rightarrow> Some (Some e, u)
      | Some (None, u) \<Rightarrow>
          map_option (\<lambda>(e, f). (e, u\<lparr>u_FsConfig := f\<rparr>))
            (read_credentials kc unjson files (User_GetGCSCredentialsFilePath dir u) (u_FsConfig u)))"

fun dump_users_loop ::
    "kms_Configuration \<Rightarrow> (string \<Rightarrow> baseSecret option) \<Rightarrow> string \<Rightarrow> files \<Rightarrow> memoryProviderHandle \<Rightarrow> User list \<Rightarrow> string list \<Rightarrow>
       (perr option \<times> User list) option" where
  "dump_users_loop kc unjson dir files h acc [] = Some (None, acc)"
| "dump_users_loop kc unjson dir files h acc (n # ns) =
     (case addCredentialsToUser kc unjson dir files (snd (User_getACopy kc (user_at h n))) of
        None \<Rightarrow> None
      | Some (Some e, _) \<Rightarrow> Some (Some e, acc)
      | Some (None, u) \<Rightarrow> dump_users_loop kc unjson dir files h (acc @ [u]) ns)"

definition mem_dumpUsers ::
    "kms_Configuration \<Rightarrow> (string \<Rightarrow> baseSecret option) \<Rightarrow> string \<Rightarrow> files \<Rightarrow> memoryProviderHandle \<Rightarrow> (perr option \<times> User list) option" where
  "mem_dumpUsers kc unjson dir files h =
     (if mp_isClosed h then Some (Some MemoryProviderClosed, [])
      else dump_users_loop kc unjson dir files h [] (mp_usernames h))"

subsection \<open>Operations that validate first\<close>

text \<open>The validation asks the provider for folders, then the locked part runs.\<close>

definition folder_lookup :: "kms_Configuration \<Rightarrow> memoryProviderHandle \<Rightarrow> string \<Rightarrow> BaseVirtualFolder option" where
  "folder_lookup kc h name = (case mem_getFolderByName kc h name of Inl _ \<Rightarrow> None | Inr f \<Rightarrow> Some f)"

definition after_validation ::
    "('x \<times> files) vres \<Rightarrow> (memoryProviderHandle \<Rightarrow> 'x \<Rightarrow> perr option \<times> 'x \<times> memoryProviderHandle) \<Rightarrow> memoryProviderHandle \<Rightarrow>
       (perr option \<times> 'x \<times> memoryProviderHandle \<times> files) option" where
  "after_validation r locked h =
     (case r of
        None \<Rightarrow> None
      | Some (Some e, x, files) \<Rightarrow> Some (Some (Invalid e), x, h, files)
      | Some (None, x, files) \<Rightarrow> (case locked h x of (e, x, h) \<Rightarrow> Some (e, x, h, files)))"

definition mem_addUser ::
    "venv \<Rightarrow> memoryProviderHandle \<Rightarrow> files \<Rightarrow> User \<Rightarrow> (perr option \<times> User \<times> memoryProviderHandle \<times> files) option" where
  "mem_addUser E h files user =
     after_validation (ValidateUser E (folder_lookup (ve_kms E) h) (user, files)) (addUser_locked (ve_kms E)) h"

definition mem_updateUser ::
    "venv \<Rightarrow> memoryProviderHandle \<Rightarrow> files \<Rightarrow> User \<Rightarrow> (perr option \<times> User \<times> memoryProviderHandle \<times> files) option" where
  "mem_updateUser E h files user =
     after_validation (ValidateUser E (folder_lookup (ve_kms E) h) (user, files)) (updateUser_locked (ve_kms E)) h"

definition mem_addFolder ::
    "venv \<Rightarrow> memoryProviderHandle \<Rightarrow> files \<Rightarrow> BaseVirtualFolder \<Rightarrow>
       (perr option \<times> BaseVirtualFolder \<times> memoryProviderHandle \<times> files) option" where
  "mem_addFolder E h files folder =
     after_validation (ValidateFolder E (folder, files)) (addFolder_locked (ve_kms E)) h"

definition mem_updateFolder ::
    "venv \<Rightarrow> memoryProviderHandle \<Rightarrow> files \<Rightarrow> BaseVirtualFolder \<Rightarrow>
       (perr option \<times> BaseVirtualFolder \<times> memoryProviderHandle \<times> files) option" where
  "mem_updateFolder E h files folder =
     after_validation (ValidateFolder E (folder, files)) (updateFolder_locked (ve_kms E)) h"

subsection \<open>Loading a dump\<close>

record BackupData =
  bd_Users :: "User list"
  bd_Folders :: "BaseVirtualFolder list"
  bd_Admins :: "Admin list"
  bd_Version :: int

type_synonym mem_state = "memoryProviderHandle \<times> files"

fun restoreFolders :: "venv \<Rightarrow> mem_state \<Rightarrow> BaseVirtualFolder list \<Rightarrow> (perr option \<times> mem_state) option" where
  "restoreFolders E s [] = Some (None, s)"
| "restoreFolders E (h, files) (folder # fs) =
     (case (case mem_getFolderByName (ve_kms E) h (bf_Name folder) of
              Inr f \<Rightarrow> mem_updateFolder E h files (folder\<lparr>bf_ID := bf_ID f\<rparr>)
            | Inl _ \<Rightarrow> mem_addFolder E h files (folder\<lparr>bf_Users := []\<rparr>)) of
        None \<Rightarrow> None
      | Some (Some e, _, s) \<Rightarrow> Some (Some e, s)
      | Some (None, _, s) \<Rightarrow> restoreFolders E s fs)"

fun restoreUsers :: "venv \<Rightarrow> mem_state \<Rightarrow> User list \<Rightarrow> (perr option \<times> mem_state) option" where
  "restoreUsers E s [] = Some (None, s)"
| "restoreUsers E (h, files) (user # us) =
     (case (case mem_userExists (ve_kms E) h (u_Username user) of
              Inr u \<Rightarrow> mem_updateUser E h files (user\<lparr>u_ID := u_ID u\<rparr>)
            | Inl _ \<Rightarrow> mem_addUser E h files user) of
        None \<Rightarrow> None
      | Some (Some e, _, s) \<Rightarrow> Some (Some e, s)
      | Some (None, _, s) \<Rightarrow> restoreUsers E s us)"

fun restoreAdmins :: "venv \<Rightarrow> mem_state \<Rightarrow> Admin list \<Rightarrow> (perr option \<times> mem_state) option" where
  "restoreAdmins E s [] = Some (None, s)"
| "restoreAdmins E (h, files) (admin # as) =
     (case (case mem_adminExists h (a_Username admin) of
              Inr a \<Rightarrow> mem_updateAdmin E h (admin\<lparr>a_ID := a_ID a\<rparr>)
            | Inl _ \<Rightarrow> mem_addAdmin E h admin) of
        None \<Rightarrow> None
      | Some (Some e, _, h) \<Rightarrow> Some (Some e, h, files)
      | Some (None, _, h) \<Rightarrow> restoreAdmins E (h, files) as)"

text \<open>\<open>sz\<close> is the size that \<^verbatim>\<open>os.Stat\<close> reports and \<open>dump\<close> the parsed content, if they can be had.\<close>

definition mem_reloadConfig ::
    "venv \<Rightarrow> string \<Rightarrow> int option \<Rightarrow> BackupData option \<Rightarrow> mem_state \<Rightarrow> (perr option \<times> mem_state) option" where
  "mem_reloadConfig E configFile sz dump s =
     (if configFile = '''' then Some (None, s)
      else
        (case sz of
           None \<Rightarrow> Some (Some (LoadError ''error loading dump''), s)
         | Some n \<Rightarrow>
             if n = 0 then Some (Some (LoadError ''dump configuration file is invalid, its size must be > 0''), s)
             else if n > 10485760
             then Some (Some (LoadError ''dump configuration file is invalid, its size must be <= 10485760 bytes''), s)
             else
               (case dump of
                  None \<Rightarrow> Some (Some (LoadError ''error loading dump''), s)
                | Some d \<Rightarrow>
                    (case restoreFolders E (mem_clear (fst s), snd s) (bd_Folders d) of
                       None \<Rightarrow> None
                     | Some (Some e, s) \<Rightarrow> Some (Some e, s)
                     | Some (None, s) \<Rightarrow>
                         (case restoreUsers E s (bd_Users d) of
                            None \<Rightarrow> None
                          | Some (Some e, s) \<Rightarrow> Some (Some e, s)
                          | Some (None, s) \<Rightarrow> restoreAdmins E s (bd_Admins d))))))"


subsection \<open>Sorted slices of keys\<close>

definition index_ok :: "(string, 'v) gomap \<Rightarrow> string list \<Rightarrow> bool" where
  "index_ok m names \<longleftrightarrow> wf_gm m \<and> sorted names \<and> distinct names \<and> set names = dom (gm_get m)"

lemma index_ok_empty: "index_ok [] []"
  by (simp add: index_ok_def gm_get_def)

lemma index_ok_add: "index_ok m names \<Longrightarrow> gm_get m k = None \<Longrightarrow> index_ok (gm_put m k v) (index_add names k)"
  by (auto simp: index_ok_def index_add_def gm.wf_put gm.get_put)

lemma index_ok_put: "index_ok m names \<Longrightarrow> gm_get m k \<noteq> None \<Longrightarrow> index_ok (gm_put m k v) names"
  by (auto simp: index_ok_def gm.wf_put gm.get_put)

lemma index_ok_del: "index_ok m names \<Longrightarrow> index_ok (gm_del m k) (index_rebuild (gm_del m k))"
  by (simp add: index_ok_def index_rebuild_def gm.wf_del gm.set_keys gm.distinct_keys)

lemma index_ok_mem: "index_ok m names \<Longrightarrow> k \<in> set names \<longleftrightarrow> gm_get m k \<noteq> None"
  by (auto simp: index_ok_def)

text \<open>A page is the window of the sorted names, in either direction.\<close>

lemma page_loop_eq:
  assumes "int (length acc) < limit"
  shows "page_loop limit offset itNum acc names =
    acc @ take (nat limit - length acc) (drop (nat (offset - itNum)) names)"
  using assms
proof (induction names arbitrary: acc itNum)
  case (Cons n names)
  show ?case
  proof (cases "itNum + 1 \<le> offset")
    case True
    then have "nat (offset - itNum) = Suc (nat (offset - (itNum + 1)))" by simp
    with True Cons show ?thesis by simp
  next
    case False
    then have "nat (offset - itNum) = 0" "nat (offset - (itNum + 1)) = 0" by simp_all
    moreover have "nat limit - length acc = Suc (nat limit - Suc (length acc))" using Cons.prems by simp
    moreover have "limit \<le> int (Suc (length acc)) \<Longrightarrow> nat limit - Suc (length acc) = 0" by simp
    ultimately show ?thesis
      using False Cons.IH [of "acc @ [n]" "itNum + 1"] by (cases "limit \<le> int (Suc (length acc))") (simp_all add: Let_def)
  qed
qed simp

lemma page_names_eq:
  "page_names names limit offset order =
     take (nat limit) (drop (nat offset) (if order = OrderASC then names else rev names))"
  by (simp add: page_names_def page_loop_eq)

subsection \<open>Copies\<close>

lemma copy_folder_fields [simp]:
  "bf_Name (snd (Folder_GetACopy kc f)) = bf_Name f" "bf_MappedPath (snd (Folder_GetACopy kc f)) = bf_MappedPath f" "bf_Users (snd (Folder_GetACopy kc f)) = bf_Users f"
  "bf_ID (snd (Folder_GetACopy kc f)) = bf_ID f"
  "bf_UsedQuotaSize (snd (Folder_GetACopy kc f)) = bf_UsedQuotaSize f"
  "bf_UsedQuotaFiles (snd (Folder_GetACopy kc f)) = bf_UsedQuotaFiles f"
  by (simp_all add: Folder_GetACopy_def split: prod.splits)

lemma copy_vfolder_name [simp]: "vf_Name (snd (VirtualFolder_GetACopy kc v)) = vf_Name v"
  by (cases "Folder_GetACopy kc (vf_Base v)")
    (use copy_folder_fields(1) [of kc "vf_Base v"] in \<open>simp add: VirtualFolder_GetACopy_def\<close>)

lemma copy_user_fields [simp]:
  "u_Username (snd (User_getACopy kc u)) = u_Username u" "u_ID (snd (User_getACopy kc u)) = u_ID u"
  "u_UsedQuotaSize (snd (User_getACopy kc u)) = u_UsedQuotaSize u"
  "u_UsedQuotaFiles (snd (User_getACopy kc u)) = u_UsedQuotaFiles u"
  "vf_Name ` set (u_VirtualFolders (snd (User_getACopy kc u))) = vf_Name ` set (u_VirtualFolders u)"
  by (simp_all add: User_getACopy_def Let_def User_SetEmptySecretsIfNil_def set_folder_secrets_def image_image)

lemma Admin_getACopy_eq [simp]: "Admin_getACopy a = a"
  by (simp add: Admin_getACopy_def)

subsection \<open>Referential integrity\<close>

text \<open>
  The two directions of the relation between users and folders: the folders of a
  user record, and the users that a folder record lists.
\<close>

definition user_links :: "memoryProviderHandle \<Rightarrow> (string \<times> string) set" where
  "user_links h = {(k, n). \<exists>u. gm_get (mp_users h) k = Some u \<and> n \<in> vf_Name ` set (u_VirtualFolders u)}"

definition folder_links :: "memoryProviderHandle \<Rightarrow> (string \<times> string) set" where
  "folder_links h = {(k, n). \<exists>f. gm_get (mp_vfolders h) n = Some f \<and> k \<in> set (bf_Users f)}"

definition named_by :: "('v \<Rightarrow> string) \<Rightarrow> (string, 'v) gomap \<Rightarrow> bool" where
  "named_by name m \<longleftrightarrow> (\<forall>k v. gm_get m k = Some v \<longrightarrow> name v = k)"

definition folders_inv :: "memoryProviderHandle \<Rightarrow> bool" where
  "folders_inv h \<longleftrightarrow> index_ok (mp_vfolders h) (mp_vfoldersNames h) \<and> named_by bf_Name (mp_vfolders h) \<and>
     (\<forall>n f. gm_get (mp_vfolders h) n = Some f \<longrightarrow> distinct (bf_Users f))"

definition users_inv :: "memoryProviderHandle \<Rightarrow> bool" where
  "users_inv h \<longleftrightarrow> index_ok (mp_users h) (mp_usernames h) \<and> named_by u_Username (mp_users h)"

definition admins_inv :: "memoryProviderHandle \<Rightarrow> bool" where
  "admins_inv h \<longleftrightarrow> index_ok (mp_admins h) (mp_adminsUsernames h) \<and> named_by a_Username (mp_admins h)"

definition mem_inv :: "memoryProviderHandle \<Rightarrow> bool" where
  "mem_inv h \<longleftrightarrow> users_inv h \<and> folders_inv h \<and> admins_inv h \<and> user_links h = folder_links h"

lemma named_by_put [simp]: "named_by name m \<Longrightarrow> named_by name (gm_put m (name v) v)"
  by (simp add: named_by_def gm.get_put)

lemma named_by_del [simp]: "named_by name m \<Longrightarrow> named_by name (gm_del m k)"
  by (simp add: named_by_def gm.get_del)

text \<open>Storing a folder under its name, whether or not the name is known.\<close>

lemma updateFoldersMappingInternal_inv:
  assumes "folders_inv h" "distinct (bf_Users f)"
  shows "folders_inv (updateFoldersMappingInternal h f)"
  using assms index_ok_mem [of "mp_vfolders h" "mp_vfoldersNames h" "bf_Name f"]
  by (auto simp: folders_inv_def updateFoldersMappingInternal_def Let_def gm.get_put index_ok_add index_ok_put
      split: if_splits)

lemma updateFoldersMappingInternal_simps [simp]:
  "mp_users (updateFoldersMappingInternal h f) = mp_users h"
  "mp_usernames (updateFoldersMappingInternal h f) = mp_usernames h"
  "mp_admins (updateFoldersMappingInternal h f) = mp_admins h"
  "mp_adminsUsernames (updateFoldersMappingInternal h f) = mp_adminsUsernames h"
  "mp_isClosed (updateFoldersMappingInternal h f) = mp_isClosed h"
  "mp_vfolders (updateFoldersMappingInternal h f) = gm_put (mp_vfolders h) (bf_Name f) f"
  by (simp_all add: updateFoldersMappingInternal_def Let_def)


text \<open>How the helpers change the folder side of the relation.\<close>

definition same_accounts :: "memoryProviderHandle \<Rightarrow> memoryProviderHandle \<Rightarrow> bool" where
  "same_accounts h h' \<longleftrightarrow> mp_users h' = mp_users h \<and> mp_usernames h' = mp_usernames h \<and> mp_admins h' = mp_admins h \<and>
     mp_adminsUsernames h' = mp_adminsUsernames h \<and> mp_isClosed h' = mp_isClosed h"

lemma folders_inv_named: "folders_inv h \<Longrightarrow> gm_get (mp_vfolders h) n = Some f \<Longrightarrow> bf_Name f = n \<and> distinct (bf_Users f)"
  by (auto simp: folders_inv_def named_by_def)

lemma addOrUpdateFolderInternal_result:
  "\<exists>f. addOrUpdateFolderInternal kc h b k s n t = (f, updateFoldersMappingInternal h f) \<and>
     (folders_inv h \<longrightarrow> bf_Name f = bf_Name b \<and> distinct (bf_Users f) \<and>
       set (bf_Users f) = insert k (case gm_get (mp_vfolders h) (bf_Name b) of None \<Rightarrow> {} | Some g \<Rightarrow> set (bf_Users g)))"
  using folders_inv_named [of h "bf_Name b"]
  by (cases "gm_get (mp_vfolders h) (bf_Name b)")
    (auto simp: addOrUpdateFolderInternal_def folderExistsInternal_def Let_def)

lemma addOrUpdateFolderInternal_inv:
  assumes "folders_inv h" "addOrUpdateFolderInternal kc h b k s n t = (f, h')"
  shows "folders_inv h'" "folder_links h' = insert (k, bf_Name b) (folder_links h)" "bf_Name f = bf_Name b"
    "same_accounts h h'"
proof -
  from addOrUpdateFolderInternal_result [of kc h b k s n t] assms
  have h': "h' = updateFoldersMappingInternal h f" and f: "bf_Name f = bf_Name b" "distinct (bf_Users f)"
    and users: "set (bf_Users f) = insert k (case gm_get (mp_vfolders h) (bf_Name b) of None \<Rightarrow> {} | Some g \<Rightarrow> set (bf_Users g))"
    by auto
  show "folders_inv h'" using updateFoldersMappingInternal_inv [OF assms(1) f(2)] by (simp add: h')
  show "folder_links h' = insert (k, bf_Name b) (folder_links h)"
    by (auto simp: h' folder_links_def gm.get_put f(1) users split: option.splits if_splits)
  show "bf_Name f = bf_Name b" by (rule f)
  show "same_accounts h h'" by (simp add: h' same_accounts_def)
qed

lemma join_loop_inv:
  assumes "folders_inv h" "join_loop kc k h vs = (fs, h')"
  shows "folders_inv h' \<and> folder_links h' = {k} \<times> (vf_Name ` set vs) \<union> folder_links h \<and>
    map vf_Name fs = map vf_Name vs \<and> same_accounts h h'"
  using assms
proof (induction vs arbitrary: h fs h')
  case (Cons v vs)
  obtain f h1 where 1: "addOrUpdateFolderInternal kc h (vf_Base v) k 0 0 0 = (f, h1)" by fastforce
  obtain fs' h2 where 2: "join_loop kc k h1 vs = (fs', h2)" by fastforce
  note a = addOrUpdateFolderInternal_inv [OF Cons.prems(1) 1]
  from Cons.prems(2) 1 2 have "fs = v\<lparr>vf_Base := f\<rparr> # fs'" "h' = h2" by simp_all
  with Cons.IH [OF a(1) 2] a(2-4) show ?case by (auto simp: same_accounts_def)
qed (simp add: same_accounts_def)

lemma removeUserFromFolderMapping_inv:
  assumes "folders_inv h"
  shows "folders_inv (removeUserFromFolderMapping h n k)"
    "folder_links (removeUserFromFolderMapping h n k) = folder_links h - {(k, n)}"
    "same_accounts h (removeUserFromFolderMapping h n k)"
proof -
  have "folders_inv (removeUserFromFolderMapping h n k) \<and>
      folder_links (removeUserFromFolderMapping h n k) = folder_links h - {(k, n)}"
  proof (cases "gm_get (mp_vfolders h) n")
    case (Some f)
    then have f: "bf_Name f = n" "distinct (bf_Users f)" using folders_inv_named [OF assms] by auto
    let ?f = "f\<lparr>bf_Users := filter (\<lambda>u. u \<noteq> k) (bf_Users f)\<rparr>"
    have h': "removeUserFromFolderMapping h n k = h\<lparr>mp_vfolders := gm_put (mp_vfolders h) n ?f\<rparr>"
      using Some f by (simp add: removeUserFromFolderMapping_def folderExistsInternal_def)
    have "named_by bf_Name (gm_put (mp_vfolders h) n ?f)"
      using named_by_put [of bf_Name "mp_vfolders h" ?f] assms f by (simp add: folders_inv_def)
    then have "folders_inv (h\<lparr>mp_vfolders := gm_put (mp_vfolders h) n ?f\<rparr>)"
      using assms Some f by (simp add: folders_inv_def index_ok_put gm.get_put)
    moreover have "folder_links (h\<lparr>mp_vfolders := gm_put (mp_vfolders h) n ?f\<rparr>) = folder_links h - {(k, n)}"
      using Some by (auto simp: folder_links_def gm.get_put split: if_splits)
    ultimately show ?thesis by (simp add: h')
  qed (use assms in \<open>auto simp: removeUserFromFolderMapping_def folderExistsInternal_def folder_links_def\<close>)
  then show "folders_inv (removeUserFromFolderMapping h n k)"
    "folder_links (removeUserFromFolderMapping h n k) = folder_links h - {(k, n)}" by blast+
  show "same_accounts h (removeUserFromFolderMapping h n k)"
    by (simp add: removeUserFromFolderMapping_def same_accounts_def split: option.splits)
qed

lemma removeUserFromFolders_inv:
  assumes "folders_inv h"
  shows "folders_inv (removeUserFromFolders h u) \<and>
    folder_links (removeUserFromFolders h u) = folder_links h - {u_Username u} \<times> (vf_Name ` set (u_VirtualFolders u)) \<and>
    same_accounts h (removeUserFromFolders h u)"
proof -
  have "folders_inv (foldl (\<lambda>h v. removeUserFromFolderMapping h (vf_Name v) k) h vs) \<and>
    folder_links (foldl (\<lambda>h v. removeUserFromFolderMapping h (vf_Name v) k) h vs) = folder_links h - {k} \<times> (vf_Name ` set vs) \<and>
    same_accounts h (foldl (\<lambda>h v. removeUserFromFolderMapping h (vf_Name v) k) h vs)" if "folders_inv h" for k vs h
    using that
  proof (induction vs arbitrary: h)
    case (Cons v vs)
    note r = removeUserFromFolderMapping_inv [OF Cons.prems, of "vf_Name v" k]
    from Cons.IH [OF r(1)] r(2,3) show ?case by (auto simp: same_accounts_def)
  qed (simp add: same_accounts_def)
  from this [OF assms] show ?thesis by (simp add: removeUserFromFolders_def)
qed

lemma put_user_simps [simp]:
  "mp_users (put_user h u) = gm_put (mp_users h) (u_Username u) u" "mp_vfolders (put_user h u) = mp_vfolders h"
  "mp_vfoldersNames (put_user h u) = mp_vfoldersNames h" "mp_usernames (put_user h u) = mp_usernames h"
  "mp_admins (put_user h u) = mp_admins h" "mp_adminsUsernames (put_user h u) = mp_adminsUsernames h"
  "mp_isClosed (put_user h u) = mp_isClosed h"
  by (simp_all add: put_user_def)

lemma user_links_put:
  "user_links (put_user h u) = {(k, n) \<in> user_links h. k \<noteq> u_Username u} \<union> {u_Username u} \<times> (vf_Name ` set (u_VirtualFolders u))"
  by (auto simp: user_links_def gm.get_put split: if_splits)


lemma links_of_user:
  assumes "gm_get (mp_users h) k = Some u"
  shows "{(k', n) \<in> user_links h. k' = k} = {k} \<times> (vf_Name ` set (u_VirtualFolders u))"
  using assms by (auto simp: user_links_def)

lemma users_inv_named: "users_inv h \<Longrightarrow> gm_get (mp_users h) k = Some u \<Longrightarrow> u_Username u = k"
  by (auto simp: users_inv_def named_by_def)

text \<open>Storing a user back with the same folders keeps the whole invariant.\<close>

lemma put_user_inv:
  assumes "mem_inv h" "gm_get (mp_users h) (u_Username v) = Some u"
    and "vf_Name ` set (u_VirtualFolders v) = vf_Name ` set (u_VirtualFolders u)"
  shows "mem_inv (put_user h v)"
proof -
  have "user_links (put_user h v) = user_links h"
    using links_of_user [OF assms(2)] assms(3) by (auto simp: user_links_put)
  moreover have "users_inv (put_user h v)"
    using assms(1,2) by (simp add: mem_inv_def users_inv_def index_ok_put)
  ultimately show ?thesis
    using assms(1) by (simp add: mem_inv_def folders_inv_def admins_inv_def folder_links_def)
qed

lemma userExistsInternal_Some:
  "userExistsInternal kc h k = Some c \<longleftrightarrow> (\<exists>u. gm_get (mp_users h) k = Some u \<and> c = snd (User_getACopy kc u))"
  by (auto simp: userExistsInternal_def)

lemma userExistsInternal_None: "userExistsInternal kc h k = None \<longleftrightarrow> gm_get (mp_users h) k = None"
  by (simp add: userExistsInternal_def)

lemma mem_updateLastLogin_inv: "mem_inv h \<Longrightarrow> mem_inv (snd (mem_updateLastLogin kc h now k))"
  using users_inv_named [of h k] put_user_inv
  by (fastforce simp: mem_updateLastLogin_def userExistsInternal_Some mem_inv_def split: option.splits)

lemma mem_updateQuota_inv: "mem_inv h \<Longrightarrow> mem_inv (snd (mem_updateQuota kc h now k n s reset))"
  using users_inv_named [of h k] put_user_inv
  by (fastforce simp: mem_updateQuota_def userExistsInternal_Some mem_inv_def Let_def split: option.splits)

lemma addUser_locked_inv:
  assumes "mem_inv h"
  shows "mem_inv (snd (snd (addUser_locked kc h user)))"
proof (cases "mp_isClosed h \<or> gm_get (mp_users h) (u_Username user) \<noteq> None")
  case True
  then show ?thesis using assms by (auto simp: addUser_locked_def userExistsInternal_def)
next
  case False
  define k where "k = u_Username user"
  define u1 where "u1 = user\<lparr>u_ID := getNextID h, u_LastQuotaUpdate := 0, u_UsedQuotaSize := 0, u_UsedQuotaFiles := 0,
    u_LastLogin := 0\<rparr>"
  obtain fs h1 where j: "join_loop kc k h (u_VirtualFolders user) = (fs, h1)" by fastforce
  define v where "v = snd (User_getACopy kc (u1\<lparr>u_VirtualFolders := fs\<rparr>))"
  have f: "folders_inv h" "users_inv h" "admins_inv h" "user_links h = folder_links h" and new: "gm_get (mp_users h) k = None"
    using assms False by (simp_all add: mem_inv_def k_def)
  note ji = join_loop_inv [OF f(1) j]
  have v: "u_Username v = k" "vf_Name ` set (u_VirtualFolders v) = vf_Name ` set (u_VirtualFolders user)"
    using ji by (simp_all add: v_def u1_def k_def) (metis list.set_map)
  have res: "snd (snd (addUser_locked kc h user)) = (put_user h1 v)\<lparr>mp_usernames := index_add (mp_usernames h1) k\<rparr>"
    using False j by (simp add: addUser_locked_def userExistsInternal_def joinVirtualFoldersFields_def Let_def v_def u1_def k_def)
  have s: "mp_users h1 = mp_users h" "mp_usernames h1 = mp_usernames h" "mp_admins h1 = mp_admins h"
    "mp_adminsUsernames h1 = mp_adminsUsernames h" using ji by (simp_all add: same_accounts_def)
  let ?r = "(put_user h1 v)\<lparr>mp_usernames := index_add (mp_usernames h1) k\<rparr>"
  have "users_inv ?r" using f(2) new named_by_put [of u_Username "mp_users h" v] by (simp add: users_inv_def s v index_ok_add)
  moreover have "folders_inv ?r" "admins_inv ?r" using ji f(3) by (simp_all add: folders_inv_def admins_inv_def s)
  moreover have "user_links ?r = user_links (put_user h1 v)" "user_links h1 = user_links h"
    by (simp_all add: user_links_def s)
  moreover have "(k, n) \<notin> user_links h" for n using new by (simp add: user_links_def)
  ultimately have "user_links ?r = {k} \<times> (vf_Name ` set (u_VirtualFolders user)) \<union> user_links h"
    unfolding user_links_put v by auto
  moreover note \<open>users_inv ?r\<close> \<open>folders_inv ?r\<close> \<open>admins_inv ?r\<close>
  moreover have "folder_links ?r = folder_links h1" by (simp add: folder_links_def)
  ultimately show ?thesis using ji f(4) by (simp add: mem_inv_def res)
qed

lemma updateUser_locked_inv:
  assumes "mem_inv h"
  shows "mem_inv (snd (snd (updateUser_locked kc h user)))"
proof (cases "mp_isClosed h \<or> gm_get (mp_users h) (u_Username user) = None")
  case True
  then show ?thesis using assms by (auto simp: updateUser_locked_def userExistsInternal_def)
next
  case False
  define k where "k = u_Username user"
  from False obtain u where u: "gm_get (mp_users h) k = Some u" by (auto simp: k_def)
  define c where "c = snd (User_getACopy kc u)"
  have f: "folders_inv h" "users_inv h" "admins_inv h" "user_links h = folder_links h" using assms by (simp_all add: mem_inv_def)
  have c: "u_Username c = k" "vf_Name ` set (u_VirtualFolders c) = vf_Name ` set (u_VirtualFolders u)"
    using users_inv_named [OF f(2) u] by (simp_all add: c_def)
  define h1 where "h1 = removeUserFromFolders h c"
  note ri = removeUserFromFolders_inv [OF f(1), of c, folded h1_def]
  obtain fs h2 where j: "join_loop kc k h1 (u_VirtualFolders user) = (fs, h2)" by fastforce
  have "folders_inv h1" using ri by simp
  note ji = join_loop_inv [OF this j]
  define v where "v = snd (User_getACopy kc (user\<lparr>u_VirtualFolders := fs, u_LastQuotaUpdate := u_LastQuotaUpdate c,
    u_UsedQuotaSize := u_UsedQuotaSize c, u_UsedQuotaFiles := u_UsedQuotaFiles c, u_LastLogin := u_LastLogin c, u_ID := u_ID c\<rparr>))"
  have v: "u_Username v = k" "vf_Name ` set (u_VirtualFolders v) = vf_Name ` set (u_VirtualFolders user)"
    using ji by (simp_all add: v_def k_def) (metis list.set_map)
  have res: "snd (snd (updateUser_locked kc h user)) = put_user h2 v"
    using False u j by (simp add: updateUser_locked_def userExistsInternal_def joinVirtualFoldersFields_def Let_def v_def
        h1_def c_def flip: k_def)
  have s: "mp_users h2 = mp_users h" "mp_usernames h2 = mp_usernames h" "mp_admins h2 = mp_admins h"
    "mp_adminsUsernames h2 = mp_adminsUsernames h" using ji ri by (simp_all add: same_accounts_def)
  have "users_inv (put_user h2 v)"
    using f(2) u named_by_put [of u_Username "mp_users h" v] by (simp add: users_inv_def s v index_ok_put)
  moreover have "folders_inv (put_user h2 v)" "admins_inv (put_user h2 v)"
    using ji f(3) by (simp_all add: folders_inv_def admins_inv_def s)
  moreover have "user_links (put_user h2 v) =
      {k} \<times> (vf_Name ` set (u_VirtualFolders user)) \<union> (user_links h - {k} \<times> (vf_Name ` set (u_VirtualFolders u)))"
  proof -
    have "user_links h2 = user_links h" by (simp add: user_links_def s)
    then show ?thesis unfolding user_links_put v using links_of_user [OF u] by auto
  qed
  moreover have "folder_links (put_user h2 v) = folder_links h2" by (simp add: folder_links_def)
  ultimately show ?thesis using ji ri f(4) c by (simp add: mem_inv_def res)
qed

lemma mem_deleteUser_inv:
  assumes "mem_inv h"
  shows "mem_inv (snd (mem_deleteUser kc h user))"
proof (cases "mp_isClosed h \<or> gm_get (mp_users h) (u_Username user) = None")
  case True
  then show ?thesis using assms by (auto simp: mem_deleteUser_def userExistsInternal_def)
next
  case False
  define k where "k = u_Username user"
  from False obtain u where u: "gm_get (mp_users h) k = Some u" by (auto simp: k_def)
  have f: "folders_inv h" "users_inv h" "admins_inv h" "user_links h = folder_links h" using assms by (simp_all add: mem_inv_def)
  define c where "c = snd (User_getACopy kc u)"
  have c: "u_Username c = k" "vf_Name ` set (u_VirtualFolders c) = vf_Name ` set (u_VirtualFolders u)"
    using users_inv_named [OF f(2) u] by (simp_all add: c_def)
  define h1 where "h1 = removeUserFromFolders h c"
  note ri = removeUserFromFolders_inv [OF f(1), of c, folded h1_def]
  have s: "mp_users h1 = mp_users h" "mp_usernames h1 = mp_usernames h" "mp_admins h1 = mp_admins h"
    "mp_adminsUsernames h1 = mp_adminsUsernames h" using ri by (simp_all add: same_accounts_def)
  let ?r = "h1\<lparr>mp_users := gm_del (mp_users h) k, mp_usernames := index_rebuild (gm_del (mp_users h) k)\<rparr>"
  have res: "snd (mem_deleteUser kc h user) = ?r"
    using False u s by (simp add: mem_deleteUser_def userExistsInternal_def Let_def h1_def c_def flip: k_def)
  have "users_inv ?r" using f(2) index_ok_del [of "mp_users h" "mp_usernames h" k] by (simp add: users_inv_def)
  moreover have "folders_inv ?r" "admins_inv ?r" using ri f(3) by (simp_all add: folders_inv_def admins_inv_def s)
  moreover have "user_links ?r = user_links h - {k} \<times> (vf_Name ` set (u_VirtualFolders u))"
    using u by (auto simp: user_links_def gm.get_del split: if_splits)
  moreover have "folder_links ?r = folder_links h1" by (simp add: folder_links_def)
  ultimately show ?thesis using ri f(4) c by (simp add: mem_inv_def res)
qed


text \<open>A change of all users of a list that takes the folders \<open>D\<close> away from them.\<close>

lemma on_users_inv:
  assumes "\<And>u. u_Username (f u) = u_Username u" and "\<And>u. vf_Name ` set (u_VirtualFolders (f u)) = vf_Name ` set (u_VirtualFolders u) - D"
    and "users_inv h"
  shows "users_inv (on_users kc f h names) \<and> user_links (on_users kc f h names) = user_links h - set names \<times> D \<and>
    (\<exists>us. on_users kc f h names = h\<lparr>mp_users := us\<rparr>)"
  using assms(3)
proof (induction names arbitrary: h)
  case (Cons k names)
  define h1 where "h1 = (case userExistsInternal kc h k of None \<Rightarrow> h | Some user \<Rightarrow> put_user h (f user))"
  have "users_inv h1 \<and> user_links h1 = user_links h - {k} \<times> D \<and> (\<exists>us. h1 = h\<lparr>mp_users := us\<rparr>)"
  proof (cases "gm_get (mp_users h) k")
    case None
    then have "h1 = h" "\<And>n. (k, n) \<notin> user_links h" by (simp_all add: h1_def userExistsInternal_def user_links_def)
    moreover have "h = h\<lparr>mp_users := mp_users h\<rparr>" by simp
    ultimately show ?thesis using Cons.prems by blast
  next
    case (Some u)
    have uk: "u_Username u = k" using users_inv_named [OF Cons.prems Some] .
    define v where "v = f (snd (User_getACopy kc u))"
    have v: "u_Username v = k" "vf_Name ` set (u_VirtualFolders v) = vf_Name ` set (u_VirtualFolders u) - D"
      by (simp_all add: v_def assms uk)
    have h1: "h1 = put_user h v" using Some by (simp add: h1_def userExistsInternal_def v_def)
    have "users_inv h1"
      using Cons.prems Some named_by_put [of u_Username "mp_users h" v] by (simp add: users_inv_def h1 v index_ok_put)
    moreover have "user_links h1 = user_links h - {k} \<times> D"
      unfolding h1 user_links_put v using links_of_user [OF Some] by auto
    ultimately show ?thesis by (auto simp: h1 put_user_def)
  qed
  moreover have "on_users kc f h (k # names) = on_users kc f h1 names" by (simp add: on_users_def h1_def)
  ultimately show ?case using Cons.IH [of h1] by auto
next
  case Nil
  show ?case using Nil by (simp add: on_users_def) (rule exI [of _ "mp_users h"], simp)
qed

lemma replace_user_folder_names [simp]:
  "u_Username (replace_user_folder kc folder u) = u_Username u"
  "vf_Name ` set (u_VirtualFolders (replace_user_folder kc folder u)) = vf_Name ` set (u_VirtualFolders u)"
proof -
  have "map vf_Name (u_VirtualFolders (replace_user_folder kc folder u)) = map vf_Name (u_VirtualFolders u)"
    by (simp add: replace_user_folder_def)
  then show "vf_Name ` set (u_VirtualFolders (replace_user_folder kc folder u)) = vf_Name ` set (u_VirtualFolders u)"
    by (metis list.set_map)
qed (simp add: replace_user_folder_def)

lemma remove_user_folder_names [simp]:
  "u_Username (remove_user_folder folder u) = u_Username u"
  "vf_Name ` set (u_VirtualFolders (remove_user_folder folder u)) = vf_Name ` set (u_VirtualFolders u) - {bf_Name folder}"
  by (auto simp: remove_user_folder_def)

lemma addFolder_locked_inv:
  assumes "mem_inv h"
  shows "mem_inv (snd (snd (addFolder_locked kc h folder)))"
proof (cases "mp_isClosed h \<or> gm_get (mp_vfolders h) (bf_Name folder) \<noteq> None")
  case True
  then show ?thesis using assms by (auto simp: addFolder_locked_def folderExistsInternal_def)
next
  case False
  let ?n = "bf_Name folder"
  let ?f = "snd (Folder_GetACopy kc (folder\<lparr>bf_ID := getNextFolderID h, bf_Users := []\<rparr>))"
  let ?r = "h\<lparr>mp_vfolders := gm_put (mp_vfolders h) ?n ?f, mp_vfoldersNames := index_add (mp_vfoldersNames h) ?n\<rparr>"
  have res: "snd (snd (addFolder_locked kc h folder)) = ?r"
    using False by (simp add: addFolder_locked_def folderExistsInternal_def Let_def)
  have "named_by bf_Name (gm_put (mp_vfolders h) ?n ?f)"
    using named_by_put [of bf_Name "mp_vfolders h" ?f] assms by (simp add: mem_inv_def folders_inv_def)
  then have "folders_inv ?r" using assms False by (simp add: mem_inv_def folders_inv_def index_ok_add gm.get_put)
  moreover have "folder_links ?r = folder_links h" "user_links ?r = user_links h"
    using False by (auto simp: folder_links_def user_links_def gm.get_put split: if_splits)
  ultimately show ?thesis using assms by (simp add: mem_inv_def res users_inv_def admins_inv_def)
qed

lemma updateFolder_locked_inv:
  assumes "mem_inv h"
  shows "mem_inv (snd (snd (updateFolder_locked kc h folder)))"
proof (cases "mp_isClosed h \<or> gm_get (mp_vfolders h) (bf_Name folder) = None")
  case True
  then show ?thesis using assms by (auto simp: updateFolder_locked_def folderExistsInternal_def)
next
  case False
  let ?n = "bf_Name folder"
  from False obtain f where f: "gm_get (mp_vfolders h) ?n = Some f" by auto
  have "distinct (bf_Users f)" using f assms folders_inv_named by (auto simp: mem_inv_def)
  define g where "g = folder\<lparr>bf_ID := bf_ID f, bf_LastQuotaUpdate := bf_LastQuotaUpdate f,
    bf_UsedQuotaFiles := bf_UsedQuotaFiles f, bf_UsedQuotaSize := bf_UsedQuotaSize f, bf_Users := bf_Users f\<rparr>"
  define h1 where "h1 = h\<lparr>mp_vfolders := gm_put (mp_vfolders h) ?n (snd (Folder_GetACopy kc g))\<rparr>"
  define r where "r = on_users kc (replace_user_folder kc g) h1 (bf_Users f)"
  have res: "snd (snd (updateFolder_locked kc h folder)) = r"
    using False f by (simp add: updateFolder_locked_def folderExistsInternal_def Let_def g_def h1_def r_def)
  have "named_by bf_Name (gm_put (mp_vfolders h) ?n (snd (Folder_GetACopy kc g)))"
    using named_by_put [of bf_Name "mp_vfolders h" "snd (Folder_GetACopy kc g)"] assms
    by (simp add: mem_inv_def folders_inv_def g_def)
  then have "folders_inv h1"
    using assms f \<open>distinct (bf_Users f)\<close> by (simp add: mem_inv_def folders_inv_def h1_def index_ok_put gm.get_put g_def)
  moreover have "folder_links h1 = folder_links h" "user_links h1 = user_links h"
    using f by (auto simp: folder_links_def user_links_def h1_def gm.get_put g_def split: if_splits)
  moreover have "users_inv h1" "admins_inv h1" using assms by (simp_all add: mem_inv_def users_inv_def admins_inv_def h1_def)
  moreover have "users_inv r \<and> user_links r = user_links h1 - set (bf_Users f) \<times> {} \<and> (\<exists>us. r = h1\<lparr>mp_users := us\<rparr>)"
    unfolding r_def by (rule on_users_inv) (simp_all add: \<open>users_inv h1\<close>)
  moreover have "folders_inv (h1\<lparr>mp_users := x\<rparr>) = folders_inv h1" "admins_inv (h1\<lparr>mp_users := x\<rparr>) = admins_inv h1"
    "folder_links (h1\<lparr>mp_users := x\<rparr>) = folder_links h1" for x
    by (simp_all add: folders_inv_def admins_inv_def folder_links_def)
  ultimately show ?thesis using assms by (auto simp: res mem_inv_def)
qed

text \<open>
  Deleting a folder keeps the invariant when the caller's list of users covers
  those that have the folder now.
\<close>

lemma mem_deleteFolder_inv:
  assumes "mem_inv h" "\<forall>k. (k, bf_Name folder) \<in> user_links h \<longrightarrow> k \<in> set (bf_Users folder)"
  shows "mem_inv (snd (mem_deleteFolder kc h folder))"
proof (cases "mp_isClosed h \<or> gm_get (mp_vfolders h) (bf_Name folder) = None")
  case True
  then show ?thesis using assms by (auto simp: mem_deleteFolder_def folderExistsInternal_def)
next
  case False
  let ?n = "bf_Name folder"
  define h1 where "h1 = on_users kc (remove_user_folder folder) h (bf_Users folder)"
  have "users_inv h1 \<and> user_links h1 = user_links h - set (bf_Users folder) \<times> {?n} \<and> (\<exists>us. h1 = h\<lparr>mp_users := us\<rparr>)"
    unfolding h1_def by (rule on_users_inv) (use assms in \<open>simp_all add: mem_inv_def\<close>)
  then obtain us where ui: "users_inv h1" "user_links h1 = user_links h - set (bf_Users folder) \<times> {?n}"
    and h1: "h1 = h\<lparr>mp_users := us\<rparr>" by blast
  let ?m = "gm_del (mp_vfolders h) ?n"
  let ?r = "h1\<lparr>mp_vfolders := ?m, mp_vfoldersNames := index_rebuild ?m\<rparr>"
  have res: "snd (mem_deleteFolder kc h folder) = ?r"
    using False by (auto simp: mem_deleteFolder_def folderExistsInternal_def Let_def h1_def [symmetric] h1)
  have "folders_inv ?r"
    using assms(1) index_ok_del [of "mp_vfolders h" "mp_vfoldersNames h" ?n]
    by (auto simp: mem_inv_def folders_inv_def gm.get_del split: if_splits)
  moreover have "users_inv ?r" "admins_inv ?r" using ui(1) assms(1) by (simp_all add: users_inv_def admins_inv_def mem_inv_def h1)
  moreover have "user_links ?r = user_links h1" by (simp add: user_links_def)
  moreover have "folder_links ?r = folder_links h - UNIV \<times> {?n}" by (auto simp: folder_links_def gm.get_del split: if_splits)
  ultimately show ?thesis using assms ui(2) by (auto simp: mem_inv_def res)
qed

lemma mem_updateFolderQuota_inv:
  assumes "mem_inv h"
  shows "mem_inv (snd (mem_updateFolderQuota h now n filesAdd sizeAdd reset))"
proof (cases "mp_isClosed h \<or> gm_get (mp_vfolders h) n = None")
  case True
  then show ?thesis using assms by (auto simp: mem_updateFolderQuota_def folderExistsInternal_def)
next
  case False
  then obtain f where f: "gm_get (mp_vfolders h) n = Some f" by auto
  then have n: "bf_Name f = n" "distinct (bf_Users f)" using assms folders_inv_named by (auto simp: mem_inv_def)
  obtain g where r: "snd (mem_updateFolderQuota h now n filesAdd sizeAdd reset) = h\<lparr>mp_vfolders := gm_put (mp_vfolders h) n g\<rparr>"
    and g: "bf_Name g = n" "bf_Users g = bf_Users f"
    using False f n by (auto simp: mem_updateFolderQuota_def folderExistsInternal_def Let_def)
  have "named_by bf_Name (gm_put (mp_vfolders h) n g)"
    using named_by_put [of bf_Name "mp_vfolders h" g] assms g by (simp add: mem_inv_def folders_inv_def)
  moreover have "folder_links (h\<lparr>mp_vfolders := gm_put (mp_vfolders h) n g\<rparr>) = folder_links h"
    using f g by (auto simp: folder_links_def gm.get_put split: if_splits)
  ultimately show ?thesis using assms f g n
    by (simp add: r mem_inv_def folders_inv_def users_inv_def admins_inv_def user_links_def index_ok_put gm.get_put)
qed

lemma mem_admin_inv:
  assumes "mem_inv h"
  shows "mem_addAdmin E h a = Some (e, b, h') \<Longrightarrow> mem_inv h'" "mem_updateAdmin E h a = Some (e, b, h') \<Longrightarrow> mem_inv h'"
    "mem_inv (snd (mem_deleteAdmin h a))"
proof -
  have keep: "mem_inv (h\<lparr>mp_admins := m, mp_adminsUsernames := ns\<rparr>) \<longleftrightarrow> index_ok m ns \<and> named_by a_Username m"
    "mem_inv (h\<lparr>mp_admins := m\<rparr>) \<longleftrightarrow> index_ok m (mp_adminsUsernames h) \<and> named_by a_Username m" for m ns
    using assms by (auto simp: mem_inv_def users_inv_def folders_inv_def admins_inv_def user_links_def folder_links_def)
  have inv: "index_ok (mp_admins h) (mp_adminsUsernames h)" "named_by a_Username (mp_admins h)"
    using assms by (simp_all add: mem_inv_def admins_inv_def)
  have named: "named_by a_Username (gm_put (mp_admins h) (a_Username c) (c\<lparr>a_ID := i\<rparr>))" for c i
    using named_by_put [OF inv(2), of "c\<lparr>a_ID := i\<rparr>"] by simp
  show "mem_addAdmin E h a = Some (e, b, h') \<Longrightarrow> mem_inv h'"
    using assms inv by (auto simp: mem_addAdmin_def adminExistsInternal_def Let_def keep named index_ok_add
        split: if_splits option.splits)
  show "mem_updateAdmin E h a = Some (e, b, h') \<Longrightarrow> mem_inv h'"
    using assms inv by (auto simp: mem_updateAdmin_def adminExistsInternal_def Let_def keep named index_ok_put
        split: if_splits option.splits)
  show "mem_inv (snd (mem_deleteAdmin h a))"
    using assms inv index_ok_del [OF inv(1)] by (auto simp: mem_deleteAdmin_def adminExistsInternal_def Let_def keep split: option.splits)
qed


subsection \<open>All operations together\<close>

text \<open>
  One critical section of a concurrent execution. The users and folders passed to
  the locked parts are arbitrary: they were validated against some earlier state.
  A folder is deleted in the state in which it was read.
\<close>

inductive mem_step :: "venv \<Rightarrow> memoryProviderHandle \<Rightarrow> memoryProviderHandle \<Rightarrow> bool" for E where
  step_addUser: "mem_step E h (snd (snd (addUser_locked (ve_kms E) h u)))"
| step_updateUser: "mem_step E h (snd (snd (updateUser_locked (ve_kms E) h u)))"
| step_deleteUser: "mem_step E h (snd (mem_deleteUser (ve_kms E) h u))"
| step_lastLogin: "mem_step E h (snd (mem_updateLastLogin (ve_kms E) h now k))"
| step_quota: "mem_step E h (snd (mem_updateQuota (ve_kms E) h now k n s reset))"
| step_folderQuota: "mem_step E h (snd (mem_updateFolderQuota h now k n s reset))"
| step_addFolder: "mem_step E h (snd (snd (addFolder_locked (ve_kms E) h f)))"
| step_updateFolder: "mem_step E h (snd (snd (updateFolder_locked (ve_kms E) h f)))"
| step_deleteFolder: "mem_getFolderByName (ve_kms E) h n = Inr f \<Longrightarrow> mem_step E h (snd (mem_deleteFolder (ve_kms E) h f))"
| step_addAdmin: "mem_addAdmin E h a = Some (e, b, h') \<Longrightarrow> mem_step E h h'"
| step_updateAdmin: "mem_updateAdmin E h a = Some (e, b, h') \<Longrightarrow> mem_step E h h'"
| step_deleteAdmin: "mem_step E h (snd (mem_deleteAdmin h a))"
| step_clear: "mem_step E h (mem_clear h)"
| step_close: "mem_step E h (snd (mem_close h))"

inductive mem_reachable :: "venv \<Rightarrow> memoryProviderHandle \<Rightarrow> bool" for E where
  reach_init: "mem_reachable E empty_handle"
| reach_step: "mem_reachable E h \<Longrightarrow> mem_step E h h' \<Longrightarrow> mem_reachable E h'"

lemma mem_inv_empty: "mp_users h = [] \<Longrightarrow> mp_usernames h = [] \<Longrightarrow> mp_vfolders h = [] \<Longrightarrow> mp_vfoldersNames h = [] \<Longrightarrow>
    mp_admins h = [] \<Longrightarrow> mp_adminsUsernames h = [] \<Longrightarrow> mem_inv h"
  by (simp add: mem_inv_def users_inv_def folders_inv_def admins_inv_def index_ok_empty named_by_def user_links_def
      folder_links_def)

lemma mem_getFolderByName_users:
  assumes "mem_getFolderByName kc h n = Inr f" "mem_inv h"
  shows "\<forall>k. (k, bf_Name f) \<in> user_links h \<longrightarrow> k \<in> set (bf_Users f)"
proof -
  from assms(1) obtain g where g: "gm_get (mp_vfolders h) n = Some g" "f = snd (Folder_GetACopy kc g)"
    by (auto simp: mem_getFolderByName_def folderExistsInternal_def split: if_splits option.splits)
  moreover have "bf_Name g = n" using assms(2) folders_inv_named g(1) by (auto simp: mem_inv_def)
  moreover have "user_links h = folder_links h" using assms(2) by (simp add: mem_inv_def)
  ultimately show ?thesis by (auto simp: folder_links_def)
qed

lemma mem_close_inv: "mem_inv h \<Longrightarrow> mem_inv (snd (mem_close h))"
  by (simp add: mem_close_def mem_inv_def users_inv_def folders_inv_def admins_inv_def user_links_def folder_links_def)

lemma mem_step_inv:
  assumes "mem_step E h h'" "mem_inv h"
  shows "mem_inv h'"
  using assms(1)
proof (cases rule: mem_step.cases)
  case (step_deleteFolder n f)
  then show ?thesis using mem_deleteFolder_inv mem_getFolderByName_users assms(2) by blast
next
  case step_clear
  then show ?thesis by (simp add: mem_inv_empty mem_clear_def)
next
  case step_addAdmin
  then show ?thesis using mem_admin_inv(1) [OF assms(2)] by blast
next
  case step_updateAdmin
  then show ?thesis using mem_admin_inv(2) [OF assms(2)] by blast
qed (use assms(2) in \<open>simp_all add: addUser_locked_inv updateUser_locked_inv mem_deleteUser_inv mem_updateLastLogin_inv
      mem_updateQuota_inv mem_updateFolderQuota_inv addFolder_locked_inv updateFolder_locked_inv mem_admin_inv(3) mem_close_inv\<close>)

lemma reachable_inv: "mem_reachable E h \<Longrightarrow> mem_inv h"
proof (induction rule: mem_reachable.induct)
  case reach_init
  show ?case by (simp add: mem_inv_empty empty_handle_def)
next
  case (reach_step h h')
  then show ?case by (blast intro: mem_step_inv)
qed



definition example_folder :: BaseVirtualFolder where
  "example_folder = zero_BaseVirtualFolder\<lparr>bf_Name := ''f'', bf_MappedPath := ''/m''\<rparr>"

definition example_member :: User where
  "example_member = zero_User\<lparr>u_Username := ''u'', u_VirtualFolders := [\<lparr>vf_Base = example_folder, vf_VirtualPath = ''/v'',
     vf_QuotaSize = 0, vf_QuotaFiles = 0\<rparr>]\<rparr>"

abbreviation "example_mem1 \<equiv> snd (snd (addFolder_locked (ve_kms example_venv) empty_handle example_folder))"
abbreviation "example_mem2 \<equiv> snd (snd (addUser_locked (ve_kms example_venv) example_mem1 example_member))"

lemma example_mem_reachable: "mem_reachable example_venv example_mem1" "mem_reachable example_venv example_mem2"
  by (intro reach_step [OF _ step_addFolder] reach_step [OF _ step_addUser] reach_init)+

lemma example_mem_links: "(''u'', ''f'') \<in> user_links example_mem2" "\<not> mp_isClosed example_mem2"
proof -
  let ?kc = "ve_kms example_venv"
  have h1: "mp_users example_mem1 = []" "\<not> mp_isClosed example_mem1"
    by (simp_all add: addFolder_locked_def empty_handle_def folderExistsInternal_def Let_def)
  have inv: "folders_inv example_mem1" using reachable_inv [OF example_mem_reachable(1)] by (simp add: mem_inv_def)
  obtain fs h2 where j: "join_loop ?kc ''u'' example_mem1 (u_VirtualFolders example_member) = (fs, h2)" by fastforce
  have ji: "map vf_Name fs = [''f'']" "same_accounts example_mem1 h2"
    using join_loop_inv [OF inv j] by (simp_all add: example_member_def example_folder_def)
  have u: "u_Username example_member = ''u''" by (simp add: example_member_def)
  have names: "vf_Name ` set fs = {''f''}" using ji(1) by (metis list.set_map list.simps(15) empty_set)
  show "(''u'', ''f'') \<in> user_links example_mem2" "\<not> mp_isClosed example_mem2"
    using h1 j ji(2) names u
    by (simp_all add: addUser_locked_def userExistsInternal_def joinVirtualFoldersFields_def Let_def user_links_def
        gm.get_put same_accounts_def)
qed


text \<open>
  C20: \<^verbatim>\<open>DeleteFolder\<close> reads the folder, releases the lock and deletes with the list of
  users it read. A user who got the folder in between keeps a reference to a
  folder that no longer exists, and the provider leaves its consistent states.
\<close>

theorem DeleteFolder_race:
  assumes "mem_inv h" "\<not> mp_isClosed h" "(k, bf_Name f) \<in> user_links h" "k \<notin> set (bf_Users f)"
  shows "\<exists>h'. mem_deleteFolder kc h f = (None, h') \<and> (k, bf_Name f) \<in> user_links h' \<and>
    gm_get (mp_vfolders h') (bf_Name f) = None \<and> \<not> mem_inv h'"
proof -
  define h1 where "h1 = on_users kc (remove_user_folder f) h (bf_Users f)"
  have "users_inv h1 \<and> user_links h1 = user_links h - set (bf_Users f) \<times> {bf_Name f} \<and> (\<exists>us. h1 = h\<lparr>mp_users := us\<rparr>)"
    unfolding h1_def by (rule on_users_inv) (use assms in \<open>simp_all add: mem_inv_def\<close>)
  then have links: "(k, bf_Name f) \<in> user_links h1" and vf: "mp_vfolders h1 = mp_vfolders h" using assms(3,4) by auto
  let ?m = "gm_del (mp_vfolders h) (bf_Name f)"
  let ?r = "h1\<lparr>mp_vfolders := ?m, mp_vfoldersNames := index_rebuild ?m\<rparr>"
  have "gm_get (mp_vfolders h) (bf_Name f) \<noteq> None" using assms(1,3) by (auto simp: mem_inv_def folder_links_def)
  then have res: "mem_deleteFolder kc h f = (None, ?r)"
    using assms(2) by (auto simp: mem_deleteFolder_def folderExistsInternal_def Let_def vf simp flip: h1_def)
  have "(k, bf_Name f) \<in> user_links ?r" using links by (simp add: user_links_def)
  moreover have "(k, bf_Name f) \<notin> folder_links ?r" by (simp add: folder_links_def gm.get_del)
  ultimately show ?thesis by (auto simp: res gm.get_del mem_inv_def)
qed

theorem DeleteFolder_race_witness:
  "\<exists>f h'. mem_getFolderByName (ve_kms example_venv) example_mem1 ''f'' = Inr f \<and>
     mem_deleteFolder (ve_kms example_venv) example_mem2 f = (None, h') \<and> (''u'', ''f'') \<in> user_links h' \<and>
     gm_get (mp_vfolders h') ''f'' = None"
proof -
  have "\<exists>f. mem_getFolderByName (ve_kms example_venv) example_mem1 ''f'' = Inr f \<and> bf_Name f = ''f'' \<and> bf_Users f = []"
    by (simp add: mem_getFolderByName_def addFolder_locked_def empty_handle_def folderExistsInternal_def Let_def
        gm.get_put example_folder_def)
  then obtain f where f: "mem_getFolderByName (ve_kms example_venv) example_mem1 ''f'' = Inr f" "bf_Name f = ''f''" "bf_Users f = []"
    by blast
  from DeleteFolder_race [OF reachable_inv [OF example_mem_reachable(2)] example_mem_links(2), of "''u''" f] show ?thesis
    using f example_mem_links(1) by auto
qed


subsection \<open>Adding a user, validation included\<close>

definition stored_folders_ok :: "memoryProviderHandle \<Rightarrow> bool" where
  "stored_folders_ok h \<longleftrightarrow> (\<forall>n f. gm_get (mp_vfolders h) n = Some f \<longrightarrow> known_provider f)"

lemma copy_fs_facts:
  "fc_Provider (snd (Filesystem_GetACopy kc f)) = fc_Provider f" "None \<notin> set (provider_secrets (snd (Filesystem_GetACopy kc f)))"
  by (simp_all add: Filesystem_GetACopy_def Filesystem_copy_of_def SetEmptySecretsIfNil_def Let_def provider_secrets_def
      eq_commute [of None] del: not_None_eq)

lemma folder_lookup_ok: "stored_folders_ok h \<Longrightarrow> lookup_ok (folder_lookup kc h)"
  by (auto simp: lookup_ok_def folder_lookup_def mem_getFolderByName_def folderExistsInternal_def stored_folders_ok_def
      known_provider_def Folder_GetACopy_def copy_fs_facts case_prod_unfold split: if_splits option.splits sum.splits)

lemma join_loop_stored:
  assumes "join_loop kc k h vs = (fs, h')" "stored_folders_ok h" "\<forall>v \<in> set vs. known_provider (vf_Base v)"
  shows "stored_folders_ok h'"
  using assms
proof (induction vs arbitrary: h fs h')
  case (Cons v vs)
  obtain f h1 where 1: "addOrUpdateFolderInternal kc h (vf_Base v) k 0 0 0 = (f, h1)" by fastforce
  obtain fs' h2 where 2: "join_loop kc k h1 vs = (fs', h2)" by fastforce
  have "known_provider f \<and> h1 = updateFoldersMappingInternal h f"
    using 1 Cons.prems(3) by (auto simp: addOrUpdateFolderInternal_def Let_def known_provider_def copy_fs_facts
        Folder_GetACopy_def case_prod_unfold split: option.splits if_splits)
  then have "stored_folders_ok h1"
    using Cons.prems(2) by (auto simp: stored_folders_ok_def gm.get_put split: if_splits)
  from Cons.IH [OF 2 this] Cons.prems 1 2 show ?case by simp
qed simp


lemma join_loop_accounts: "join_loop kc k h vs = (fs, h') \<Longrightarrow> same_accounts h h'"
proof (induction vs arbitrary: h fs h')
  case (Cons v vs)
  obtain f h1 where 1: "addOrUpdateFolderInternal kc h (vf_Base v) k 0 0 0 = (f, h1)" by fastforce
  obtain fs' h2 where 2: "join_loop kc k h1 vs = (fs', h2)" by fastforce
  have "same_accounts h h1"
    using 1 by (auto simp: addOrUpdateFolderInternal_def Let_def same_accounts_def split: option.splits)
  with Cons.IH [OF 2] Cons.prems 1 2 show ?case by (simp add: same_accounts_def)
qed (simp add: same_accounts_def)

lemma addUser_locked_ok:
  assumes "addUser_locked kc h x = (None, v, h')"
  shows "\<not> mp_isClosed h" "gm_get (mp_users h) (u_Username x) = None"
    "v = x\<lparr>u_ID := getNextID h, u_LastQuotaUpdate := 0, u_UsedQuotaSize := 0, u_UsedQuotaFiles := 0, u_LastLogin := 0,
       u_VirtualFolders := u_VirtualFolders v\<rparr>"
    "gm_get (mp_users h') = (gm_get (mp_users h))(u_Username x \<mapsto> snd (User_getACopy kc v))" "\<not> mp_isClosed h'"
    "stored_folders_ok h \<Longrightarrow> \<forall>w \<in> set (u_VirtualFolders x). known_provider (vf_Base w) \<Longrightarrow> stored_folders_ok h'"
proof -
  from assms show c: "\<not> mp_isClosed h" "gm_get (mp_users h) (u_Username x) = None"
    by (auto simp: addUser_locked_def userExistsInternal_def Let_def split: if_splits option.splits prod.splits)
  let ?x = "x\<lparr>u_ID := getNextID h, u_LastQuotaUpdate := 0, u_UsedQuotaSize := 0, u_UsedQuotaFiles := 0, u_LastLogin := 0\<rparr>"
  obtain fs h1 where j: "join_loop kc (u_Username x) h (u_VirtualFolders x) = (fs, h1)" by fastforce
  from assms c j have v: "v = ?x\<lparr>u_VirtualFolders := fs\<rparr>"
    and h': "h' = (put_user h1 (snd (User_getACopy kc v)))\<lparr>mp_usernames := index_add (mp_usernames h1) (u_Username x)\<rparr>"
    by (auto simp: addUser_locked_def userExistsInternal_def joinVirtualFoldersFields_def Let_def)
  show "v = ?x\<lparr>u_VirtualFolders := u_VirtualFolders v\<rparr>" by (simp add: v)
  have "same_accounts h h1" by (rule join_loop_accounts [OF j])
  then show "gm_get (mp_users h') = (gm_get (mp_users h))(u_Username x \<mapsto> snd (User_getACopy kc v))" "\<not> mp_isClosed h'"
    using c by (simp_all add: h' v gm.get_put same_accounts_def)
  show "stored_folders_ok h \<Longrightarrow> \<forall>w \<in> set (u_VirtualFolders x). known_provider (vf_Base w) \<Longrightarrow> stored_folders_ok h'"
    using join_loop_stored [OF j] by (simp add: h' stored_folders_ok_def)
qed

lemma addUser_locked_error: "addUser_locked kc h x = (Some e, v, h') \<Longrightarrow> h' = h \<and> v = x"
  by (auto simp: addUser_locked_def Let_def split: if_splits option.splits prod.splits)




lemma next_id_fold:
  assumes "\<forall>i \<in> set ids. in_i64 i \<and> i < 2 ^ 63 - 1"
  shows "n \<le> foldl (\<lambda>n i. if i \<ge> n then add64 i 1 else n) n ids \<and>
    (\<forall>i \<in> set ids. i < foldl (\<lambda>n i. if i \<ge> n then add64 i 1 else n) n ids)"
  using assms
proof (induction ids arbitrary: n)
  case (Cons i ids)
  define n' where "n' = (if i \<ge> n then add64 i 1 else n)"
  have "add64 i 1 = i + 1" using Cons.prems by (intro add64_id) (auto simp: in_i64_def)
  then have "n \<le> n'" "i < n'" by (auto simp: n'_def)
  with Cons.IH [of n'] Cons.prems show ?case by (fastforce simp: n'_def)
qed simp

text \<open>
  The next identifier is positive and unused as long as no identifier has
  reached the largest \<^verbatim>\<open>int64\<close>; at that point the addition wraps around.
\<close>

theorem next_id_fresh:
  assumes "\<forall>i \<in> set ids. in_i64 i \<and> i < 2 ^ 63 - 1"
  shows "1 \<le> next_id ids \<and> next_id ids \<notin> set ids"
  using next_id_fold [OF assms, of 1] by (auto simp: next_id_def)


lemma take_drop_pages: "concat (map (\<lambda>i. take l (drop (i * l) xs)) [0..<m]) = take (m * l) xs"
proof (induction m)
  case (Suc m)
  have "take (m * l + l) xs = take (m * l) xs @ take l (drop (m * l) xs)" by (rule take_add)
  with Suc show ?case by (simp add: add.commute [of l])
qed simp

text \<open>
  Reading a listing page by page, with any positive page size, gives every
  name exactly once and in order; the pages beyond the end are empty. This holds
  for the ascending order, and for the reversed names in the descending one.
\<close>

theorem page_names_cover:
  assumes "0 < limit" "length names \<le> m * nat limit"
  shows "concat (map (\<lambda>i. page_names names limit (int i * limit) order) [0..<m]) =
    (if order = OrderASC then names else rev names)"
proof -
  have "nat (int i * limit) = i * nat limit" for i using assms(1) by (simp add: nat_mult_distrib)
  with assms(2) show ?thesis by (simp add: page_names_eq take_drop_pages)
qed

lemma on_users_get:
  assumes "users_inv h" "distinct names" "\<And>u. u_Username (f u) = u_Username u"
  shows "gm_get (mp_users (on_users kc f h names)) k =
    (if k \<in> set names then map_option (\<lambda>u. f (snd (User_getACopy kc u))) (gm_get (mp_users h) k) else gm_get (mp_users h) k)"
  using assms(1,2)
proof (induction names arbitrary: h)
  case (Cons n names)
  define h1 where "h1 = (case userExistsInternal kc h n of None \<Rightarrow> h | Some user \<Rightarrow> put_user h (f user))"
  have "users_inv h1 \<and> gm_get (mp_users h1) k =
      (if k = n then map_option (\<lambda>u. f (snd (User_getACopy kc u))) (gm_get (mp_users h) k) else gm_get (mp_users h) k)"
  proof (cases "gm_get (mp_users h) n")
    case None
    then show ?thesis using Cons.prems by (simp add: h1_def userExistsInternal_def)
  next
    case (Some u)
    then have "u_Username (f (snd (User_getACopy kc u))) = n" using users_inv_named [OF Cons.prems(1)] by (simp add: assms(3))
    then show ?thesis
      using Some Cons.prems(1) named_by_put [of u_Username "mp_users h" "f (snd (User_getACopy kc u))"]
      by (simp add: h1_def userExistsInternal_def gm.get_put users_inv_def index_ok_put)
  qed
  moreover have "on_users kc f h (n # names) = on_users kc f h1 names" by (simp add: on_users_def h1_def)
  ultimately show ?case using Cons.IH [of h1] Cons.prems by auto
qed (simp add: on_users_def)

lemma updateFolder_locked_links:
  assumes "mem_inv h" "updateFolder_locked kc h g = (None, g', h')"
  shows "user_links h' = user_links h"
proof -
  from assms(2) obtain names where "h' = on_users kc (replace_user_folder kc g')
      (h\<lparr>mp_vfolders := gm_put (mp_vfolders h) (bf_Name g) (snd (Folder_GetACopy kc g'))\<rparr>) names"
    by (auto simp: updateFolder_locked_def folderExistsInternal_def Let_def split: if_splits option.splits)
  moreover have "users_inv (h\<lparr>mp_vfolders := m\<rparr>)" "user_links (h\<lparr>mp_vfolders := m\<rparr>) = user_links h" for m
    using assms(1) by (simp_all add: mem_inv_def users_inv_def user_links_def)
  ultimately show ?thesis
    using on_users_inv [of "replace_user_folder kc g'" "{}" _ kc names] by simp
qed



lemma example_update:
  "\<exists>g' h'. updateFolder_locked (ve_kms example_venv) example_mem2 (example_folder\<lparr>bf_MappedPath := ''/n''\<rparr>) = (None, g', h') \<and>
     bf_MappedPath g' = ''/n''"
proof -
  have "gm_get (mp_vfolders example_mem2) ''f'' \<noteq> None"
    using example_mem_links(1) reachable_inv [OF example_mem_reachable(2)] by (auto simp: mem_inv_def folder_links_def)
  then show ?thesis
    using example_mem_links(2) by (auto simp: updateFolder_locked_def folderExistsInternal_def Let_def example_folder_def)
qed



lemma updateUser_locked_ok:
  assumes "updateUser_locked kc h user = (None, v, h')" "gm_get (mp_users h) (u_Username user) = Some u"
  shows "gm_get (mp_users h') = (gm_get (mp_users h))(u_Username user \<mapsto> snd (User_getACopy kc v)) \<and>
    u_ID v = u_ID u \<and> u_UsedQuotaSize v = u_UsedQuotaSize u \<and> u_UsedQuotaFiles v = u_UsedQuotaFiles u \<and>
    u_LastLogin v = u_LastLogin u \<and> u_LastQuotaUpdate v = u_LastQuotaUpdate u"
proof -
  define c where "c = snd (User_getACopy kc u)"
  obtain fs h2 where j: "join_loop kc (u_Username user) (removeUserFromFolders h c) (u_VirtualFolders user) = (fs, h2)"
    by fastforce
  have "mp_users (removeUserFromFolderMapping g n k) = mp_users g" for g n k
    by (simp add: removeUserFromFolderMapping_def split: option.splits)
  then have "mp_users (foldl (\<lambda>g w. removeUserFromFolderMapping g (vf_Name w) k) g ws) = mp_users g" for g ws k
    by (induction ws arbitrary: g) simp_all
  then have "mp_users (removeUserFromFolders h c) = mp_users h" by (simp add: removeUserFromFolders_def)
  moreover have "same_accounts (removeUserFromFolders h c) h2" by (rule join_loop_accounts [OF j])
  ultimately have users: "mp_users h2 = mp_users h" by (simp add: same_accounts_def)
  have open_h: "\<not> mp_isClosed h" using assms(1) by (auto simp: updateUser_locked_def)
  have ex: "userExistsInternal kc h (u_Username user) = Some c" using assms(2) by (simp add: userExistsInternal_def c_def)
  have v: "v = user\<lparr>u_VirtualFolders := fs, u_LastQuotaUpdate := u_LastQuotaUpdate c, u_UsedQuotaSize := u_UsedQuotaSize c,
      u_UsedQuotaFiles := u_UsedQuotaFiles c, u_LastLogin := u_LastLogin c, u_ID := u_ID c\<rparr>"
    and h': "h' = put_user h2 (snd (User_getACopy kc v))"
    using assms(1) open_h ex j by (auto simp: updateUser_locked_def joinVirtualFoldersFields_def Let_def)
  have "u_LastLogin c = u_LastLogin u" "u_LastQuotaUpdate c = u_LastQuotaUpdate u"
    by (simp_all add: c_def User_getACopy_def Let_def User_SetEmptySecretsIfNil_def)
  then show ?thesis by (simp add: h' v gm.get_put users) (simp add: c_def)
qed

text \<open>
  C25: An update of a user cannot change the identifier, the recorded usage or the
  last login: whatever the request carries, the stored user keeps them. Every
  other user stays as it was.
\<close>

theorem updateUser_keeps_usage:
  assumes "updateUser_locked kc h user = (None, v, h')" "gm_get (mp_users h) (u_Username user) = Some u"
  shows "gm_get (mp_users h') = (gm_get (mp_users h))(u_Username user \<mapsto> snd (User_getACopy kc v)) \<and>
    u_ID v = u_ID u \<and> u_UsedQuotaSize v = u_UsedQuotaSize u \<and> u_UsedQuotaFiles v = u_UsedQuotaFiles u \<and>
    u_LastLogin v = u_LastLogin u \<and> u_LastQuotaUpdate v = u_LastQuotaUpdate u"
  using assms by (rule updateUser_locked_ok)

lemma example_mem2_user:
  "\<exists>u. gm_get (mp_users example_mem2) ''u'' = Some u \<and> u_UsedQuotaSize u = 0 \<and> u_UsedQuotaFiles u = 0"
proof -
  obtain v0 where a: "addUser_locked (ve_kms example_venv) example_mem1 example_member = (None, v0, example_mem2)"
    using example_mem_links(1)
    by (cases "addUser_locked (ve_kms example_venv) example_mem1 example_member" rule: prod_cases3)
      (auto simp: addUser_locked_def userExistsInternal_def addFolder_locked_def empty_handle_def folderExistsInternal_def Let_def
        split: option.splits prod.splits)
  have "u_UsedQuotaSize v0 = 0" "u_UsedQuotaFiles v0 = 0" by (subst addUser_locked_ok(3) [OF a]; simp)+
  moreover have "u_Username example_member = ''u''" by (simp add: example_member_def)
  ultimately show ?thesis using addUser_locked_ok(4) [OF a] by simp
qed

theorem updateUser_keeps_usage_witness:
  "\<exists>v h'. updateUser_locked (ve_kms example_venv) example_mem2 (example_member\<lparr>u_ID := 77, u_UsedQuotaSize := 5\<rparr>) = (None, v, h') \<and>
     u_UsedQuotaSize v = 0"
proof -
  let ?m = "example_member\<lparr>u_ID := 77, u_UsedQuotaSize := 5\<rparr>"
  have "u_Username ?m = ''u''" by (simp add: example_member_def)
  then obtain u where g: "gm_get (mp_users example_mem2) (u_Username ?m) = Some u" and u0: "u_UsedQuotaSize u = 0"
    using example_mem2_user by auto
  obtain e v h' where up': "updateUser_locked (ve_kms example_venv) example_mem2 ?m = (e, v, h')" by (rule prod_cases3)
  then have "e = None"
    using g example_mem_links(2) by (auto simp: updateUser_locked_def userExistsInternal_def Let_def split: prod.splits)
  with up' have up: "updateUser_locked (ve_kms example_venv) example_mem2 ?m = (None, v, h')" by simp
  from updateUser_keeps_usage [OF up g] up u0 show ?thesis by auto
qed

lemma after_validation_inv:
  assumes "after_validation r locked h = Some (e, x, h', files')" "mem_inv h" "\<And>y. mem_inv (snd (snd (locked h y)))"
  shows "mem_inv h'"
  using assms by (auto simp: after_validation_def split: option.splits prod.splits) (metis snd_conv)

lemma restore_step_inv:
  assumes "mem_inv h"
  shows "mem_addUser E h files u = Some (e, v, h', files') \<Longrightarrow> mem_inv h'"
    "mem_updateUser E h files u = Some (e, v, h', files') \<Longrightarrow> mem_inv h'"
    "mem_addFolder E h files f = Some (e, g, h', files') \<Longrightarrow> mem_inv h'"
    "mem_updateFolder E h files f = Some (e, g, h', files') \<Longrightarrow> mem_inv h'"
  using assms addUser_locked_inv updateUser_locked_inv addFolder_locked_inv updateFolder_locked_inv
  by (auto simp: mem_addUser_def mem_updateUser_def mem_addFolder_def mem_updateFolder_def dest!: after_validation_inv)

lemma restoreFolders_inv: "mem_inv (fst s) \<Longrightarrow> restoreFolders E s fs = Some (e, s') \<Longrightarrow> mem_inv (fst s')"
  by (induction E s fs rule: restoreFolders.induct) (auto split: option.splits sum.splits, (metis restore_step_inv)+)

lemma restoreUsers_inv: "mem_inv (fst s) \<Longrightarrow> restoreUsers E s us = Some (e, s') \<Longrightarrow> mem_inv (fst s')"
  by (induction E s us rule: restoreUsers.induct) (auto split: option.splits sum.splits, (metis restore_step_inv)+)

lemma restoreAdmins_inv: "mem_inv (fst s) \<Longrightarrow> restoreAdmins E s as = Some (e, s') \<Longrightarrow> mem_inv (fst s')"
  by (induction E s as rule: restoreAdmins.induct) (auto split: option.splits sum.splits, (metis mem_admin_inv)+)

text \<open>
  C36: Reloading the provider from a dump keeps the store consistent, also when an
  entry of the dump is rejected and the reload stops halfway.
\<close>

theorem mem_reloadConfig_inv:
  assumes "mem_inv (fst s)" "mem_reloadConfig E configFile sz dump s = Some (e, s')"
  shows "mem_inv (fst s')"
proof -
  have "mem_inv (mem_clear (fst s))" by (simp add: mem_inv_empty mem_clear_def)
  then show ?thesis
    using assms by (auto simp: mem_reloadConfig_def dest!: restoreFolders_inv [rotated] restoreUsers_inv [rotated] restoreAdmins_inv [rotated]
        split: if_splits option.splits)
qed


theorem mem_reloadConfig_inv_witness:
  "\<exists>s'. mem_reloadConfig example_venv ''/c'' (Some 9)
       (Some \<lparr>bd_Users = [], bd_Folders = [], bd_Admins = [setDefaults zero_Admin], bd_Version = 9\<rparr>) (example_mem2, []) = Some (None, s') \<and>
     mem_inv (fst s') \<and> mp_adminsUsernames (fst s') = [''admin'']"
proof -
  let ?d = "\<lparr>bd_Users = [], bd_Folders = [], bd_Admins = [setDefaults zero_Admin], bd_Version = 9\<rparr>"
  have "\<exists>s'. mem_reloadConfig example_venv ''/c'' (Some 9) (Some ?d) (example_mem2, []) = Some (None, s') \<and>
      mp_adminsUsernames (fst s') = [''admin'']"
    using example_mem_links(2)
    by (simp add: mem_reloadConfig_def mem_clear_def mem_adminExists_def adminExistsInternal_def mem_addAdmin_def
        Admin_validate_def setDefaults_def zero_Admin_def Admin_checkPassword_def admin_permissions_check_def
        example_venv_def natural_key_ok_def usernameRegex_def name_char_def strings_HasPrefix_def vok_def vseq_def
        Let_def validAdminPerms_def index_add_def)
  moreover have "mem_inv (fst (example_mem2, [] :: files))" using reachable_inv [OF example_mem_reachable(2)] by simp
  ultimately show ?thesis using mem_reloadConfig_inv by blast
qed

end
