(* ===== verification/QuotaUpdater.thy ===== *)
theory QuotaUpdater
  imports MemoryProvider
begin

text \<open>
  \<^verbatim>\<open>dataprovider/quotaupdater.go\<close> and the quota functions of
  \<^verbatim>\<open>dataprovider/dataprovider.go\<close>: usage changes are collected in memory and stored
  from time to time by a loop that runs beside the requests. The loop reads a
  pending value, stores it and subtracts it in three separate critical sections,
  so it is modelled as a step relation next to the sequential functions. What the
  provider promises of its counters is the locale \<open>quota_backend\<close>.
\<close>

subsection \<open>The pending updates\<close>

record quotaObject =
  qo_size :: int
  qo_files :: int

type_synonym pending = "(string, quotaObject) gomap"

record quotaUpdater =
  qu_waitTime :: int
  qu_pendingUserQuotaUpdates :: pending
  qu_pendingFolderQuotaUpdates :: pending

definition newQuotaUpdater :: quotaUpdater where
  "newQuotaUpdater = \<lparr>qu_waitTime = 0, qu_pendingUserQuotaUpdates = [], qu_pendingFolderQuotaUpdates = []\<rparr>"

definition setWaitTime :: "int \<Rightarrow> quotaUpdater \<Rightarrow> quotaUpdater" where
  "setWaitTime secs q = q\<lparr>qu_waitTime := mul64 secs 1000000000\<rparr>"

text \<open>Reading a missing entry gives the zero object; an update that leaves zero deletes the entry.\<close>

definition pending_get :: "pending \<Rightarrow> string \<Rightarrow> int \<times> int" where
  "pending_get m name = (case gm_get m name of None \<Rightarrow> (0, 0) | Some obj \<Rightarrow> (qo_files obj, qo_size obj))"

definition pending_update :: "pending \<Rightarrow> string \<Rightarrow> int \<Rightarrow> int \<Rightarrow> pending" where
  "pending_update m name files sz =
     (let obj = (case gm_get m name of None \<Rightarrow> \<lparr>qo_size = 0, qo_files = 0\<rparr> | Some obj \<Rightarrow> obj);
          obj = obj\<lparr>qo_size := add64 (qo_size obj) sz, qo_files := add64 (qo_files obj) files\<rparr>
      in if qo_files obj = 0 \<and> qo_size obj = 0 then gm_del m name else gm_put m name obj)"

definition resetUserQuota :: "string \<Rightarrow> quotaUpdater \<Rightarrow> quotaUpdater" where
  "resetUserQuota username q = q\<lparr>qu_pendingUserQuotaUpdates := gm_del (qu_pendingUserQuotaUpdates q) username\<rparr>"

definition updateUserQuota :: "string \<Rightarrow> int \<Rightarrow> int \<Rightarrow> quotaUpdater \<Rightarrow> quotaUpdater" where
  "updateUserQuota username files sz q =
     q\<lparr>qu_pendingUserQuotaUpdates := pending_update (qu_pendingUserQuotaUpdates q) username files sz\<rparr>"

definition getUserPendingQuota :: "string \<Rightarrow> quotaUpdater \<Rightarrow> int \<times> int" where
  "getUserPendingQuota username q = pending_get (qu_pendingUserQuotaUpdates q) username"

definition resetFolderQuota :: "string \<Rightarrow> quotaUpdater \<Rightarrow> quotaUpdater" where
  "resetFolderQuota name q = q\<lparr>qu_pendingFolderQuotaUpdates := gm_del (qu_pendingFolderQuotaUpdates q) name\<rparr>"

definition updateFolderQuota :: "string \<Rightarrow> int \<Rightarrow> int \<Rightarrow> quotaUpdater \<Rightarrow> quotaUpdater" where
  "updateFolderQuota name files sz q =
     q\<lparr>qu_pendingFolderQuotaUpdates := pending_update (qu_pendingFolderQuotaUpdates q) name files sz\<rparr>"

definition getFolderPendingQuota :: "string \<Rightarrow> quotaUpdater \<Rightarrow> int \<times> int" where
  "getFolderPendingQuota name q = pending_get (qu_pendingFolderQuotaUpdates q) name"

definition getUsernames :: "quotaUpdater \<Rightarrow> string list" where
  "getUsernames q = gm_keys (qu_pendingUserQuotaUpdates q)"

definition getFoldernames :: "quotaUpdater \<Rightarrow> string list" where
  "getFoldernames q = gm_keys (qu_pendingFolderQuotaUpdates q)"

text \<open>
  One round of the loop. \<open>upd h name files size reset\<close> is the provider's update: whether
  it succeeded, and its new state.
\<close>

type_synonym 'h update = "'h \<Rightarrow> string \<Rightarrow> int \<Rightarrow> int \<Rightarrow> bool \<Rightarrow> bool \<times> 'h"

definition store_one :: "'h update \<Rightarrow> string \<Rightarrow> pending \<times> 'h \<Rightarrow> pending \<times> 'h" where
  "store_one upd name s =
     (case s of (m, h) \<Rightarrow>
        (case pending_get m name of
           (files, sz) \<Rightarrow>
             if sz \<noteq> 0 \<or> files \<noteq> 0 then
               (case upd h name files sz False of
                  (False, h) \<Rightarrow> (m, h)
                | (True, h) \<Rightarrow> (pending_update m name (neg64 files) (neg64 sz), h))
             else (m, h)))"

definition store_all :: "'h update \<Rightarrow> pending \<times> 'h \<Rightarrow> pending \<times> 'h" where
  "store_all upd s = foldl (\<lambda>s name. store_one upd name s) s (gm_keys (fst s))"

definition user_update :: "kms_Configuration \<Rightarrow> int \<Rightarrow> memoryProviderHandle update" where
  "user_update kc now h name files sz reset =
     (case mem_updateQuota kc h now name files sz reset of (e, h) \<Rightarrow> (e = None, h))"

definition folder_update :: "int \<Rightarrow> memoryProviderHandle update" where
  "folder_update now h name files sz reset =
     (case mem_updateFolderQuota h now name files sz reset of (e, h) \<Rightarrow> (e = None, h))"

definition storeUsersQuota ::
    "kms_Configuration \<Rightarrow> int \<Rightarrow> quotaUpdater \<times> memoryProviderHandle \<Rightarrow> quotaUpdater \<times> memoryProviderHandle" where
  "storeUsersQuota kc now s =
     (case store_all (user_update kc now) (qu_pendingUserQuotaUpdates (fst s), snd s) of
        (m, h) \<Rightarrow> ((fst s)\<lparr>qu_pendingUserQuotaUpdates := m\<rparr>, h))"

definition storeFoldersQuota ::
    "int \<Rightarrow> quotaUpdater \<times> memoryProviderHandle \<Rightarrow> quotaUpdater \<times> memoryProviderHandle" where
  "storeFoldersQuota now s =
     (case store_all (folder_update now) (qu_pendingFolderQuotaUpdates (fst s), snd s) of
        (m, h) \<Rightarrow> ((fst s)\<lparr>qu_pendingFolderQuotaUpdates := m\<rparr>, h))"

subsection \<open>The quota functions of the data provider\<close>

record quota_config =
  qc_TrackQuota :: int
  qc_DelayedQuotaUpdate :: int

datatype qerr = MethodDisabled | ProviderErr perr

type_synonym quota_state = "quotaUpdater \<times> memoryProviderHandle"

definition UpdateUserQuota ::
    "quota_config \<Rightarrow> kms_Configuration \<Rightarrow> int \<Rightarrow> quota_state \<Rightarrow> User \<Rightarrow> int \<Rightarrow> int \<Rightarrow> bool \<Rightarrow> qerr option \<times> quota_state" where
  "UpdateUserQuota C kc now s user filesAdd sizeAdd reset =
     (if qc_TrackQuota C = 0 then (Some MethodDisabled, s)
      else if qc_TrackQuota C = 2 \<and> \<not> reset \<and> \<not> HasQuotaRestrictions user then (None, s)
      else if filesAdd = 0 \<and> sizeAdd = 0 \<and> \<not> reset then (None, s)
      else if qc_DelayedQuotaUpdate C = 0 \<or> reset then
        (let q = (if reset then resetUserQuota (u_Username user) (fst s) else fst s)
         in case mem_updateQuota kc (snd s) now (u_Username user) filesAdd sizeAdd reset of
              (e, h) \<Rightarrow> (map_option ProviderErr e, q, h))
      else (None, updateUserQuota (u_Username user) filesAdd sizeAdd (fst s), snd s))"

definition UpdateVirtualFolderQuota ::
    "quota_config \<Rightarrow> int \<Rightarrow> quota_state \<Rightarrow> BaseVirtualFolder \<Rightarrow> int \<Rightarrow> int \<Rightarrow> bool \<Rightarrow> qerr option \<times> quota_state" where
  "UpdateVirtualFolderQuota C now s vfolder filesAdd sizeAdd reset =
     (if qc_TrackQuota C = 0 then (Some MethodDisabled, s)
      else if filesAdd = 0 \<and> sizeAdd = 0 \<and> \<not> reset then (None, s)
      else if qc_DelayedQuotaUpdate C = 0 \<or> reset then
        (let q = (if reset then resetFolderQuota (bf_Name vfolder) (fst s) else fst s)
         in case mem_updateFolderQuota (snd s) now (bf_Name vfolder) filesAdd sizeAdd reset of
              (e, h) \<Rightarrow> (map_option ProviderErr e, q, h))
      else (None, updateFolderQuota (bf_Name vfolder) filesAdd sizeAdd (fst s), snd s))"

definition GetUsedQuota :: "quota_config \<Rightarrow> kms_Configuration \<Rightarrow> quota_state \<Rightarrow> string \<Rightarrow> qerr + int \<times> int" where
  "GetUsedQuota C kc s username =
     (if qc_TrackQuota C = 0 then Inl MethodDisabled
      else
        (case mem_getUsedQuota kc (snd s) username of
           Inl e \<Rightarrow> Inl (ProviderErr e)
         | Inr (files, sz) \<Rightarrow>
             (case getUserPendingQuota username (fst s) of
                (delayedFiles, delayedSize) \<Rightarrow> Inr (add64 files delayedFiles, add64 sz delayedSize))))"

definition GetUsedVirtualFolderQuota :: "quota_config \<Rightarrow> quota_state \<Rightarrow> string \<Rightarrow> qerr + int \<times> int" where
  "GetUsedVirtualFolderQuota C s name =
     (if qc_TrackQuota C = 0 then Inl MethodDisabled
      else
        (case mem_getUsedFolderQuota (snd s) name of
           Inl e \<Rightarrow> Inl (ProviderErr e)
         | Inr (files, sz) \<Rightarrow>
             (case getFolderPendingQuota name (fst s) of
                (delayedFiles, delayedSize) \<Rightarrow> Inr (add64 files delayedFiles, add64 sz delayedSize))))"


subsection \<open>The loop beside the requests\<close>

text \<open>
  Where the loop is: between two names, after reading the pending value of a
  name, or after storing it. The labels name what the requests do.
\<close>

datatype phase = Idle | Read string int int | Stored string int int

record 'h qs =
  qs_back :: 'h
  qs_pend :: pending
  qs_phase :: phase

datatype qlabel = Delayed string int int | ResetPending string | ResetStored string int int | Loop

inductive qstep :: "'h update \<Rightarrow> 'h qs \<Rightarrow> qlabel \<Rightarrow> 'h qs \<Rightarrow> bool" for upd where
  delayed: "qstep upd s (Delayed k n z) (s\<lparr>qs_pend := pending_update (qs_pend s) k n z\<rparr>)"
| reset_pending: "qstep upd s (ResetPending k) (s\<lparr>qs_pend := gm_del (qs_pend s) k\<rparr>)"
| reset_stored: "upd (qs_back s) k n z True = (ok, h) \<Longrightarrow> qstep upd s (ResetStored k n z) (s\<lparr>qs_back := h\<rparr>)"
| loop_read: "qs_phase s = Idle \<Longrightarrow> pending_get (qs_pend s) k = (n, z) \<Longrightarrow> z \<noteq> 0 \<or> n \<noteq> 0 \<Longrightarrow>
    qstep upd s Loop (s\<lparr>qs_phase := Read k n z\<rparr>)"
| loop_store: "qs_phase s = Read k n z \<Longrightarrow> upd (qs_back s) k n z False = (True, h) \<Longrightarrow>
    qstep upd s Loop (s\<lparr>qs_back := h, qs_phase := Stored k n z\<rparr>)"
| loop_fail: "qs_phase s = Read k n z \<Longrightarrow> upd (qs_back s) k n z False = (False, h) \<Longrightarrow>
    qstep upd s Loop (s\<lparr>qs_back := h, qs_phase := Idle\<rparr>)"
| loop_done: "qs_phase s = Stored k n z \<Longrightarrow>
    qstep upd s Loop (s\<lparr>qs_pend := pending_update (qs_pend s) k (neg64 n) (neg64 z), qs_phase := Idle\<rparr>)"

inductive qrun :: "'h update \<Rightarrow> 'h qs \<Rightarrow> qlabel list \<Rightarrow> 'h qs \<Rightarrow> bool" for upd where
  run_nil: "qrun upd s [] s"
| run_cons: "qstep upd s l s' \<Longrightarrow> qrun upd s' ls s'' \<Longrightarrow> qrun upd s (l # ls) s''"

text \<open>Files and sizes are added together, each with the wrap-around of \<^verbatim>\<open>int64\<close>.\<close>

definition add_pair :: "int \<times> int \<Rightarrow> int \<times> int \<Rightarrow> int \<times> int" where
  "add_pair p q = (add64 (fst p) (fst q), add64 (snd p) (snd q))"

definition neg_pair :: "int \<times> int \<Rightarrow> int \<times> int" where
  "neg_pair p = (neg64 (fst p), neg64 (snd p))"

lemma add_pair_ac:
  "add_pair (add_pair p q) r = add_pair p (add_pair q r)" "add_pair p q = add_pair q p"
  "add_pair p (add_pair q r) = add_pair q (add_pair p r)"
  by (simp_all add: add_pair_def add64_ac)

lemma add_pair_zero [simp]: "add_pair (add_pair p q) (0, 0) = add_pair p q" "add_pair (0, 0) (add_pair p q) = add_pair p q"
  by (simp_all add: add_pair_def)

lemma add_pair_zero_in [simp]: "add_pair (add_pair p (0, 0)) q = add_pair p q" "add_pair p (add_pair (0, 0) q) = add_pair p q"
  "add_pair p (add_pair q (0, 0)) = add_pair p q"
  by (simp_all add: add_pair_def add64_def)

lemma neg_pair_zero [simp]: "neg_pair (0, 0) = (0, 0)"
  by (simp add: neg_pair_def neg64_def i64_def)

lemma add_pair_neg [simp]: "add_pair p (neg_pair p) = (0, 0)"
  by (simp add: add_pair_def neg_pair_def)

lemma pending_get_update:
  "pending_get (pending_update m k n z) k' = (if k' = k then add_pair (pending_get m k) (n, z) else pending_get m k')"
  by (auto simp: pending_get_def pending_update_def Let_def gm.get_put gm.get_del add_pair_def split: option.splits)

lemma pending_get_del: "pending_get (gm_del m k) k' = (if k' = k then (0, 0) else pending_get m k')"
  by (simp add: pending_get_def gm.get_del)

text \<open>What the requests have added to the usage of a name.\<close>

fun delayed_sum :: "string \<Rightarrow> qlabel list \<Rightarrow> int \<times> int" where
  "delayed_sum k [] = (0, 0)"
| "delayed_sum k (Delayed k' n z # ls) = (if k' = k then add_pair (n, z) (delayed_sum k ls) else delayed_sum k ls)"
| "delayed_sum k (_ # ls) = delayed_sum k ls"

lemma delayed_sum_Cons: "add_pair (add_pair t (delayed_sum k [l])) (delayed_sum k ls) = add_pair t (delayed_sum k (l # ls))"
  by (cases l) (auto simp: add_pair_ac(1))

definition no_reset :: "string \<Rightarrow> qlabel list \<Rightarrow> bool" where
  "no_reset k ls = list_all (\<lambda>l. case l of ResetPending k' \<Rightarrow> k' \<noteq> k | ResetStored k' _ _ \<Rightarrow> k' \<noteq> k | _ \<Rightarrow> True) ls"

definition in_flight :: "phase \<Rightarrow> string \<Rightarrow> int \<times> int" where
  "in_flight p k = (case p of Stored k' n z \<Rightarrow> if k' = k then (n, z) else (0, 0) | _ \<Rightarrow> (0, 0))"

subsection \<open>What the provider promises of its counters\<close>

locale quota_backend =
  fixes used :: "'h \<Rightarrow> string \<Rightarrow> (int \<times> int) option"
    and upd :: "'h update"
    and inv :: "'h \<Rightarrow> bool"
  assumes upd_inv: "inv h \<Longrightarrow> inv (snd (upd h k n z r))"
    and upd_add: "inv h \<Longrightarrow> upd h k n z False = (True, h') \<Longrightarrow> used h k = Some p \<Longrightarrow> used h' k = Some (add_pair p (n, z))"
    and upd_set: "inv h \<Longrightarrow> upd h k n z True = (True, h') \<Longrightarrow> used h' k = Some (n, z)"
    and upd_other: "inv h \<Longrightarrow> k' \<noteq> k \<Longrightarrow> used (snd (upd h k n z r)) k' = used h k'"
    and upd_fail: "upd h k n z r = (False, h') \<Longrightarrow> h' = h"
    and upd_exists: "inv h \<Longrightarrow> fst (upd h k n z r) \<longleftrightarrow> used h k \<noteq> None"
begin

text \<open>The usage of a name: stored, plus pending, less what the loop has stored and not yet subtracted.\<close>

definition total :: "'h qs \<Rightarrow> string \<Rightarrow> int \<times> int" where
  "total s k = add_pair (the (used (qs_back s) k)) (add_pair (pending_get (qs_pend s) k) (neg_pair (in_flight (qs_phase s) k)))"

lemma qstep_total:
  assumes "qstep upd s l s'" "inv (qs_back s)" "used (qs_back s) k \<noteq> None" "no_reset k [l]"
  shows "inv (qs_back s') \<and> used (qs_back s') k \<noteq> None \<and> total s' k = add_pair (total s k) (delayed_sum k [l])"
  using assms(1)
proof (cases rule: qstep.cases)
  case (delayed k' n z)
  with assms show ?thesis
    by (auto simp: total_def pending_get_update add_pair_ac)
next
  case (reset_pending k')
  with assms show ?thesis by (auto simp: total_def pending_get_del no_reset_def add_pair_ac)
next
  case (reset_stored k' n z ok h)
  with assms upd_inv [of "qs_back s" k' n z True] upd_other [of "qs_back s" k k' n z True] show ?thesis
    by (auto simp: total_def no_reset_def add_pair_ac)
next
  case (loop_read k' n z)
  with assms show ?thesis by (auto simp: total_def in_flight_def add_pair_ac)
next
  case (loop_store k' n z h)
  have inv: "inv h" using upd_inv [of "qs_back s" k' n z False] loop_store assms by simp
  show ?thesis
  proof (cases "k' = k")
    case True
    obtain p where p: "used (qs_back s) k = Some p" using assms(3) by blast
    have u: "used h k = Some (add_pair p (n, z))" using upd_add assms(2) loop_store(4) p True by blast
    have "add_pair (add_pair p (n, z)) (add_pair m (neg_pair (n, z))) = add_pair p (add_pair m (0, 0))" for m
      by (metis add_pair_ac add_pair_neg)
    then show ?thesis using inv loop_store u p True by (simp add: total_def in_flight_def)
  next
    case False
    have "used h k = used (qs_back s) k" using upd_other [of "qs_back s" k k' n z False] loop_store False assms by simp
    with inv loop_store assms False show ?thesis by (simp add: total_def in_flight_def)
  qed
next
  case (loop_fail k' n z h)
  with assms upd_fail [OF loop_fail(4)] show ?thesis by (simp add: total_def in_flight_def)
next
  case (loop_done k' n z)
  then show ?thesis
    using assms by (auto simp: total_def in_flight_def pending_get_update neg_pair_def [of "(n, z)"] add_pair_ac)
qed

lemma qrun_total:
  assumes "qrun upd s ls s'" "inv (qs_back s)" "used (qs_back s) k \<noteq> None" "no_reset k ls"
  shows "inv (qs_back s') \<and> used (qs_back s') k \<noteq> None \<and> total s' k = add_pair (total s k) (delayed_sum k ls)"
  using assms
proof (induction rule: qrun.induct)
  case (run_nil s)
  then show ?case by (simp add: total_def)
next
  case (run_cons s l s' ls s'')
  have n: "no_reset k [l]" "no_reset k ls" using run_cons.prems(3) by (simp_all add: no_reset_def)
  note s = qstep_total [OF run_cons.hyps(1) run_cons.prems(1,2) n(1)]
  with run_cons.IH n(2) show ?case by (simp add: delayed_sum_Cons)
qed

text \<open>One name of the sequential loop, and the whole loop.\<close>

lemma store_one_result:
  assumes "inv h" "store_one upd name (m, h) = (m', h')"
  shows "inv h'" "k \<noteq> name \<Longrightarrow> pending_get m' k = pending_get m k \<and> used h' k = used h k"
    "used h name = Some p \<Longrightarrow> pending_get m' name = (0, 0) \<and>
       used h' name = Some (if pending_get m name = (0, 0) then p else add_pair p (pending_get m name))"
proof -
  obtain n z where nz: "pending_get m name = (n, z)" by fastforce
  obtain ok h1 where u: "upd h name n z False = (ok, h1)" by fastforce
  have inv1: "inv h1" using upd_inv [OF assms(1), of name n z False] u by simp
  have other: "k \<noteq> name \<Longrightarrow> used h1 k = used h k" for k using upd_other [OF assms(1), of k name n z False] u by simp
  have ex: "ok \<longleftrightarrow> used h name \<noteq> None" using upd_exists [OF assms(1), of name n z False] u by simp
  show "inv h'" using assms nz u inv1 by (cases ok) (auto simp: store_one_def split: if_splits)
  show "k \<noteq> name \<Longrightarrow> pending_get m' k = pending_get m k \<and> used h' k = used h k"
    using assms nz u other by (cases ok) (auto simp: store_one_def pending_get_update split: if_splits)
  assume p: "used h name = Some p"
  then have ok: "ok" using ex by simp
  then have "used h1 name = Some (add_pair p (n, z))" using upd_add [OF assms(1) _ p, of n z h1] u by simp
  moreover have "add_pair (n, z) (neg64 n, neg64 z) = (0, 0)" using add_pair_neg [of "(n, z)"] by (simp add: neg_pair_def)
  ultimately show "pending_get m' name = (0, 0) \<and>
      used h' name = Some (if pending_get m name = (0, 0) then p else add_pair p (pending_get m name))"
    using assms(2) nz u ok p by (auto simp: store_one_def pending_get_update split: if_splits)
qed

lemma store_names_result:
  assumes "inv h" "distinct names" "foldl (\<lambda>s name. store_one upd name s) (m, h) names = (m', h')" "used h k = Some p"
  shows "if k \<in> set names
    then pending_get m' k = (0, 0) \<and> used h' k = Some (if pending_get m k = (0, 0) then p else add_pair p (pending_get m k))
    else pending_get m' k = pending_get m k \<and> used h' k = used h k"
  using assms
proof (induction names arbitrary: m h p)
  case (Cons name names)
  obtain m1 h1 where 1: "store_one upd name (m, h) = (m1, h1)" by fastforce
  note r = store_one_result [OF Cons.prems(1) 1]
  have rest: "foldl (\<lambda>s name. store_one upd name s) (m1, h1) names = (m', h')" using Cons.prems(3) 1 by simp
  show ?case
  proof (cases "k = name")
    case True
    with r(3) Cons.prems(4) have k1: "pending_get m1 k = (0, 0)"
      "used h1 k = Some (if pending_get m k = (0, 0) then p else add_pair p (pending_get m k))" by auto
    from Cons.IH [OF r(1) _ rest k1(2)] Cons.prems(2) True k1 show ?thesis by simp
  next
    case False
    with r(2) have k1: "pending_get m1 k = pending_get m k" "used h1 k = used h k" by auto
    with Cons.prems(4) Cons.IH [OF r(1) _ rest, of p] Cons.prems(2) False show ?thesis by simp
  qed
qed simp

lemma store_all_flush:
  assumes "inv h" "wf_gm m" "used h k = Some p" "store_all upd (m, h) = (m', h')"
  shows "pending_get m' k = (0, 0) \<and> used h' k = Some (if pending_get m k = (0, 0) then p else add_pair p (pending_get m k))"
proof -
  have "k \<notin> set (gm_keys m) \<Longrightarrow> pending_get m k = (0, 0)"
    by (auto simp: pending_get_def gm.set_keys split: option.splits)
  moreover have "distinct (gm_keys m)" using assms(2) by (rule gm.distinct_keys)
  ultimately show ?thesis
    using store_names_result [OF assms(1) _ assms(4) [unfolded store_all_def, simplified] assms(3)] assms(3) by (auto split: if_splits)
qed

text \<open>A reset between the store and the subtraction.\<close>

lemma reset_race:
  assumes "inv (qs_back s)" "qs_phase s = Idle" "used (qs_back s) k \<noteq> None" "pending_get (qs_pend s) k = (n, z)" "z \<noteq> 0 \<or> n \<noteq> 0"
  shows "\<exists>s'. qrun upd s [Loop, Loop, ResetPending k, ResetStored k vn vz, Loop] s' \<and> qs_phase s' = Idle \<and>
    inv (qs_back s') \<and> used (qs_back s') k = Some (vn, vz) \<and> pending_get (qs_pend s') k = neg_pair (n, z)"
proof -
  obtain ok h1 where u1: "upd (qs_back s) k n z False = (ok, h1)" by fastforce
  have ok: "ok" using upd_exists [OF assms(1), of k n z False] u1 assms(3) by simp
  have inv1: "inv h1" using upd_inv [OF assms(1), of k n z False] u1 by simp
  obtain p where p: "used (qs_back s) k = Some p" using assms(3) by blast
  have ex1: "used h1 k \<noteq> None" using upd_add [OF assms(1) _ p, of n z h1] u1 ok by simp
  obtain ok2 h2 where u2: "upd h1 k vn vz True = (ok2, h2)" by fastforce
  have ok2: "ok2" using upd_exists [OF inv1, of k vn vz True] u2 ex1 by simp
  have inv2: "inv h2" using upd_inv [OF inv1, of k vn vz True] u2 by simp
  have set2: "used h2 k = Some (vn, vz)" using upd_set [OF inv1] u2 ok2 by simp
  let ?s1 = "s\<lparr>qs_phase := Read k n z\<rparr>"
  let ?s2 = "?s1\<lparr>qs_back := h1, qs_phase := Stored k n z\<rparr>"
  let ?s3 = "?s2\<lparr>qs_pend := gm_del (qs_pend ?s2) k\<rparr>"
  let ?s4 = "?s3\<lparr>qs_back := h2\<rparr>"
  let ?s5 = "?s4\<lparr>qs_pend := pending_update (qs_pend ?s4) k (neg64 n) (neg64 z), qs_phase := Idle\<rparr>"
  have s1: "qstep upd s Loop ?s1" by (rule loop_read [OF assms(2,4,5)])
  have s2: "qstep upd ?s1 Loop ?s2" by (rule loop_store) (use u1 ok in simp_all)
  have s3: "qstep upd ?s2 (ResetPending k) ?s3" by (rule reset_pending)
  have s4: "qstep upd ?s3 (ResetStored k vn vz) ?s4" by (rule reset_stored [where ok = ok2]) (use u2 in simp)
  have s5: "qstep upd ?s4 Loop ?s5" by (rule loop_done) simp
  have "qrun upd s [Loop, Loop, ResetPending k, ResetStored k vn vz, Loop] ?s5"
    by (rule run_cons [OF s1 run_cons [OF s2 run_cons [OF s3 run_cons [OF s4 run_cons [OF s5 run_nil]]]]])
  moreover have "pending_get (qs_pend ?s5) k = neg_pair (n, z)"
    by (simp add: pending_get_update pending_get_del add_pair_def neg_pair_def)
  ultimately show ?thesis using inv2 set2 by (intro exI [of _ ?s5]) simp
qed

end


subsection \<open>The memory provider keeps the promise\<close>

definition user_used :: "kms_Configuration \<Rightarrow> memoryProviderHandle \<Rightarrow> string \<Rightarrow> (int \<times> int) option" where
  "user_used kc h name = (case mem_getUsedQuota kc h name of Inl _ \<Rightarrow> None | Inr p \<Rightarrow> Some p)"

definition folder_used :: "memoryProviderHandle \<Rightarrow> string \<Rightarrow> (int \<times> int) option" where
  "folder_used h name = (case mem_getUsedFolderQuota h name of Inl _ \<Rightarrow> None | Inr p \<Rightarrow> Some p)"

lemma user_used_eq:
  "user_used kc h name = (if mp_isClosed h then None
     else map_option (\<lambda>u. (u_UsedQuotaFiles u, u_UsedQuotaSize u)) (gm_get (mp_users h) name))"
  by (simp add: user_used_def mem_getUsedQuota_def userExistsInternal_def split: option.split)

lemma folder_used_eq:
  "folder_used h name = (if mp_isClosed h then None
     else map_option (\<lambda>f. (bf_UsedQuotaFiles f, bf_UsedQuotaSize f)) (gm_get (mp_vfolders h) name))"
  by (simp add: folder_used_def mem_getUsedFolderQuota_def folderExistsInternal_def split: option.split)

lemma user_update_cases:
  assumes "users_inv h"
  obtains (fails) "user_update kc now h k n z r = (False, h)" "user_used kc h k = None"
  | (updates) u v where "\<not> mp_isClosed h" "gm_get (mp_users h) k = Some u" "u_Username v = k"
      "user_update kc now h k n z r = (True, put_user h v)"
      "(u_UsedQuotaFiles v, u_UsedQuotaSize v) =
         (if r then (n, z) else add_pair (u_UsedQuotaFiles u, u_UsedQuotaSize u) (n, z))"
proof (cases "mp_isClosed h \<or> gm_get (mp_users h) k = None")
  case True
  then show thesis
    by (intro fails) (auto simp: user_update_def mem_updateQuota_def userExistsInternal_def user_used_eq)
next
  case False
  then obtain u where u: "gm_get (mp_users h) k = Some u" by auto
  have "u_Username u = k" by (rule users_inv_named [OF assms u])
  define c where "c = snd (User_getACopy kc u)"
  define v where "v = (if r then c\<lparr>u_UsedQuotaSize := z, u_UsedQuotaFiles := n\<rparr>
    else c\<lparr>u_UsedQuotaSize := add64 (u_UsedQuotaSize c) z, u_UsedQuotaFiles := add64 (u_UsedQuotaFiles c) n\<rparr>)
      \<lparr>u_LastQuotaUpdate := now\<rparr>"
  show thesis
  proof (rule updates)
    show "\<not> mp_isClosed h" "gm_get (mp_users h) k = Some u" using False u by auto
    show "u_Username v = k" using \<open>u_Username u = k\<close> by (simp add: v_def c_def)
    show "user_update kc now h k n z r = (True, put_user h v)"
      using False u by (simp add: user_update_def mem_updateQuota_def userExistsInternal_def Let_def v_def c_def)
    show "(u_UsedQuotaFiles v, u_UsedQuotaSize v) =
        (if r then (n, z) else add_pair (u_UsedQuotaFiles u, u_UsedQuotaSize u) (n, z))"
      by (simp add: v_def c_def add_pair_def)
  qed
qed

interpretation user_quota: quota_backend "user_used kc" "user_update kc now" users_inv for kc now
proof unfold_locales
  fix h :: memoryProviderHandle and k k' n z r h' p
  show "users_inv (snd (user_update kc now h k n z r))" if "users_inv h"
    by (rule user_update_cases [OF that, of kc now k n z r])
      (use that named_by_put [of u_Username "mp_users h"] in \<open>auto simp: users_inv_def index_ok_put\<close>)
  show "user_used kc h' k = Some (add_pair p (n, z))"
    if "users_inv h" "user_update kc now h k n z False = (True, h')" "user_used kc h k = Some p"
    by (rule user_update_cases [OF that(1), of kc now k n z False]) (use that in \<open>auto simp: user_used_eq gm.get_put\<close>)
  show "user_used kc h' k = Some (n, z)" if "users_inv h" "user_update kc now h k n z True = (True, h')"
    by (rule user_update_cases [OF that(1), of kc now k n z True]) (use that in \<open>auto simp: user_used_eq gm.get_put\<close>)
  show "user_used kc (snd (user_update kc now h k n z r)) k' = user_used kc h k'" if "users_inv h" "k' \<noteq> k"
    by (rule user_update_cases [OF that(1), of kc now k n z r]) (use that in \<open>auto simp: user_used_eq gm.get_put\<close>)
  show "h' = h" if "user_update kc now h k n z r = (False, h')"
    using that by (auto simp: user_update_def mem_updateQuota_def Let_def split: if_splits option.splits)
  show "fst (user_update kc now h k n z r) \<longleftrightarrow> user_used kc h k \<noteq> None" if "users_inv h"
    by (rule user_update_cases [OF that, of kc now k n z r]) (auto simp: user_used_eq)
qed

interpretation folder_quota: quota_backend folder_used "folder_update now" folders_inv for now
proof unfold_locales
  fix h :: memoryProviderHandle and k k' n z r h' p
  note eval = folder_update_def mem_updateFolderQuota_def folderExistsInternal_def folder_used_eq gm.get_put Let_def add_pair_def
  show "folders_inv (snd (folder_update now h k n z r))" if "folders_inv h"
  proof (cases "gm_get (mp_vfolders h) k")
    case (Some f)
    then have "bf_Name f = k" "distinct (bf_Users f)" using folders_inv_named [OF that] by auto
    then show ?thesis
      using that Some by (auto simp: eval folders_inv_def named_by_def index_ok_put)
  qed (use that in \<open>auto simp: eval\<close>)
  show "folder_used h' k = Some (add_pair p (n, z))"
    if "folders_inv h" "folder_update now h k n z False = (True, h')" "folder_used h k = Some p"
    using that(2,3) by (auto simp: eval split: if_splits option.splits)
  show "folder_used h' k = Some (n, z)" if "folders_inv h" "folder_update now h k n z True = (True, h')"
    using that(2) by (auto simp: eval split: if_splits option.splits)
  show "folder_used (snd (folder_update now h k n z r)) k' = folder_used h k'" if "folders_inv h" "k' \<noteq> k"
    using that(2) by (auto simp: eval split: option.splits)
  show "h' = h" if "folder_update now h k n z r = (False, h')"
    using that by (auto simp: eval split: if_splits option.splits)
  show "fst (folder_update now h k n z r) \<longleftrightarrow> folder_used h k \<noteq> None" if "folders_inv h"
    by (auto simp: eval split: option.splits)
qed

subsection \<open>Properties\<close>

definition user_state :: "memoryProviderHandle qs \<Rightarrow> quota_state" where
  "user_state s = (newQuotaUpdater\<lparr>qu_pendingUserQuotaUpdates := qs_pend s\<rparr>, qs_back s)"

lemma GetUsedQuota_total:
  assumes "qc_TrackQuota C \<noteq> 0" "qs_phase s = Idle"
  shows "GetUsedQuota C kc (user_state s) k = Inr p \<longleftrightarrow>
    user_used kc (qs_back s) k \<noteq> None \<and> user_quota.total kc s k = p"
proof -
  obtain n z where "pending_get (qs_pend s) k = (n, z)" by fastforce
  with assms show ?thesis
    by (auto simp: GetUsedQuota_def user_state_def getUserPendingQuota_def user_used_def user_quota.total_def in_flight_def
        add_pair_def [of "(_, _)" "(n, z)"] split: sum.splits)
qed

definition example_config :: quota_config where
  "example_config = \<lparr>qc_TrackQuota = 2, qc_DelayedQuotaUpdate = 60\<rparr>"

definition example_qs :: "memoryProviderHandle qs" where
  "example_qs = \<lparr>qs_back = example_mem2, qs_pend = [(''u'', \<lparr>qo_size = 50, qo_files = 3\<rparr>)], qs_phase = Idle\<rparr>"

abbreviation "example_upd \<equiv> user_update (ve_kms example_venv) 9"

lemma example_qs_facts:
  "users_inv (qs_back example_qs)" "user_used (ve_kms example_venv) (qs_back example_qs) ''u'' = Some (0, 0)"
  "qs_phase example_qs = Idle" "pending_get (qs_pend example_qs) ''u'' = (3, 50)"
  using reachable_inv [OF example_mem_reachable(2)] example_mem2_user example_mem_links(2)
  by (auto simp: example_qs_def mem_inv_def user_used_eq pending_get_def gm_get_Cons)

text \<open>A run of one round of the loop with a request in between.\<close>

lemma example_run:
  "\<exists>s'. qrun example_upd example_qs [Loop, Loop, Delayed ''u'' 2 7, Loop] s' \<and> qs_phase s' = Idle"
proof -
  let ?upd = example_upd and ?s = example_qs
  obtain ok h1 where u: "?upd (qs_back ?s) ''u'' 3 50 False = (ok, h1)" by fastforce
  have ok: "ok" using user_quota.upd_exists [OF example_qs_facts(1), of "ve_kms example_venv" 9 "''u''" 3 50 False]
    u example_qs_facts(2) by simp
  let ?s1 = "?s\<lparr>qs_phase := Read ''u'' 3 50\<rparr>"
  let ?s2 = "?s1\<lparr>qs_back := h1, qs_phase := Stored ''u'' 3 50\<rparr>"
  let ?s3 = "?s2\<lparr>qs_pend := pending_update (qs_pend ?s2) ''u'' 2 7\<rparr>"
  let ?s4 = "?s3\<lparr>qs_pend := pending_update (qs_pend ?s3) ''u'' (neg64 3) (neg64 50), qs_phase := Idle\<rparr>"
  have s1: "qstep ?upd ?s Loop ?s1" by (rule loop_read [OF example_qs_facts(3,4)]) simp
  have s2: "qstep ?upd ?s1 Loop ?s2" by (rule loop_store) (use u ok in simp_all)
  have s3: "qstep ?upd ?s2 (Delayed ''u'' 2 7) ?s3" by (rule delayed)
  have s4: "qstep ?upd ?s3 Loop ?s4" by (rule loop_done) simp
  have "qrun ?upd ?s [Loop, Loop, Delayed ''u'' 2 7, Loop] ?s4"
    by (rule run_cons [OF s1 run_cons [OF s2 run_cons [OF s3 run_cons [OF s4 run_nil]]]])
  then show ?thesis by (intro exI [of _ ?s4]) simp
qed

text \<open>
  C6: The delayed quota updates lose nothing and count nothing twice. Take any
  execution in which requests add to the pending usage of users while the loop
  reads, stores and subtracts, step by step and in any interleaving, resets of
  other users included. If the loop is between two names at both ends and the
  usage of a user was not reset, \<^verbatim>\<open>GetUsedQuota\<close> answers at the end what it answered
  at the start plus all that the requests added, with the wrap-around of \<^verbatim>\<open>int64\<close>.
\<close>

theorem quota_conserved:
  assumes "qrun (user_update kc now) s ls s'" "users_inv (qs_back s)" "qs_phase s = Idle" "qs_phase s' = Idle"
    and "qc_TrackQuota C \<noteq> 0" "no_reset k ls" "GetUsedQuota C kc (user_state s) k = Inr p"
  shows "GetUsedQuota C kc (user_state s') k = Inr (add_pair p (delayed_sum k ls))"
proof -
  from assms(7) have u: "user_used kc (qs_back s) k \<noteq> None" and p: "user_quota.total kc s k = p"
    by (simp_all add: GetUsedQuota_total assms(3,5))
  from user_quota.qrun_total [OF assms(1,2) u assms(6)] show ?thesis
    by (simp add: GetUsedQuota_total assms(4,5) p)
qed

theorem quota_conserved_witness:
  "\<exists>s'. qrun example_upd example_qs [Loop, Loop, Delayed ''u'' 2 7, Loop] s' \<and>
     GetUsedQuota example_config (ve_kms example_venv) (user_state s') ''u'' = Inr (5, 57)"
proof -
  obtain s' where run: "qrun example_upd example_qs [Loop, Loop, Delayed ''u'' 2 7, Loop] s'" "qs_phase s' = Idle"
    using example_run by blast
  have c: "qc_TrackQuota example_config \<noteq> 0" by (simp add: example_config_def)
  have start: "GetUsedQuota example_config (ve_kms example_venv) (user_state example_qs) ''u'' = Inr (3, 50)"
    using example_qs_facts c by (simp add: GetUsedQuota_total user_quota.total_def in_flight_def add_pair_def add64_def i64_def)
  have "no_reset ''u'' [Loop, Loop, Delayed ''u'' 2 7, Loop]" by (simp add: no_reset_def)
  from quota_conserved [OF run(1) example_qs_facts(1,3) run(2) c this start] run(1) show ?thesis
    by (auto simp: add_pair_def add64_def i64_def)
qed

text \<open>
  C17: One undisturbed round of the loop stores everything: for every user the
  provider knows, nothing is pending afterwards and the stored usage has grown by
  what was pending, so that \<^verbatim>\<open>GetUsedQuota\<close> is unchanged.
\<close>

theorem storeUsersQuota_flush:
  assumes "users_inv h" "wf_gm (qu_pendingUserQuotaUpdates q)" "user_used kc h k = Some p"
    and "storeUsersQuota kc now (q, h) = (q', h')"
  shows "getUserPendingQuota k q' = (0, 0) \<and>
    user_used kc h' k = Some (if getUserPendingQuota k q = (0, 0) then p else add_pair p (getUserPendingQuota k q))"
proof -
  obtain m' h2 where st: "store_all (user_update kc now) (qu_pendingUserQuotaUpdates q, h) = (m', h2)" by fastforce
  with assms(4) have "q' = q\<lparr>qu_pendingUserQuotaUpdates := m'\<rparr>" "h' = h2" by (auto simp: storeUsersQuota_def)
  with user_quota.store_all_flush [OF assms(1-3) st] show ?thesis by (simp add: getUserPendingQuota_def)
qed

theorem storeUsersQuota_flush_witness:
  "let q = newQuotaUpdater\<lparr>qu_pendingUserQuotaUpdates := qs_pend example_qs\<rparr> in
   case storeUsersQuota (ve_kms example_venv) 9 (q, example_mem2) of
     (q', h') \<Rightarrow> getUserPendingQuota ''u'' q' = (0, 0) \<and> user_used (ve_kms example_venv) h' ''u'' = Some (3, 50)"
proof -
  let ?q = "newQuotaUpdater\<lparr>qu_pendingUserQuotaUpdates := qs_pend example_qs\<rparr>"
  obtain q' h' where st: "storeUsersQuota (ve_kms example_venv) 9 (?q, example_mem2) = (q', h')" by fastforce
  have h: "users_inv example_mem2" "user_used (ve_kms example_venv) example_mem2 ''u'' = Some (0, 0)"
    using example_qs_facts(1,2) by (simp_all add: example_qs_def)
  have "wf_gm (qu_pendingUserQuotaUpdates ?q)" by (simp add: example_qs_def wf_gm_def)
  from storeUsersQuota_flush [OF h(1) this h(2) st] st example_qs_facts(4) show ?thesis
    by (simp add: getUserPendingQuota_def add_pair_def add64_def i64_def)
qed

text \<open>
  C29: A quota reset, as a quota scan does, that falls between the store and the
  subtraction of the loop leaves a negative pending value behind: \<^verbatim>\<open>GetUsedQuota\<close>
  then reports the scanned usage less what the loop had stored, and the next round
  makes that permanent.
\<close>

theorem quota_reset_race:
  assumes "users_inv (qs_back s)" "qs_phase s = Idle" "user_used kc (qs_back s) k \<noteq> None"
    and "pending_get (qs_pend s) k = (n, z)" "z \<noteq> 0 \<or> n \<noteq> 0" "qc_TrackQuota C \<noteq> 0"
  shows "\<exists>s'. qrun (user_update kc now) s [Loop, Loop, ResetPending k, ResetStored k vn vz, Loop] s' \<and>
    GetUsedQuota C kc (user_state s') k = Inr (add_pair (vn, vz) (neg_pair (n, z)))"
proof -
  from user_quota.reset_race [OF assms(1-5), of now vn vz] obtain s' where
    s': "qrun (user_update kc now) s [Loop, Loop, ResetPending k, ResetStored k vn vz, Loop] s'" "qs_phase s' = Idle"
      "user_used kc (qs_back s') k = Some (vn, vz)" "pending_get (qs_pend s') k = neg_pair (n, z)" by blast
  then have "user_quota.total kc s' k = add_pair (vn, vz) (neg_pair (n, z))"
    by (simp add: user_quota.total_def in_flight_def)
  with s' show ?thesis by (metis GetUsedQuota_total assms(6) option.distinct(1))
qed


theorem quota_reset_race_witness:
  "\<exists>s'. qrun example_upd example_qs [Loop, Loop, ResetPending ''u'', ResetStored ''u'' 10 100, Loop] s' \<and>
     GetUsedQuota example_config (ve_kms example_venv) (user_state s') ''u'' = Inr (7, 50)"
proof -
  have "user_used (ve_kms example_venv) (qs_back example_qs) ''u'' \<noteq> None" using example_qs_facts(2) by simp
  moreover have "qc_TrackQuota example_config \<noteq> 0" by (simp add: example_config_def)
  moreover have "(50::int) \<noteq> 0 \<or> (3::int) \<noteq> 0" by simp
  ultimately obtain s' where "qrun example_upd example_qs [Loop, Loop, ResetPending ''u'', ResetStored ''u'' 10 100, Loop] s'"
    "GetUsedQuota example_config (ve_kms example_venv) (user_state s') ''u'' = Inr (add_pair (10, 100) (neg_pair (3, 50)))"
    using quota_reset_race [OF example_qs_facts(1,3) _ example_qs_facts(4)] by blast
  then show ?thesis by (auto simp: add_pair_def neg_pair_def add64_def neg64_def i64_def)
qed

end
