(* ===== verification/LoginCaches.thy ===== *)
theory LoginCaches
  imports QuotaUpdater
begin

text \<open>
  The two caches that a login may be answered from: the verified passwords of
  \<^verbatim>\<open>dataprovider/cachedpassword.go\<close> and the WebDAV users of
  \<^verbatim>\<open>dataprovider/cacheduser.go\<close>. The locks make each operation atomic. Times are in
  nanoseconds since the epoch, the zero time is \<open>None\<close>.
\<close>

subsection \<open>The password cache\<close>

type_synonym passwordsCache = "(string, string) gomap"

definition passwordsCache_Add :: "bool \<Rightarrow> string \<Rightarrow> string \<Rightarrow> passwordsCache \<Rightarrow> passwordsCache" where
  "passwordsCache_Add caching username password c =
     (if \<not> caching \<or> username = '''' \<or> password = '''' then c else gm_put c username password)"

definition passwordsCache_Remove :: "bool \<Rightarrow> string \<Rightarrow> passwordsCache \<Rightarrow> passwordsCache" where
  "passwordsCache_Remove caching username c = (if \<not> caching then c else gm_del c username)"

text \<open>Whether the user is found, and whether the password matches.\<close>

definition passwordsCache_Check :: "string \<Rightarrow> string \<Rightarrow> passwordsCache \<Rightarrow> bool \<times> bool" where
  "passwordsCache_Check username password c =
     (if username = '''' \<or> password = '''' then (False, False)
      else (case gm_get c username of None \<Rightarrow> (False, False) | Some pwd \<Rightarrow> (True, pwd = password)))"


subsection \<open>Cached WebDAV users\<close>

text \<open>The lock system is an opaque value of the WebDAV library; a number tells two of them apart.\<close>

record CachedUser =
  cu_User :: User
  cu_Expiration :: "int option"
  cu_Password :: string
  cu_LockSystem :: nat

definition IsExpired :: "int \<Rightarrow> CachedUser \<Rightarrow> bool" where
  "IsExpired now c = (case cu_Expiration c of None \<Rightarrow> False | Some t \<Rightarrow> t < now)"

record usersCache =
  uc_users :: "(string, CachedUser) gomap"
  uc_maxSize :: int

definition InitializeWebDAVUserCache :: "int \<Rightarrow> usersCache" where
  "InitializeWebDAVUserCache maxSize = \<lparr>uc_users = [], uc_maxSize = maxSize\<rparr>"

definition usersCache_updateLastLogin :: "int \<Rightarrow> string \<Rightarrow> usersCache \<Rightarrow> usersCache" where
  "usersCache_updateLastLogin now username cache =
     (case gm_get (uc_users cache) username of
        None \<Rightarrow> cache
      | Some c \<Rightarrow>
          cache\<lparr>uc_users := gm_put (uc_users cache) username
            (c\<lparr>cu_User := (cu_User c)\<lparr>u_LastLogin := GetTimeAsMsSinceEpoch now\<rparr>\<rparr>)\<rparr>)"

text \<open>
  The comparison of the file systems also turns nil secrets into empty ones, which
  the validation has done before for the users that are swapped in.
\<close>

definition usersCache_swap :: "kms_Configuration \<Rightarrow> User \<Rightarrow> usersCache \<Rightarrow> usersCache" where
  "usersCache_swap kc user cache =
     (case gm_get (uc_users cache) (u_Username user) of
        None \<Rightarrow> cache
      | Some c \<Rightarrow>
          if u_Password (cu_User c) \<noteq> u_Password user then
            cache\<lparr>uc_users := gm_del (uc_users cache) (u_Username user)\<rparr>
          else if isFsEqual kc (cu_User c) user then
            cache\<lparr>uc_users := gm_put (uc_users cache) (u_Username user) (c\<lparr>cu_User := user\<rparr>)\<rparr>
          else cache\<lparr>uc_users := gm_del (uc_users cache) (u_Username user)\<rparr>)"

text \<open>The search for the entry to evict, in the iteration order of the map.\<close>

definition time_Before :: "int option \<Rightarrow> int option \<Rightarrow> bool" where
  "time_Before s t = (case (s, t) of (None, Some _) \<Rightarrow> True | (Some a, Some b) \<Rightarrow> a < b | _ \<Rightarrow> False)"

fun evict_loop :: "string \<Rightarrow> int option \<Rightarrow> (string \<times> CachedUser) list \<Rightarrow> string" where
  "evict_loop userToRemove expirationTime [] = userToRemove"
| "evict_loop userToRemove expirationTime ((k, v) # r) =
     (if userToRemove = '''' then evict_loop k (cu_Expiration v) r
      else if cu_Expiration v \<noteq> None \<and> time_Before (cu_Expiration v) expirationTime
        then evict_loop k (cu_Expiration v) r
      else evict_loop userToRemove expirationTime r)"

definition usersCache_add :: "CachedUser \<Rightarrow> usersCache \<Rightarrow> usersCache" where
  "usersCache_add c cache =
     (let users = (if uc_maxSize cache > 0 \<and> gm_len (uc_users cache) \<ge> uc_maxSize cache
                   then gm_del (uc_users cache) (evict_loop '''' None (uc_users cache)) else uc_users cache)
      in cache\<lparr>uc_users := (if u_Username (cu_User c) \<noteq> '''' then gm_put users (u_Username (cu_User c)) c else users)\<rparr>)"

definition usersCache_remove :: "string \<Rightarrow> usersCache \<Rightarrow> usersCache" where
  "usersCache_remove username cache = cache\<lparr>uc_users := gm_del (uc_users cache) username\<rparr>"

definition usersCache_get :: "string \<Rightarrow> usersCache \<Rightarrow> CachedUser option" where
  "usersCache_get username cache = gm_get (uc_users cache) username"

subsection \<open>The size of the cache\<close>

lemma evict_loop_key:
  assumes "\<forall>(k, c) \<in> set m. k \<noteq> ''''" "u \<noteq> '''' \<or> m \<noteq> []"
  shows "evict_loop u t m \<in> insert u (fst ` set m) \<and> evict_loop u t m \<noteq> ''''"
  using assms
proof (induction u t m rule: evict_loop.induct)
  case (2 u t k v r)
  then show ?case by (auto split: if_splits)
qed simp

lemma evict_loop_mem:
  assumes "\<forall>(k, c) \<in> set m. k \<noteq> ''''" "m \<noteq> []"
  shows "evict_loop '''' None m \<in> fst ` set m"
  using evict_loop_key [OF assms(1), of "''''" None] assms(2) by auto

text \<open>
  A cache that is not over its size stays so when a user is added, the added user
  is found afterwards, and at most one other entry is evicted.
\<close>

theorem usersCache_add_bound:
  assumes "wf_gm (uc_users cache)" "\<forall>(k, c) \<in> set (uc_users cache). k \<noteq> ''''" "0 < uc_maxSize cache"
    and "gm_len (uc_users cache) \<le> uc_maxSize cache" "u_Username (cu_User c) \<noteq> ''''"
  shows "gm_len (uc_users (usersCache_add c cache)) \<le> uc_maxSize (usersCache_add c cache) \<and>
    usersCache_get (u_Username (cu_User c)) (usersCache_add c cache) = Some c \<and>
    (\<exists>k. \<forall>n. n \<noteq> k \<longrightarrow> n \<noteq> u_Username (cu_User c) \<longrightarrow> usersCache_get n (usersCache_add c cache) = usersCache_get n cache)"
proof -
  let ?m = "uc_users cache" and ?k = "u_Username (cu_User c)"
  have put: "gm_len (gm_put m ?k c) \<le> gm_len m + 1" if "wf_gm m" for m
    using that by (simp add: gm_len_entries gm.wf_put gm.entries_put)
  show ?thesis
  proof (cases "gm_len ?m \<ge> uc_maxSize cache")
    case True
    let ?e = "evict_loop '''' None ?m"
    have "?m \<noteq> []" using True assms(3) by (auto simp: gm_len_def)
    then have "?e \<in> fst ` set ?m" using assms(2) by (intro evict_loop_mem)
    then have "gm_get ?m ?e \<noteq> None" by (simp add: gm_get_def map_of_eq_None_iff)
    then have "gm_len (gm_del ?m ?e) = gm_len ?m - 1"
      using assms(1) True assms(3) by (auto simp: gm_len_entries gm.wf_del gm.entries_del)
    then show ?thesis
      using True assms(3-5) put [OF gm.wf_del [OF assms(1), of ?e]]
      by (auto simp: usersCache_add_def usersCache_get_def Let_def gm.get_put gm.get_del intro: exI [of _ ?e])
  next
    case False
    then show ?thesis
      using assms put [OF assms(1)] by (auto simp: usersCache_add_def usersCache_get_def Let_def gm.get_put)
  qed
qed

definition example_cached :: "string \<Rightarrow> int option \<Rightarrow> CachedUser" where
  "example_cached n t = \<lparr>cu_User = zero_User\<lparr>u_Username := n\<rparr>, cu_Expiration = t, cu_Password = '''', cu_LockSystem = 0\<rparr>"

end
