(* ===== verification/Auth.thy ===== *)
theory Auth
  imports LoginCaches
begin

text \<open>
  The login half of \<^verbatim>\<open>dataprovider/dataprovider.go\<close>: the conditions of an account, the password
  formats, the checks of password, public key and certificate, and the pre-login
  and external authentication hooks over the memory provider. The hash functions
  and the hooks' answers are parameters. \<open>now\<close> is in nanoseconds since the epoch.
\<close>

subsection \<open>Accounts and password formats\<close>

definition checkLoginConditions :: "int \<Rightarrow> User \<Rightarrow> login_error option" where
  "checkLoginConditions now u =
     (if u_Status u < 1 then Some ErrDisabled
      else if u_ExpirationDate u > 0 \<and> u_ExpirationDate u < GetTimeAsMsSinceEpoch now then Some ErrExpired
      else None)"

text \<open>
  \<open>hl_pbkdf2 hash password salt iterations length\<close> is the key derivation with the named
  hash; \<open>hl_crypt format\<close> verifies a password against a crypt hash.
\<close>

record hashlib = pwlib +
  hl_pbkdf2 :: "string \<Rightarrow> string \<Rightarrow> string \<Rightarrow> int \<Rightarrow> nat \<Rightarrow> string"
  hl_crypt :: "string \<Rightarrow> string \<Rightarrow> string \<Rightarrow> bool"

abbreviation pbkdf2SHA1Prefix :: string where "pbkdf2SHA1Prefix \<equiv> ''$pbkdf2-sha1$''"
abbreviation pbkdf2SHA256Prefix :: string where "pbkdf2SHA256Prefix \<equiv> ''$pbkdf2-sha256$''"
abbreviation pbkdf2SHA512Prefix :: string where "pbkdf2SHA512Prefix \<equiv> ''$pbkdf2-sha512$''"
abbreviation pbkdf2SHA256B64SaltPrefix :: string where "pbkdf2SHA256B64SaltPrefix \<equiv> ''$pbkdf2-b64salt-sha256$''"
abbreviation md5cryptPwdPrefix :: string where "md5cryptPwdPrefix \<equiv> ''$1$''"
abbreviation md5cryptApr1PwdPrefix :: string where "md5cryptApr1PwdPrefix \<equiv> ''$apr1$''"
abbreviation sha512cryptPwdPrefix :: string where "sha512cryptPwdPrefix \<equiv> ''$6$''"

definition pbkdfPwdPrefixes :: "string list" where
  "pbkdfPwdPrefixes = [pbkdf2SHA1Prefix, pbkdf2SHA256Prefix, pbkdf2SHA512Prefix, pbkdf2SHA256B64SaltPrefix]"

definition pbkdfPwdB64SaltPrefixes :: "string list" where
  "pbkdfPwdB64SaltPrefixes = [pbkdf2SHA256B64SaltPrefix]"

definition unixPwdPrefixes :: "string list" where
  "unixPwdPrefixes = [md5cryptPwdPrefix, md5cryptApr1PwdPrefix, sha512cryptPwdPrefix]"

text \<open>\<^verbatim>\<open>strconv.Atoi\<close>: an optional sign, decimal digits, in range.\<close>

definition decimal :: "string \<Rightarrow> int option" where
  "decimal s = (if s = [] \<or> list_ex (\<lambda>c. c < CHR ''0'' \<or> CHR ''9'' < c) s then None
     else Some (foldl (\<lambda>n c. n * 10 + (of_char c - 48)) 0 s))"

definition strconv_Atoi :: "string \<Rightarrow> int option" where
  "strconv_Atoi s =
     (let v = (case s of
                 [] \<Rightarrow> None
               | c # r \<Rightarrow> if c = CHR ''-'' then map_option uminus (decimal r)
                          else if c = CHR ''+'' then decimal r else decimal s)
      in case v of None \<Rightarrow> None | Some n \<Rightarrow> if in_i64 n then Some n else None)"

definition comparePbkdf2PasswordAndHash :: "hashlib \<Rightarrow> string \<Rightarrow> string \<Rightarrow> login_error + bool" where
  "comparePbkdf2PasswordAndHash L password hashedPassword =
     (let vals = split_on CHR ''$'' hashedPassword in
      if length vals \<noteq> 5 then Inl ErrHashFormat
      else
        (case strconv_Atoi (vals ! 2) of
           None \<Rightarrow> Inl ErrHashFormat
         | Some iterations \<Rightarrow>
             (case base64_DecodeString (vals ! 4) of
                None \<Rightarrow> Inl ErrHashFormat
              | Some expected \<Rightarrow>
                  (case (if IsStringPrefixInSlice hashedPassword pbkdfPwdB64SaltPrefixes
                         then base64_DecodeString (vals ! 3) else Some (vals ! 3)) of
                     None \<Rightarrow> Inl ErrHashFormat
                   | Some salt \<Rightarrow>
                       (let hash = (if strings_HasPrefix hashedPassword pbkdf2SHA256Prefix \<or>
                                       strings_HasPrefix hashedPassword pbkdf2SHA256B64SaltPrefix then Some ''sha256''
                                    else if strings_HasPrefix hashedPassword pbkdf2SHA512Prefix then Some ''sha512''
                                    else if strings_HasPrefix hashedPassword pbkdf2SHA1Prefix then Some ''sha1''
                                    else None)
                        in case hash of
                             None \<Rightarrow> Inl ErrHashFormat
                           | Some f \<Rightarrow> Inr (hl_pbkdf2 L f password salt iterations (length expected) = expected))))))"

definition compareUnixPasswordAndHash :: "hashlib \<Rightarrow> User \<Rightarrow> string \<Rightarrow> login_error + bool" where
  "compareUnixPasswordAndHash L u password =
     (let crypter = (if strings_HasPrefix (u_Password u) sha512cryptPwdPrefix then Some ''sha512_crypt''
                     else if strings_HasPrefix (u_Password u) md5cryptPwdPrefix then Some ''md5_crypt''
                     else if strings_HasPrefix (u_Password u) md5cryptApr1PwdPrefix then Some ''apr1_crypt''
                     else None)
      in case crypter of
           None \<Rightarrow> Inl ErrHashFormat
         | Some c \<Rightarrow> if \<not> hl_crypt L c (u_Password u) password then Inl ErrInvalidCredentials else Inr True)"

text \<open>The comparison with the stored hash, by its format; an unknown format never matches.\<close>

definition compare_hash :: "hashlib \<Rightarrow> User \<Rightarrow> string \<Rightarrow> login_error + bool" where
  "compare_hash L u password =
     (if strings_HasPrefix (u_Password u) argonPwdPrefix then
        (case pl_argon2 L password (u_Password u) of None \<Rightarrow> Inl ErrHashFormat | Some b \<Rightarrow> Inr b)
      else if strings_HasPrefix (u_Password u) bcryptPwdPrefix then
        (if \<not> pl_bcrypt L (u_Password u) password then Inl ErrInvalidCredentials else Inr True)
      else if IsStringPrefixInSlice (u_Password u) pbkdfPwdPrefixes then
        comparePbkdf2PasswordAndHash L password (u_Password u)
      else if IsStringPrefixInSlice (u_Password u) unixPwdPrefixes then compareUnixPasswordAndHash L u password
      else Inr False)"

definition isPasswordOK ::
    "hashlib \<Rightarrow> bool \<Rightarrow> User \<Rightarrow> string \<Rightarrow> passwordsCache \<Rightarrow> (login_error + bool) \<times> passwordsCache" where
  "isPasswordOK L caching u password c =
     (let (found, match) = (if caching then passwordsCache_Check (u_Username u) password c else (False, False)) in
      if found then (Inr match, c)
      else
        (case compare_hash L u password of
           Inl e \<Rightarrow> (Inl e, c)
         | Inr match \<Rightarrow>
             (Inr match, if match then passwordsCache_Add caching (u_Username u) password c else c)))"

subsection \<open>Password, public key and certificate\<close>

text \<open>
  \<open>hook\<close> is the answer of the check password hook: an error, or a status and the
  password to verify.
\<close>

definition checkUserAndPass ::
    "hashlib \<Rightarrow> bool \<Rightarrow> int \<Rightarrow> (int \<times> string) option \<Rightarrow> User \<Rightarrow> string \<Rightarrow> passwordsCache \<Rightarrow> login_error option \<times> passwordsCache" where
  "checkUserAndPass L caching now hook u password c =
     (let verify = (\<lambda>password.
            case isPasswordOK L caching u password c of
              (Inr True, c) \<Rightarrow> (None, c)
            | (_, c) \<Rightarrow> (Some ErrInvalidCredentials, c))
      in case checkLoginConditions now u of
           Some e \<Rightarrow> (Some e, c)
         | None \<Rightarrow>
             if u_Password u = '''' then (Some ErrEmptyCredentials, c)
             else if \<not> hf_CheckPasswordDisabled (fl_Hooks (u_Filters u)) then
               (case hook of
                  None \<Rightarrow> (Some (ErrLogin ''unable to check credentials''), c)
                | Some (status, toVerify) \<Rightarrow>
                    if status = -1 then verify password
                    else if status = 1 then (None, c)
                    else if status = 2 then verify toVerify
                    else (Some ErrInvalidCredentials, c))
             else verify password)"

text \<open>\<open>parse\<close> is \<^verbatim>\<open>ssh.ParseAuthorizedKey\<close>: the wire form of the key and the text shown for it.\<close>

fun find_key :: "(string \<Rightarrow> (string \<times> string) option) \<Rightarrow> string \<Rightarrow> string list \<Rightarrow> login_error + string" where
  "find_key parse pubKey [] = Inl ErrInvalidCredentials"
| "find_key parse pubKey (k # ks) =
     (case parse k of
        None \<Rightarrow> Inl (ErrLogin ''error parsing stored public key'')
      | Some (wire, info) \<Rightarrow> if wire = pubKey then Inr info else find_key parse pubKey ks)"

definition checkUserAndPubKey ::
    "(string \<Rightarrow> (string \<times> string) option) \<Rightarrow> int \<Rightarrow> User \<Rightarrow> string \<Rightarrow> login_error + string" where
  "checkUserAndPubKey parse now u pubKey =
     (case checkLoginConditions now u of
        Some e \<Rightarrow> Inl e
      | None \<Rightarrow> if length (u_PublicKeys u) = 0 then Inl ErrInvalidCredentials else find_key parse pubKey (u_PublicKeys u))"

text \<open>The certificate is given by its common name; a nil certificate is only read for FTP and DAV.\<close>

definition checkUserAndTLSCertificate :: "int \<Rightarrow> User \<Rightarrow> string \<Rightarrow> string option \<Rightarrow> login_error option option" where
  "checkUserAndTLSCertificate now u protocol tlsCert =
     (case checkLoginConditions now u of
        Some e \<Rightarrow> Some (Some e)
      | None \<Rightarrow>
          if protocol = ''FTP'' \<or> protocol = ''DAV'' then
            (if fl_TLSUsername (u_Filters u) = ''CommonName'' then
               (case tlsCert of
                  None \<Rightarrow> None
                | Some cn \<Rightarrow> if u_Username u = cn then Some None
                             else Some (Some (ErrLogin ''CN does not match username'')))
             else Some (Some (ErrLogin ''TLS certificate is not valid'')))
          else Some (Some (ErrLogin ''certificate authentication is not supported'')))"

subsection \<open>The provider and its hooks\<close>

record dp_config =
  dc_PasswordCaching :: bool
  dc_ExternalAuthHook :: string
  dc_ExternalAuthScope :: int
  dc_PreLoginHook :: string

text \<open>
  The answers of the hooks and of the libraries the logins call. A hook gets the user
  it is about and returns its output, \<open>None\<close> for an error; \<open>hk_unmarshal\<close> decodes an output over a
  user and tells whether it is well-formed.
\<close>

record hooks =
  hk_checkPassword :: "string \<Rightarrow> string \<Rightarrow> string \<Rightarrow> string \<Rightarrow> (int \<times> string) option"
  hk_externalAuth :: "string \<Rightarrow> string \<Rightarrow> string \<Rightarrow> string \<Rightarrow> string \<Rightarrow> string \<Rightarrow> string option \<Rightarrow> User \<Rightarrow> string option"
  hk_preLogin :: "string \<Rightarrow> string \<Rightarrow> string \<Rightarrow> User \<Rightarrow> string option"
  hk_unmarshal :: "string \<Rightarrow> User \<Rightarrow> bool \<times> User"
  hk_parseAuthorizedKey :: "string \<Rightarrow> (string \<times> string) option"
  hk_publicKeyAsString :: "string \<Rightarrow> string option"

record dp_env =
  de_venv :: venv
  de_lib :: hashlib
  de_config :: dp_config
  de_hooks :: hooks

abbreviation de_kms :: "dp_env \<Rightarrow> kms_Configuration" where "de_kms D \<equiv> ve_kms (de_venv D)"
abbreviation de_caching :: "dp_env \<Rightarrow> bool" where "de_caching D \<equiv> dc_PasswordCaching (de_config D)"

record dpstate =
  dp_mem :: memoryProviderHandle
  dp_files :: files
  dp_quota :: quotaUpdater
  dp_passwords :: passwordsCache
  dp_webdav :: usersCache

fun login_err :: "perr \<Rightarrow> login_error" where
  "login_err MemoryProviderClosed = ErrClosed"
| "login_err (RecordNotFoundError _) = ErrNotFound"
| "login_err (Invalid _) = ErrLogin ''validation''"
| "login_err (AlreadyExists _) = ErrLogin ''already exists''"
| "login_err (LoadError _) = ErrLogin ''load''"

text \<open>A call that may panic, fail, or return a value, and changes the provider's state.\<close>

type_synonym 'a dpres = "((login_error + 'a) \<times> dpstate) option"

definition GetSSHPublicKeyAsString :: "hooks \<Rightarrow> string \<Rightarrow> string option" where
  "GetSSHPublicKeyAsString H pubKey = (if length pubKey = 0 then Some '''' else hk_publicKeyAsString H pubKey)"

definition getUserAndJSONForHook :: "dp_env \<Rightarrow> dpstate \<Rightarrow> string \<Rightarrow> login_error + User" where
  "getUserAndJSONForHook D s username =
     (case mem_userExists (de_kms D) (dp_mem s) username of
        Inr u \<Rightarrow> Inr u
      | Inl (RecordNotFoundError _) \<Rightarrow> Inr (zero_User\<lparr>u_Username := username\<rparr>)
      | Inl e \<Rightarrow> Inl (login_err e))"

text \<open>The provider's calls, with the new handle and files put back into the state.\<close>

definition store_user ::
    "(perr option \<times> User \<times> memoryProviderHandle \<times> files) option \<Rightarrow> dpstate \<Rightarrow> (perr option \<times> User \<times> dpstate) option" where
  "store_user r s =
     (case r of None \<Rightarrow> None
      | Some (e, u, h, fs) \<Rightarrow> Some (e, u, s\<lparr>dp_mem := h, dp_files := fs\<rparr>))"

definition provider_addUser :: "dp_env \<Rightarrow> dpstate \<Rightarrow> User \<Rightarrow> (perr option \<times> User \<times> dpstate) option" where
  "provider_addUser D s u = store_user (mem_addUser (de_venv D) (dp_mem s) (dp_files s) u) s"

definition provider_updateUser :: "dp_env \<Rightarrow> dpstate \<Rightarrow> User \<Rightarrow> (perr option \<times> User \<times> dpstate) option" where
  "provider_updateUser D s u = store_user (mem_updateUser (de_venv D) (dp_mem s) (dp_files s) u) s"

definition provider_userExists :: "dp_env \<Rightarrow> dpstate \<Rightarrow> string \<Rightarrow> login_error + User" where
  "provider_userExists D s username =
     (case mem_userExists (de_kms D) (dp_mem s) username of Inl e \<Rightarrow> Inl (login_err e) | Inr u \<Rightarrow> Inr u)"

definition swap_user :: "dp_env \<Rightarrow> User \<Rightarrow> dpstate \<Rightarrow> dpstate" where
  "swap_user D u s = s\<lparr>dp_webdav := usersCache_swap (de_kms D) u (dp_webdav s)\<rparr>"

definition cache_password :: "dp_env \<Rightarrow> string \<Rightarrow> string \<Rightarrow> dpstate \<Rightarrow> dpstate" where
  "cache_password D username password s =
     s\<lparr>dp_passwords := passwordsCache_Add (de_caching D) username password (dp_passwords s)\<rparr>"

definition forget_password :: "dp_env \<Rightarrow> string \<Rightarrow> dpstate \<Rightarrow> dpstate" where
  "forget_password D username s =
     s\<lparr>dp_passwords := passwordsCache_Remove (de_caching D) username (dp_passwords s)\<rparr>"

subsection \<open>Adding, updating and removing users\<close>

definition AddUser :: "dp_env \<Rightarrow> dpstate \<Rightarrow> User \<Rightarrow> (perr option \<times> User \<times> dpstate) option" where
  "AddUser D s user = provider_addUser D s user"

definition UpdateUser :: "dp_env \<Rightarrow> dpstate \<Rightarrow> User \<Rightarrow> (perr option \<times> User \<times> dpstate) option" where
  "UpdateUser D s user =
     (case provider_updateUser D s user of
        None \<Rightarrow> None
      | Some (Some e, u, s) \<Rightarrow> Some (Some e, u, s)
      | Some (None, u, s) \<Rightarrow> Some (None, u, forget_password D (u_Username u) (swap_user D u s)))"

definition DeleteUser :: "dp_env \<Rightarrow> dpstate \<Rightarrow> string \<Rightarrow> perr option \<times> dpstate" where
  "DeleteUser D s username =
     (case mem_userExists (de_kms D) (dp_mem s) username of
        Inl e \<Rightarrow> (Some e, s)
      | Inr user \<Rightarrow>
          (case mem_deleteUser (de_kms D) (dp_mem s) user of
             (Some e, h) \<Rightarrow> (Some e, s\<lparr>dp_mem := h\<rparr>)
           | (None, h) \<Rightarrow>
               (None, forget_password D username
                  (s\<lparr>dp_mem := h, dp_webdav := usersCache_remove (u_Username user) (dp_webdav s),
                     dp_quota := resetUserQuota username (dp_quota s)\<rparr>))))"

abbreviation lastLoginMinDelay :: int where "lastLoginMinDelay \<equiv> 600000000000"

definition UpdateLastLogin :: "dp_env \<Rightarrow> int \<Rightarrow> dpstate \<Rightarrow> User \<Rightarrow> perr option \<times> dpstate" where
  "UpdateLastLogin D now s user =
     (let diff = now - GetTimeFromMsecSinceEpoch (u_LastLogin user) in
      if diff < 0 \<or> diff > lastLoginMinDelay then
        (case mem_updateLastLogin (de_kms D) (dp_mem s) (GetTimeAsMsSinceEpoch now) (u_Username user) of
           (Some e, h) \<Rightarrow> (Some e, s\<lparr>dp_mem := h\<rparr>)
         | (None, h) \<Rightarrow> (None, s\<lparr>dp_mem := h, dp_webdav := usersCache_updateLastLogin now (u_Username user) (dp_webdav s)\<rparr>))
      else (None, s))"

definition ReloadConfig ::
    "dp_env \<Rightarrow> string \<Rightarrow> int option \<Rightarrow> BackupData option \<Rightarrow> dpstate \<Rightarrow> (perr option \<times> dpstate) option" where
  "ReloadConfig D configFile sz dump s =
     (case mem_reloadConfig (de_venv D) configFile sz dump (dp_mem s, dp_files s) of
        None \<Rightarrow> None
      | Some (e, h, fs) \<Rightarrow> Some (e, s\<lparr>dp_mem := h, dp_files := fs\<rparr>))"

subsection \<open>External authentication and the pre-login hook\<close>

definition updateUserFromExtAuthResponse :: "string \<Rightarrow> string \<Rightarrow> User \<Rightarrow> User" where
  "updateUserFromExtAuthResponse password pkey user =
     (let user = (if password \<noteq> '''' then user\<lparr>u_Password := password\<rparr> else user)
      in if pkey \<noteq> '''' \<and> \<not> IsStringPrefixInSlice pkey (u_PublicKeys user)
         then user\<lparr>u_PublicKeys := u_PublicKeys user @ [pkey]\<rparr> else user)"

definition with_usage_of :: "User \<Rightarrow> User \<Rightarrow> User" where
  "with_usage_of u user =
     user\<lparr>u_ID := u_ID u, u_UsedQuotaSize := u_UsedQuotaSize u, u_UsedQuotaFiles := u_UsedQuotaFiles u,
       u_LastQuotaUpdate := u_LastQuotaUpdate u, u_LastLogin := u_LastLogin u\<rparr>"

definition doExternalAuth ::
    "dp_env \<Rightarrow> dpstate \<Rightarrow> string \<Rightarrow> string \<Rightarrow> string \<Rightarrow> string \<Rightarrow> string \<Rightarrow> string \<Rightarrow> string option \<Rightarrow> User dpres" where
  "doExternalAuth D s username password pubKey keyboardInteractive ip protocol tlsCert =
     (case getUserAndJSONForHook D s username of
        Inl e \<Rightarrow> Some (Inl e, s)
      | Inr u \<Rightarrow>
          if hf_ExternalAuthDisabled (fl_Hooks (u_Filters u)) then Some (Inr u, s)
          else
            (case GetSSHPublicKeyAsString (de_hooks D) pubKey of
               None \<Rightarrow> Some (Inl (ErrLogin ''public key''), s)
             | Some pkey \<Rightarrow>
                 (case hk_externalAuth (de_hooks D) username password pkey keyboardInteractive ip protocol tlsCert u of
                    None \<Rightarrow> Some (Inl (ErrLogin ''external auth error''), s)
                  | Some out \<Rightarrow>
                      if IsByteArrayEmpty out then
                        (if u_ID u = 0 then Some (Inl ErrNotFound, s) else Some (Inr u, s))
                      else
                        (let (ok, user) = hk_unmarshal (de_hooks D) out zero_User in
                         if \<not> ok then Some (Inl (ErrLogin ''invalid external auth response''), s)
                         else if u_Username user = '''' then Some (Inl ErrInvalidCredentials, s)
                         else
                           (let user = updateUserFromExtAuthResponse password pkey user;
                                found = (if u_Username user \<noteq> username
                                         then (case provider_userExists D s (u_Username user) of Inl _ \<Rightarrow> None | Inr u \<Rightarrow> Some u)
                                         else Some u)
                            in if (case found of None \<Rightarrow> False | Some u \<Rightarrow> u_ID u > 0) then
                                 (case provider_updateUser D s (with_usage_of (the found) user) of
                                    None \<Rightarrow> None
                                  | Some (Some e, user, s) \<Rightarrow> Some (Inl (login_err e), s)
                                  | Some (None, user, s) \<Rightarrow>
                                      Some (Inr user, cache_password D (u_Username user) password (swap_user D user s)))
                               else
                                 (case provider_addUser D s user of
                                    None \<Rightarrow> None
                                  | Some (Some e, user, s) \<Rightarrow> Some (Inl (login_err e), s)
                                  | Some (None, user, s) \<Rightarrow>
                                      Some (provider_userExists D s (u_Username user), s)))))))"

definition executePreLoginHook :: "dp_env \<Rightarrow> dpstate \<Rightarrow> string \<Rightarrow> string \<Rightarrow> string \<Rightarrow> string \<Rightarrow> User dpres" where
  "executePreLoginHook D s username loginMethod ip protocol =
     (case getUserAndJSONForHook D s username of
        Inl e \<Rightarrow> Some (Inl e, s)
      | Inr u \<Rightarrow>
          if hf_PreLoginDisabled (fl_Hooks (u_Filters u)) then Some (Inr u, s)
          else
            (case hk_preLogin (de_hooks D) loginMethod ip protocol u of
               None \<Rightarrow> Some (Inl (ErrLogin ''pre-login hook error''), s)
             | Some out \<Rightarrow>
                 if IsByteArrayEmpty out then
                   (if u_ID u = 0 then Some (Inl ErrNotFound, s) else Some (Inr u, s))
                 else
                   (let userID = u_ID u; userPwd = u_Password u; (ok, v) = hk_unmarshal (de_hooks D) out u in
                    if \<not> ok then Some (Inl (ErrLogin ''invalid pre-login hook response''), s)
                    else
                      (let v = with_usage_of u v in
                       if userID = 0 then
                         (case provider_addUser D s v of
                            None \<Rightarrow> None
                          | Some (Some e, v, s) \<Rightarrow> Some (Inl (login_err e), s)
                          | Some (None, v, s) \<Rightarrow> Some (provider_userExists D s username, s))
                       else
                         (case provider_updateUser D s v of
                            None \<Rightarrow> None
                          | Some (Some e, v, s) \<Rightarrow> Some (Inl (login_err e), s)
                          | Some (None, v, s) \<Rightarrow>
                              (let s = swap_user D v s
                               in Some (Inr v, if u_Password v \<noteq> userPwd then forget_password D username s else s)))))))"

subsection \<open>The entry points\<close>

text \<open>The hooks that replace the plain lookup of a user for one of the login methods, by its scope bit.\<close>

definition external_auth_for :: "dp_env \<Rightarrow> int \<Rightarrow> bool" where
  "external_auth_for D scope_bit =
     (dc_ExternalAuthHook (de_config D) \<noteq> '''' \<and>
      (dc_ExternalAuthScope (de_config D) = 0 \<or> and (dc_ExternalAuthScope (de_config D)) scope_bit \<noteq> 0))"

definition check_pass_of :: "dp_env \<Rightarrow> int \<Rightarrow> string \<Rightarrow> string \<Rightarrow> string \<Rightarrow> (login_error + User) \<times> dpstate \<Rightarrow> (login_error + User) \<times> dpstate" where
  "check_pass_of D now password ip protocol r =
     (case r of
        (Inl e, s) \<Rightarrow> (Inl e, s)
      | (Inr user, s) \<Rightarrow>
          (case checkUserAndPass (de_lib D) (de_caching D) now
                  (hk_checkPassword (de_hooks D) (u_Username user) password ip protocol) user password (dp_passwords s) of
             (Some e, c) \<Rightarrow> (Inl e, s\<lparr>dp_passwords := c\<rparr>)
           | (None, c) \<Rightarrow> (Inr user, s\<lparr>dp_passwords := c\<rparr>)))"

definition mem_validateUserAndPass ::
    "dp_env \<Rightarrow> int \<Rightarrow> dpstate \<Rightarrow> string \<Rightarrow> string \<Rightarrow> string \<Rightarrow> string \<Rightarrow> (login_error + User) \<times> dpstate" where
  "mem_validateUserAndPass D now s username password ip protocol =
     (if password = '''' then (Inl ErrEmptyCredentials, s)
      else check_pass_of D now password ip protocol (provider_userExists D s username, s))"

definition CheckUserAndPass :: "dp_env \<Rightarrow> int \<Rightarrow> dpstate \<Rightarrow> string \<Rightarrow> string \<Rightarrow> string \<Rightarrow> string \<Rightarrow> User dpres" where
  "CheckUserAndPass D now s username password ip protocol =
     (if external_auth_for D 1 then
        map_option (check_pass_of D now password ip protocol) (doExternalAuth D s username password '''' '''' ip protocol None)
      else if dc_PreLoginHook (de_config D) \<noteq> '''' then
        map_option (check_pass_of D now password ip protocol) (executePreLoginHook D s username LoginMethodPassword ip protocol)
      else Some (mem_validateUserAndPass D now s username password ip protocol))"

definition check_key_of :: "dp_env \<Rightarrow> int \<Rightarrow> string \<Rightarrow> (login_error + User) \<times> dpstate \<Rightarrow> (login_error + User \<times> string) \<times> dpstate" where
  "check_key_of D now pubKey r =
     (case r of
        (Inl e, s) \<Rightarrow> (Inl e, s)
      | (Inr user, s) \<Rightarrow>
          (case checkUserAndPubKey (hk_parseAuthorizedKey (de_hooks D)) now user pubKey of
             Inl e \<Rightarrow> (Inl e, s) | Inr info \<Rightarrow> (Inr (user, info), s)))"

definition mem_validateUserAndPubKey ::
    "dp_env \<Rightarrow> int \<Rightarrow> dpstate \<Rightarrow> string \<Rightarrow> string \<Rightarrow> (login_error + User \<times> string) \<times> dpstate" where
  "mem_validateUserAndPubKey D now s username pubKey =
     (if length pubKey = 0 then (Inl ErrEmptyCredentials, s)
      else check_key_of D now pubKey (provider_userExists D s username, s))"

definition CheckUserAndPubKey :: "dp_env \<Rightarrow> int \<Rightarrow> dpstate \<Rightarrow> string \<Rightarrow> string \<Rightarrow> string \<Rightarrow> string \<Rightarrow> (User \<times> string) dpres" where
  "CheckUserAndPubKey D now s username pubKey ip protocol =
     (if external_auth_for D 2 then
        map_option (check_key_of D now pubKey) (doExternalAuth D s username '''' pubKey '''' ip protocol None)
      else if dc_PreLoginHook (de_config D) \<noteq> '''' then
        map_option (check_key_of D now pubKey) (executePreLoginHook D s username SSHLoginMethodPublicKey ip protocol)
      else Some (mem_validateUserAndPubKey D now s username pubKey))"

definition check_cert_of ::
    "int \<Rightarrow> string \<Rightarrow> string option \<Rightarrow> (login_error + User) \<times> dpstate \<Rightarrow> User dpres" where
  "check_cert_of now protocol tlsCert r =
     (case r of
        (Inl e, s) \<Rightarrow> Some (Inl e, s)
      | (Inr user, s) \<Rightarrow>
          (case checkUserAndTLSCertificate now user protocol tlsCert of
             None \<Rightarrow> None
           | Some (Some e) \<Rightarrow> Some (Inl e, s)
           | Some None \<Rightarrow> Some (Inr user, s)))"

definition mem_validateUserAndTLSCert ::
    "dp_env \<Rightarrow> int \<Rightarrow> dpstate \<Rightarrow> string \<Rightarrow> string \<Rightarrow> string option \<Rightarrow> User dpres" where
  "mem_validateUserAndTLSCert D now s username protocol tlsCert =
     (if tlsCert = None then Some (Inl (ErrLogin ''TLS certificate cannot be null or empty''), s)
      else check_cert_of now protocol tlsCert (provider_userExists D s username, s))"

definition CheckUserAndTLSCert ::
    "dp_env \<Rightarrow> int \<Rightarrow> dpstate \<Rightarrow> string \<Rightarrow> string \<Rightarrow> string \<Rightarrow> string option \<Rightarrow> User dpres" where
  "CheckUserAndTLSCert D now s username ip protocol tlsCert =
     (if external_auth_for D 8 then
        Option.bind (doExternalAuth D s username '''' '''' '''' ip protocol tlsCert) (check_cert_of now protocol tlsCert)
      else if dc_PreLoginHook (de_config D) \<noteq> '''' then
        Option.bind (executePreLoginHook D s username LoginMethodTLSCertificate ip protocol) (check_cert_of now protocol tlsCert)
      else mem_validateUserAndTLSCert D now s username protocol tlsCert)"

definition CheckUserBeforeTLSAuth ::
    "dp_env \<Rightarrow> dpstate \<Rightarrow> string \<Rightarrow> string \<Rightarrow> string \<Rightarrow> string option \<Rightarrow> User dpres" where
  "CheckUserBeforeTLSAuth D s username ip protocol tlsCert =
     (if external_auth_for D 8 then doExternalAuth D s username '''' '''' '''' ip protocol tlsCert
      else if dc_PreLoginHook (de_config D) \<noteq> '''' then executePreLoginHook D s username LoginMethodTLSCertificate ip protocol
      else Some (provider_userExists D s username, s))"

text \<open>With a certificate and a password, the hooks for the password run once more.\<close>

definition password_step ::
    "dp_env \<Rightarrow> int \<Rightarrow> string \<Rightarrow> string \<Rightarrow> string \<Rightarrow> string \<Rightarrow> User \<Rightarrow> dpstate \<Rightarrow> User dpres" where
  "password_step D now username password ip protocol user s =
     Option.bind
       (if external_auth_for D 1 then doExternalAuth D s username password '''' '''' ip protocol None else Some (Inr user, s))
       (\<lambda>r. case r of
          (Inl e, s) \<Rightarrow> Some (Inl e, s)
        | (Inr user, s) \<Rightarrow>
            map_option (check_pass_of D now password ip protocol)
              (if dc_PreLoginHook (de_config D) \<noteq> '''' then executePreLoginHook D s username LoginMethodPassword ip protocol
               else Some (Inr user, s)))"

text \<open>The login method is returned with the result: it changes for a user without certificate checks.\<close>

definition CheckCompositeCredentials ::
    "dp_env \<Rightarrow> int \<Rightarrow> dpstate \<Rightarrow> string \<Rightarrow> string \<Rightarrow> string \<Rightarrow> string \<Rightarrow> string \<Rightarrow> string option \<Rightarrow>
     ((login_error + User) \<times> string \<times> dpstate) option" where
  "CheckCompositeCredentials D now s username password ip loginMethod protocol tlsCert =
     (let as_method = (\<lambda>method. map_option (\<lambda>(r, s). (r, method, s))) in
      if loginMethod = LoginMethodPassword then as_method loginMethod (CheckUserAndPass D now s username password ip protocol)
      else
        (case CheckUserBeforeTLSAuth D s username ip protocol tlsCert of
           None \<Rightarrow> None
         | Some (Inl e, s) \<Rightarrow> Some (Inl e, loginMethod, s)
         | Some (Inr user, s) \<Rightarrow>
             if \<not> IsTLSUsernameVerificationEnabled user then
               as_method LoginMethodPassword (CheckUserAndPass D now s username password ip protocol)
             else
               (case checkUserAndTLSCertificate now user protocol tlsCert of
                  None \<Rightarrow> None
                | Some (Some e) \<Rightarrow> Some (Inl e, loginMethod, s)
                | Some None \<Rightarrow>
                    if loginMethod = LoginMethodTLSCertificate \<and> \<not> IsLoginMethodAllowed user LoginMethodTLSCertificate [] then
                      Some (Inl (ErrLogin ''certificate login method is not allowed''), loginMethod, s)
                    else if loginMethod = LoginMethodTLSCertificateAndPwd then
                      as_method loginMethod (password_step D now username password ip protocol user s)
                    else Some (Inr user, loginMethod, s))))"

definition CheckCachedUserCredentials ::
    "dp_env \<Rightarrow> int \<Rightarrow> dpstate \<Rightarrow> CachedUser \<Rightarrow> string \<Rightarrow> string \<Rightarrow> string \<Rightarrow> string option \<Rightarrow> (login_error option \<times> dpstate) option" where
  "CheckCachedUserCredentials D now s user password loginMethod protocol tlsCert =
     (let by_password =
            (case checkLoginConditions now (cu_User user) of
               Some e \<Rightarrow> Some (Some e, s)
             | None \<Rightarrow>
                 if password = '''' then Some (Some ErrInvalidCredentials, s)
                 else if cu_Password user \<noteq> '''' then
                   (if password = cu_Password user then Some (None, s) else Some (Some ErrInvalidCredentials, s))
                 else
                   (case isPasswordOK (de_lib D) (de_caching D) (cu_User user) password (dp_passwords s) of
                      (Inr True, c) \<Rightarrow> Some (None, s\<lparr>dp_passwords := c\<rparr>)
                    | (_, c) \<Rightarrow> Some (Some ErrInvalidCredentials, s\<lparr>dp_passwords := c\<rparr>)))
      in if loginMethod \<noteq> LoginMethodPassword then
           (case checkUserAndTLSCertificate now (cu_User user) protocol tlsCert of
              None \<Rightarrow> None
            | Some (Some e) \<Rightarrow> Some (Some e, s)
            | Some None \<Rightarrow>
                if loginMethod = LoginMethodTLSCertificate then
                  (if \<not> IsLoginMethodAllowed (cu_User user) LoginMethodTLSCertificate []
                   then Some (Some (ErrLogin ''certificate login method is not allowed''), s) else Some (None, s))
                else by_password)
         else by_password)"

definition CheckAdminAndPass :: "pwlib \<Rightarrow> dpstate \<Rightarrow> string \<Rightarrow> string \<Rightarrow> string \<Rightarrow> login_error + Admin" where
  "CheckAdminAndPass L s username password ip =
     (case mem_adminExists (dp_mem s) username of
        Inl _ \<Rightarrow> Inl ErrInvalidCredentials
      | Inr admin \<Rightarrow> (case Admin_checkUserAndPass L admin password ip of Some e \<Rightarrow> Inl e | None \<Rightarrow> Inr admin))"

text \<open>
  The authentication of a WebDAV request (\<^verbatim>\<open>webdavd/server.go\<close>) with the credentials the request
  carries, the basic authentication \<open>basic\<close> and the common name of a client certificate \<open>peer\<close>:
  from the cache of users if an unexpired entry is there, otherwise from the provider,
  after which the user is cached. \<open>lock\<close> is the new lock system. The result has the user,
  whether it came from the cache, and the login method. The report of a failure to
  metrics and defender is left out.
\<close>

definition getCredentialsAndLoginMethod ::
    "bool \<Rightarrow> (string \<times> string) option \<Rightarrow> string option \<Rightarrow> (string \<times> string \<times> string \<times> string option) option" where
  "getCredentialsAndLoginMethod mutualTLS basic peer =
     (case (if mutualTLS then peer else None, basic) of
        (Some cn, Some (username, password)) \<Rightarrow> Some (username, password, LoginMethodTLSCertificateAndPwd, Some cn)
      | (Some cn, None) \<Rightarrow> Some (cn, '''', LoginMethodTLSCertificate, Some cn)
      | (None, Some (username, password)) \<Rightarrow> Some (username, password, LoginMethodPassword, None)
      | (None, None) \<Rightarrow> None)"

definition webdav_login ::
    "dp_env \<Rightarrow> int \<Rightarrow> int \<Rightarrow> nat \<Rightarrow> dpstate \<Rightarrow> string \<Rightarrow> string \<Rightarrow> string \<Rightarrow> string option \<Rightarrow> string \<Rightarrow>
     ((login_error + User \<times> bool \<times> string) \<times> dpstate) option" where
  "webdav_login D expirationMinutes now lock s username password loginMethod tlsCert ip =
     (case CheckCompositeCredentials D now s username password ip loginMethod ''DAV'' tlsCert of
        None \<Rightarrow> None
      | Some (Inl e, _, s) \<Rightarrow> Some (Inl ErrInvalidCredentials, s)
      | Some (Inr user, method, s) \<Rightarrow>
          Some (Inr (user, False, method),
            s\<lparr>dp_webdav := usersCache_add
               \<lparr>cu_User = user,
                cu_Expiration = (if expirationMinutes > 0 then Some (now + mul64 expirationMinutes 60000000000) else None),
                cu_Password = password, cu_LockSystem = lock\<rparr> (dp_webdav s)\<rparr>))"

definition webdav_check ::
    "dp_env \<Rightarrow> int \<Rightarrow> int \<Rightarrow> nat \<Rightarrow> dpstate \<Rightarrow> string \<Rightarrow> string \<Rightarrow> string \<Rightarrow> string option \<Rightarrow> string \<Rightarrow>
     ((login_error + User \<times> bool \<times> string) \<times> dpstate) option" where
  "webdav_check D expirationMinutes now lock s username password loginMethod tlsCert ip =
     (let fresh = (\<lambda>s. webdav_login D expirationMinutes now lock s username password loginMethod tlsCert ip)
      in case usersCache_get username (dp_webdav s) of
           None \<Rightarrow> fresh s
         | Some c \<Rightarrow>
             if IsExpired now c then fresh (s\<lparr>dp_webdav := usersCache_remove username (dp_webdav s)\<rparr>)
             else
               (let (tlsCert, loginMethod) = (if \<not> IsTLSUsernameVerificationEnabled (cu_User c) then (None, LoginMethodPassword)
                                              else (tlsCert, loginMethod))
                in case CheckCachedUserCredentials D now s c password loginMethod ''DAV'' tlsCert of
                     None \<Rightarrow> None
                   | Some (None, s) \<Rightarrow> Some (Inr (cu_User c, True, loginMethod), s)
                   | Some (Some e, s) \<Rightarrow> Some (Inl ErrInvalidCredentials, s)))"

definition webdav_authenticate ::
    "dp_env \<Rightarrow> int \<Rightarrow> bool \<Rightarrow> int \<Rightarrow> nat \<Rightarrow> dpstate \<Rightarrow> (string \<times> string) option \<Rightarrow> string option \<Rightarrow> string \<Rightarrow>
     ((login_error + User \<times> bool \<times> string) \<times> dpstate) option" where
  "webdav_authenticate D expirationMinutes mutualTLS now lock s basic peer ip =
     (case getCredentialsAndLoginMethod mutualTLS basic peer of
        None \<Rightarrow> Some (Inl (ErrLogin ''Unauthorized''), s)
      | Some (username, password, loginMethod, tlsCert) \<Rightarrow>
          webdav_check D expirationMinutes now lock s username password loginMethod tlsCert ip)"

end
