(* ===== verification/LoginCoherence.thy ===== *)
theory LoginCoherence
  imports Auth
begin

text \<open>
  A login is answered from the stored account or from one of the two caches. The
  theorems say that, without hooks, the caches never accept what the stored account
  would refuse, however users and folders are added, changed and removed between
  the logins, and where this fails.
\<close>

subsection \<open>The stored credentials\<close>

definition cred :: "User \<Rightarrow> string \<times> int \<times> int \<times> UserFilters" where
  "cred u = (u_Password u, u_Status u, u_ExpirationDate u, u_Filters u)"

definition creds :: "memoryProviderHandle \<Rightarrow> string \<Rightarrow> (string \<times> int \<times> int \<times> UserFilters) option" where
  "creds h k = map_option cred (gm_get (mp_users h) k)"

lemma cred_copy [simp]: "cred (snd (User_getACopy kc u)) = cred u"
  by (simp add: cred_def User_getACopy_def Let_def User_SetEmptySecretsIfNil_def copy_filters_def)

lemma compare_hash_cred: "cred u = cred v \<Longrightarrow> compare_hash L u p = compare_hash L v p"
  by (simp add: cred_def compare_hash_def compareUnixPasswordAndHash_def)

lemma conditions_cred: "cred u = cred v \<Longrightarrow> checkLoginConditions now u = checkLoginConditions now v"
  by (simp add: cred_def checkLoginConditions_def)

text \<open>Operations on quota, logins and folders keep every user's credentials.\<close>

lemma creds_put: "creds (put_user h u) = (creds h)(u_Username u \<mapsto> cred u)"
  by (auto simp: creds_def gm.get_put)

lemma creds_same: "same_accounts h h' \<Longrightarrow> creds h' = creds h"
  by (simp add: creds_def same_accounts_def fun_eq_iff)

lemma creds_update_fields:
  assumes "users_inv h" "gm_get (mp_users h) k = Some u" "u_Username v = k" "cred v = cred u"
  shows "creds (put_user h v) = creds h"
  using assms by (auto simp: creds_put creds_def fun_eq_iff)

lemma cred_updates [simp]:
  "cred (u\<lparr>u_LastLogin := n\<rparr>) = cred u" "cred (u\<lparr>u_LastQuotaUpdate := n\<rparr>) = cred u" "cred (u\<lparr>u_UsedQuotaSize := n\<rparr>) = cred u"
  "cred (u\<lparr>u_UsedQuotaFiles := n\<rparr>) = cred u" "cred (u\<lparr>u_VirtualFolders := vs\<rparr>) = cred u" "cred (u\<lparr>u_ID := n\<rparr>) = cred u"
  by (simp_all add: cred_def)

lemma creds_lastLogin: "users_inv h \<Longrightarrow> creds (snd (mem_updateLastLogin kc h now k)) = creds h"
  by (auto simp: mem_updateLastLogin_def userExistsInternal_Some users_inv_named split: option.splits
      intro!: creds_update_fields)

lemma creds_quota: "users_inv h \<Longrightarrow> creds (snd (mem_updateQuota kc h now k n z reset)) = creds h"
  by (auto simp: mem_updateQuota_def userExistsInternal_Some users_inv_named Let_def split: option.splits
      intro!: creds_update_fields)

lemma creds_on_users:
  assumes "users_inv h" "distinct names" "\<And>u. u_Username (f u) = u_Username u" "\<And>u. cred (f u) = cred u"
  shows "creds (on_users kc f h names) = creds h"
  using assms by (auto simp: creds_def on_users_get option.map_comp o_def fun_eq_iff)

lemma cred_folder_updates [simp]:
  "cred (replace_user_folder kc f u) = cred u" "cred (remove_user_folder f u) = cred u"
  by (simp_all add: replace_user_folder_def remove_user_folder_def)

lemma creds_vfolders [simp]: "creds (h\<lparr>mp_vfolders := a\<rparr>) = creds h" "creds (h\<lparr>mp_vfoldersNames := b\<rparr>) = creds h"
  by (simp_all add: creds_def fun_eq_iff)

lemma users_inv_vfolders [simp]: "users_inv (h\<lparr>mp_vfolders := a\<rparr>) = users_inv h"
  by (simp add: users_inv_def)

lemma creds_addFolder: "creds (snd (snd (addFolder_locked kc h f))) = creds h"
  by (simp add: addFolder_locked_def creds_def fun_eq_iff Let_def split: option.splits)

lemma creds_updateFolder: "mem_inv h \<Longrightarrow> creds (snd (snd (updateFolder_locked kc h f))) = creds h"
  by (auto simp: updateFolder_locked_def folderExistsInternal_def mem_inv_def Let_def folders_inv_named creds_on_users
      split: option.splits)

lemma creds_deleteFolder: "mem_inv h \<Longrightarrow> distinct (bf_Users f) \<Longrightarrow> creds (snd (mem_deleteFolder kc h f)) = creds h"
  by (auto simp: mem_deleteFolder_def mem_inv_def Let_def creds_on_users split: option.splits)

lemma creds_folderQuota: "creds (snd (mem_updateFolderQuota h now n a b reset)) = creds h"
  by (simp add: mem_updateFolderQuota_def creds_def fun_eq_iff Let_def split: option.splits)

text \<open>Adding and updating store the returned user's credentials; deleting removes them.\<close>

lemma after_validation_cases:
  assumes "after_validation r locked h = Some (e, v, h', fs')"
  obtains (invalid) "e \<noteq> None" "h' = h" | (stored) x where "locked h x = (e, v, h')"
  using assms by (auto simp: after_validation_def split: option.splits prod.splits)

lemma creds_upd: "gm_get (mp_users h') = (gm_get (mp_users h))(k \<mapsto> c) \<Longrightarrow> creds h' = (creds h)(k \<mapsto> cred c)"
  by (auto simp: creds_def fun_eq_iff)

lemma creds_addUser:
  assumes "mem_addUser E h fs u = Some (e, v, h', fs')"
  shows "e \<noteq> None \<and> creds h' = creds h \<or>
    e = None \<and> creds h (u_Username v) = None \<and> creds h' = (creds h)(u_Username v \<mapsto> cred v)"
  using assms unfolding mem_addUser_def
proof (cases rule: after_validation_cases)
  case (stored x)
  then show ?thesis
  proof (cases e)
    case None
    note ok = addUser_locked_ok [OF stored [unfolded None]]
    have "u_Username v = u_Username x" using arg_cong [OF ok(3), of u_Username] by simp
    then show ?thesis using None ok(2) creds_upd [OF ok(4)] by (simp add: creds_def)
  next
    case (Some a)
    with stored addUser_locked_error [of "ve_kms E" h x a v h'] show ?thesis by simp
  qed
qed simp

lemma creds_updateUser:
  assumes "mem_updateUser E h fs u = Some (e, v, h', fs')"
  shows "e \<noteq> None \<and> creds h' = creds h \<or> e = None \<and> creds h' = (creds h)(u_Username v \<mapsto> cred v)"
  using assms unfolding mem_updateUser_def
proof (cases rule: after_validation_cases)
  case (stored x)
  then show ?thesis
  proof (cases e)
    case None
    from stored None have "gm_get (mp_users h) (u_Username x) \<noteq> None" "u_Username v = u_Username x"
      by (auto simp: updateUser_locked_def userExistsInternal_def Let_def split: if_splits option.splits prod.splits)
    with updateUser_locked_ok [OF stored [unfolded None]] None show ?thesis by (auto dest!: creds_upd)
  next
    case (Some a)
    with stored show ?thesis by (auto simp: updateUser_locked_def Let_def split: if_splits option.splits prod.splits)
  qed
qed simp

lemma creds_deleteUser:
  assumes "mem_deleteUser kc h u = (e, h')"
  shows "e \<noteq> None \<and> creds h' = creds h \<or> e = None \<and> creds h' = (creds h)(u_Username u := None)"
proof -
  have "mp_users (removeUserFromFolderMapping g n k) = mp_users g" for g n k
    by (simp add: removeUserFromFolderMapping_def split: option.splits)
  then have "mp_users (foldl (\<lambda>g w. removeUserFromFolderMapping g (vf_Name w) k) g ws) = mp_users g" for g ws k
    by (induction ws arbitrary: g) simp_all
  then have "mp_users (removeUserFromFolders g w) = mp_users g" for g w by (simp add: removeUserFromFolders_def)
  with assms show ?thesis
    by (auto simp: mem_deleteUser_def creds_def fun_eq_iff Let_def gm.get_del split: if_splits option.splits)
qed


subsection \<open>Caches that agree with the stored accounts\<close>

text \<open>
  A cached password matches the hash stored for its user. A cached WebDAV user has
  the stored credentials, and the password kept with it matches them.
\<close>

definition no_hooks :: "dp_env \<Rightarrow> bool" where
  "no_hooks D \<longleftrightarrow> dc_ExternalAuthHook (de_config D) = '''' \<and> dc_PreLoginHook (de_config D) = '''' \<and>
     (\<forall>u p i q. hk_checkPassword (de_hooks D) u p i q = Some (-1, ''''))"

definition passwords_ok :: "dp_env \<Rightarrow> dpstate \<Rightarrow> bool" where
  "passwords_ok D s \<longleftrightarrow> (\<forall>k p. gm_get (dp_passwords s) k = Some p \<longrightarrow> de_caching D \<and> k \<noteq> '''' \<and> p \<noteq> '''' \<and>
     (\<exists>u. gm_get (mp_users (dp_mem s)) k = Some u \<and> compare_hash (de_lib D) u p = Inr True))"

definition webdav_ok :: "dp_env \<Rightarrow> dpstate \<Rightarrow> bool" where
  "webdav_ok D s \<longleftrightarrow> (\<forall>k c. gm_get (uc_users (dp_webdav s)) k = Some c \<longrightarrow>
     u_Username (cu_User c) = k \<and> creds (dp_mem s) k = Some (cred (cu_User c)) \<and>
     (cu_Password c \<noteq> '''' \<longrightarrow> compare_hash (de_lib D) (cu_User c) (cu_Password c) = Inr True))"

definition dp_inv :: "dp_env \<Rightarrow> dpstate \<Rightarrow> bool" where
  "dp_inv D s \<longleftrightarrow> mem_inv (dp_mem s) \<and> passwords_ok D s \<and> webdav_ok D s"

definition entry_ok :: "dp_env \<Rightarrow> (string \<times> int \<times> int \<times> UserFilters) option \<Rightarrow> string \<Rightarrow> string \<Rightarrow> bool" where
  "entry_ok D c k p \<longleftrightarrow> de_caching D \<and> k \<noteq> '''' \<and> p \<noteq> '''' \<and> (\<exists>u. c = Some (cred u) \<and> compare_hash (de_lib D) u p = Inr True)"

lemma entry_ok_None [simp]: "\<not> entry_ok D None k p"
  by (simp add: entry_ok_def)

lemma passwords_ok_alt:
  "passwords_ok D s \<longleftrightarrow> (\<forall>k p. gm_get (dp_passwords s) k = Some p \<longrightarrow> entry_ok D (creds (dp_mem s) k) k p)"
proof -
  have "(\<exists>u. gm_get (mp_users h) k = Some u \<and> compare_hash L u p = Inr True) \<longleftrightarrow>
      (\<exists>u. creds h k = Some (cred u) \<and> compare_hash L u p = Inr True)" for h k p and L :: hashlib
  proof
    assume "\<exists>u. creds h k = Some (cred u) \<and> compare_hash L u p = Inr True"
    then obtain u v where "gm_get (mp_users h) k = Some v" "cred v = cred u" "compare_hash L u p = Inr True"
      by (auto simp: creds_def)
    then show "\<exists>u. gm_get (mp_users h) k = Some u \<and> compare_hash L u p = Inr True"
      using compare_hash_cred [of v u L p] by simp
  qed (auto simp: creds_def)
  then show ?thesis by (simp add: passwords_ok_def entry_ok_def)
qed

text \<open>A step that keeps all credentials keeps the caches right.\<close>

lemma dp_inv_same:
  assumes "dp_inv D s" "mem_inv (dp_mem s')" "creds (dp_mem s') = creds (dp_mem s)" "dp_passwords s' = dp_passwords s"
    "dp_webdav s' = dp_webdav s"
  shows "dp_inv D s'"
  using assms by (simp add: dp_inv_def passwords_ok_alt webdav_ok_def)

lemma compare_hash_password: "u_Password u = u_Password v \<Longrightarrow> compare_hash L u p = compare_hash L v p"
  by (simp add: compare_hash_def compareUnixPasswordAndHash_def)

lemma isPasswordOK_inv:
  assumes "dp_inv D s" "creds (dp_mem s) (u_Username u) = Some (cred u)"
    and "isPasswordOK (de_lib D) (de_caching D) u p (dp_passwords s) = (r, c)"
  shows "dp_inv D (s\<lparr>dp_passwords := c\<rparr>)"
    "r = Inr True \<longleftrightarrow> compare_hash (de_lib D) u p = Inr True \<and>
       (p = '''' \<or> gm_get (dp_passwords s) (u_Username u) \<in> {None, Some p})"
proof -
  let ?old = "gm_get (dp_passwords s) (u_Username u)"
  have ok: "compare_hash (de_lib D) u q = Inr True \<and> de_caching D \<and> u_Username u \<noteq> ''''" if "?old = Some q" for q
  proof -
    from assms(1) that obtain v where v: "creds (dp_mem s) (u_Username u) = Some (cred v)" "compare_hash (de_lib D) v q = Inr True"
      "de_caching D" "u_Username u \<noteq> ''''" unfolding dp_inv_def passwords_ok_alt entry_ok_def by blast
    then show ?thesis using compare_hash_cred [of u v "de_lib D" q] assms(2) by simp
  qed
  have c: "c = dp_passwords s \<or> compare_hash (de_lib D) u p = Inr True \<and> c = passwordsCache_Add (de_caching D) (u_Username u) p (dp_passwords s)"
    using assms(3) by (auto simp: isPasswordOK_def split: if_splits sum.splits prod.splits)
  show "dp_inv D (s\<lparr>dp_passwords := c\<rparr>)"
    using c assms(1-2) entry_ok_def [of D "creds (dp_mem s) (u_Username u)" "u_Username u" p]
    by (auto simp: dp_inv_def passwords_ok_alt webdav_ok_def passwordsCache_Add_def gm.get_put split: if_splits)
  show "r = Inr True \<longleftrightarrow> compare_hash (de_lib D) u p = Inr True \<and> (p = '''' \<or> ?old \<in> {None, Some p})"
  proof (cases "?old = None \<or> p = ''''")
    case True
    then show ?thesis
      using assms(3) by (auto simp: isPasswordOK_def passwordsCache_Check_def split: if_splits sum.splits prod.splits)
  next
    case False
    then obtain q where Some: "?old = Some q" by auto
    then show ?thesis using ok [OF Some] False assms(3) by (auto simp: isPasswordOK_def passwordsCache_Check_def)
  qed
qed

lemma usersCache_add_get:
  "gm_get (uc_users (usersCache_add c cache)) k = Some c' \<Longrightarrow>
     k = u_Username (cu_User c) \<and> c' = c \<or> gm_get (uc_users cache) k = Some c'"
  by (auto simp: usersCache_add_def Let_def gm.get_put gm.get_del split: if_splits)

lemma usersCache_swap_get:
  assumes "gm_get (uc_users (usersCache_swap kc u cache)) k = Some c'"
  obtains (other) "k \<noteq> u_Username u" "gm_get (uc_users cache) k = Some c'"
  | (swapped) c where "k = u_Username u" "gm_get (uc_users cache) k = Some c" "c' = c\<lparr>cu_User := u\<rparr>"
      "u_Password (cu_User c) = u_Password u"
  using assms by (cases "k = u_Username u") (auto simp: usersCache_swap_def gm.get_put gm.get_del split: option.splits if_splits)

lemma cached_entry: "dp_inv D s \<Longrightarrow> gm_get (dp_passwords s) k = Some p \<Longrightarrow> entry_ok D (creds (dp_mem s) k) k p"
  by (simp add: dp_inv_def passwords_ok_alt)

lemma cached_stored:
  assumes "dp_inv D s" "creds (dp_mem s) k = None"
  shows "gm_get (dp_passwords s) k = None" "gm_get (uc_users (dp_webdav s)) k = None"
proof -
  have "gm_get (dp_passwords s) k \<noteq> Some p" for p using cached_entry [OF assms(1), of k p] assms(2) by auto
  then show "gm_get (dp_passwords s) k = None" by auto
  have "gm_get (uc_users (dp_webdav s)) k \<noteq> Some c" for c using assms by (auto simp: dp_inv_def webdav_ok_def)
  then show "gm_get (uc_users (dp_webdav s)) k = None" by auto
qed

lemma cached_user:
  assumes "dp_inv D s" "gm_get (uc_users (dp_webdav s)) k = Some c"
  shows "u_Username (cu_User c) = k" "creds (dp_mem s) k = Some (cred (cu_User c))"
    "cu_Password c \<noteq> '''' \<Longrightarrow> compare_hash (de_lib D) (cu_User c) (cu_Password c) = Inr True"
  using assms by (auto simp: dp_inv_def webdav_ok_def)

subsection \<open>Every operation keeps the caches right\<close>

lemma AddUser_inv:
  assumes "dp_inv D s" "AddUser D s u = Some (e, v, s')"
  shows "dp_inv D s'"
proof -
  from assms(2) obtain h' fs' where a: "mem_addUser (de_venv D) (dp_mem s) (dp_files s) u = Some (e, v, h', fs')"
    and s': "s' = s\<lparr>dp_mem := h', dp_files := fs'\<rparr>"
    by (auto simp: AddUser_def provider_addUser_def store_user_def split: option.splits)
  have "mem_inv h'" using assms(1) restore_step_inv(1) [OF _ a] by (simp add: dp_inv_def)
  moreover have "dp_inv D s'" if "creds (dp_mem s) (u_Username v) = None" "creds h' = (creds (dp_mem s))(u_Username v \<mapsto> cred v)"
      "mem_inv h'"
    using that assms(1) cached_stored [OF assms(1) that(1)]
    by (auto simp: s' dp_inv_def passwords_ok_alt webdav_ok_def)
  ultimately show ?thesis using creds_addUser [OF a] dp_inv_same [OF assms(1)] by (auto simp: s')
qed

lemma UpdateUser_inv:
  assumes "dp_inv D s" "UpdateUser D s u = Some (e, v, s')"
  shows "dp_inv D s'"
proof -
  from assms(2) obtain h' fs' where a: "mem_updateUser (de_venv D) (dp_mem s) (dp_files s) u = Some (e, v, h', fs')"
    and s': "s' = (let t = s\<lparr>dp_mem := h', dp_files := fs'\<rparr> in
       case e of None \<Rightarrow> forget_password D (u_Username v) (swap_user D v t) | Some _ \<Rightarrow> t)"
    by (auto simp: UpdateUser_def provider_updateUser_def store_user_def Let_def split: option.splits)
  have inv: "mem_inv h'" using assms(1) restore_step_inv(2) [OF _ a] by (simp add: dp_inv_def)
  show ?thesis
  proof (cases e)
    case None
    then have cr: "creds h' = (creds (dp_mem s))(u_Username v \<mapsto> cred v)" using creds_updateUser [OF a] by simp
    have "de_caching D" if "gm_get (dp_passwords s) k = Some p" for k p
      using cached_entry [OF assms(1) that] by (simp add: entry_ok_def)
    then have "passwords_ok D s'"
      using assms(1) by (fastforce simp: s' None Let_def dp_inv_def passwords_ok_alt forget_password_def swap_user_def
          passwordsCache_Remove_def gm.get_del cr split: if_splits)
    moreover have "webdav_ok D s'"
      unfolding webdav_ok_def
    proof (intro allI impI)
      fix k c assume "gm_get (uc_users (dp_webdav s')) k = Some c"
      then have "gm_get (uc_users (usersCache_swap (de_kms D) v (dp_webdav s))) k = Some c"
        by (simp add: s' None forget_password_def swap_user_def)
      then show "u_Username (cu_User c) = k \<and> creds (dp_mem s') k = Some (cred (cu_User c)) \<and>
          (cu_Password c \<noteq> '''' \<longrightarrow> compare_hash (de_lib D) (cu_User c) (cu_Password c) = Inr True)"
      proof (cases rule: usersCache_swap_get)
        case other
        then show ?thesis using assms(1) by (simp add: dp_inv_def webdav_ok_def s' None forget_password_def swap_user_def cr)
      next
        case (swapped c0)
        then show ?thesis
          using cached_user(3) [OF assms(1) swapped(2)] compare_hash_password [of "cu_User c0" v]
          by (simp add: s' None forget_password_def swap_user_def cr)
      qed
    qed
    ultimately show ?thesis using inv by (simp add: dp_inv_def s' None forget_password_def swap_user_def)
  next
    case (Some a)
    then show ?thesis using creds_updateUser [OF a] inv by (intro dp_inv_same [OF assms(1)]) (simp_all add: s')
  qed
qed

lemma DeleteUser_inv:
  assumes "dp_inv D s"
  shows "dp_inv D (snd (DeleteUser D s k))"
proof -
  consider (missing) "snd (DeleteUser D s k) = s" | (found) u where "mem_userExists (de_kms D) (dp_mem s) k = Inr u"
    by (cases "mem_userExists (de_kms D) (dp_mem s) k") (auto simp: DeleteUser_def)
  then show ?thesis
  proof cases
    case (found u)
    obtain e h where "mem_deleteUser (de_kms D) (dp_mem s) u = (e, h)" by fastforce
    note found = found this
    have inv: "mem_inv h" using assms mem_deleteUser_inv [of "dp_mem s" "de_kms D" u] found(2) by (simp add: dp_inv_def)
    have name: "u_Username u = k"
      using found(1) assms users_inv_named [of "dp_mem s" k]
      by (auto simp: mem_userExists_def userExistsInternal_Some dp_inv_def mem_inv_def split: if_splits option.splits)
    show ?thesis
    proof (cases e)
      case None
      have cr: "creds h = (creds (dp_mem s))(k := None)" using creds_deleteUser [OF found(2)] None name by simp
      have "de_caching D" if "gm_get (dp_passwords s) n = Some p" for n p
        using cached_entry [OF assms that] by (simp add: entry_ok_def)
      moreover have "snd (DeleteUser D s k) = forget_password D k (s\<lparr>dp_mem := h,
          dp_webdav := usersCache_remove k (dp_webdav s), dp_quota := resetUserQuota k (dp_quota s)\<rparr>)"
        using found None name by (simp add: DeleteUser_def)
      ultimately show ?thesis using assms inv
        by (fastforce simp: dp_inv_def passwords_ok_alt webdav_ok_def forget_password_def passwordsCache_Remove_def
            usersCache_remove_def gm.get_del cr)
    next
      case (Some a)
      then have "snd (DeleteUser D s k) = s\<lparr>dp_mem := h\<rparr>" using found by (simp add: DeleteUser_def)
      then show ?thesis using creds_deleteUser [OF found(2)] Some inv by (intro dp_inv_same [OF assms]) simp_all
    qed
  qed (use assms in simp)
qed

lemma UpdateLastLogin_inv:
  assumes "dp_inv D s"
  shows "dp_inv D (snd (UpdateLastLogin D now s u))"
proof -
  obtain e h where m: "mem_updateLastLogin (de_kms D) (dp_mem s) (GetTimeAsMsSinceEpoch now) (u_Username u) = (e, h)" by fastforce
  have "mem_inv h" "creds h = creds (dp_mem s)"
    using assms m mem_updateLastLogin_inv [of "dp_mem s" "de_kms D" "GetTimeAsMsSinceEpoch now" "u_Username u"]
      creds_lastLogin [of "dp_mem s" "de_kms D" "GetTimeAsMsSinceEpoch now" "u_Username u"]
    by (simp_all add: dp_inv_def mem_inv_def)
  moreover have "gm_get (uc_users (usersCache_updateLastLogin now n cache)) k =
      (if k = n then map_option (\<lambda>c. c\<lparr>cu_User := (cu_User c)\<lparr>u_LastLogin := GetTimeAsMsSinceEpoch now\<rparr>\<rparr>) (gm_get (uc_users cache) k)
       else gm_get (uc_users cache) k)" for n cache k
    by (auto simp: usersCache_updateLastLogin_def gm.get_put split: option.splits)
  moreover have "compare_hash L (w\<lparr>u_LastLogin := t\<rparr>) p = compare_hash L w p" for L :: hashlib and w t p
    by (rule compare_hash_password) simp
  ultimately show ?thesis
    using assms by (auto simp: UpdateLastLogin_def Let_def m dp_inv_def passwords_ok_alt webdav_ok_def split: option.splits)
qed

text \<open>The stored account of a name, as the provider returns it.\<close>

lemma userExists_cred:
  assumes "dp_inv D s"
  shows "provider_userExists D s k = Inr u \<Longrightarrow> u_Username u = k \<and> creds (dp_mem s) k = Some (cred u)"
    "\<not> mp_isClosed (dp_mem s) \<Longrightarrow> creds (dp_mem s) k = Some c \<Longrightarrow> \<exists>u. provider_userExists D s k = Inr u"
  using assms users_inv_named [of "dp_mem s" k]
  by (auto simp: provider_userExists_def mem_userExists_def userExistsInternal_def creds_def dp_inv_def mem_inv_def
      split: if_splits option.splits sum.splits)

lemma check_pass_of_inv:
  assumes "dp_inv D s" "no_hooks D" "u_Username u = k" "creds (dp_mem s) k = Some (cred u)"
    and "check_pass_of D now p ip prot (Inr u, s) = (r, s')"
  shows "dp_inv D s'" "\<exists>c. s' = s\<lparr>dp_passwords := c\<rparr>" "r = Inr v \<longleftrightarrow>
    v = u \<and> checkLoginConditions now u = None \<and> u_Password u \<noteq> '''' \<and> compare_hash (de_lib D) u p = Inr True \<and>
    (p = '''' \<or> gm_get (dp_passwords s) k \<in> {None, Some p})"
proof -
  obtain b c where i: "isPasswordOK (de_lib D) (de_caching D) u p (dp_passwords s) = (b, c)" by fastforce
  have inv: "dp_inv D (s\<lparr>dp_passwords := c\<rparr>)"
    and b: "b = Inr True \<longleftrightarrow> compare_hash (de_lib D) u p = Inr True \<and> (p = '''' \<or> gm_get (dp_passwords s) k \<in> {None, Some p})"
    using isPasswordOK_inv [OF assms(1) _ i] assms(3,4) by simp_all
  have "checkUserAndPass (de_lib D) (de_caching D) now (hk_checkPassword (de_hooks D) k p ip prot) u p (dp_passwords s) =
      (case checkLoginConditions now u of Some e \<Rightarrow> (Some e, dp_passwords s)
       | None \<Rightarrow> if u_Password u = '''' then (Some ErrEmptyCredentials, dp_passwords s)
                 else (if b = Inr True then None else Some ErrInvalidCredentials, c))"
    using assms(2) i by (auto simp: checkUserAndPass_def no_hooks_def Let_def split: option.splits sum.splits)
  then have "check_pass_of D now p ip prot (Inr u, s) =
      (case checkLoginConditions now u of Some e \<Rightarrow> (Inl e, s)
       | None \<Rightarrow> if u_Password u = '''' then (Inl ErrEmptyCredentials, s)
                 else (if b = Inr True then Inr u else Inl ErrInvalidCredentials, s\<lparr>dp_passwords := c\<rparr>))"
    using assms(3) by (auto simp: check_pass_of_def split: option.splits)
  then have r: "(r, s') = (case checkLoginConditions now u of Some e \<Rightarrow> (Inl e, s)
       | None \<Rightarrow> if u_Password u = '''' then (Inl ErrEmptyCredentials, s)
                 else (if b = Inr True then Inr u else Inl ErrInvalidCredentials, s\<lparr>dp_passwords := c\<rparr>))"
    using assms(5) by simp
  then have "s' = s \<or> s' = s\<lparr>dp_passwords := c\<rparr>" by (auto split: option.splits if_splits)
  then show "dp_inv D s'" using assms(1) inv by auto
  show "\<exists>c. s' = s\<lparr>dp_passwords := c\<rparr>" using \<open>s' = s \<or> s' = s\<lparr>dp_passwords := c\<rparr>\<close> by (metis dpstate.surjective dpstate.update_convs(4))
  show "r = Inr v \<longleftrightarrow> v = u \<and> checkLoginConditions now u = None \<and> u_Password u \<noteq> '''' \<and> compare_hash (de_lib D) u p = Inr True \<and>
    (p = '''' \<or> gm_get (dp_passwords s) k \<in> {None, Some p})"
    using r by (auto simp: b split: option.splits if_splits)
qed

definition same_but_passwords :: "dpstate \<Rightarrow> dpstate \<Rightarrow> bool" where
  "same_but_passwords s s' \<longleftrightarrow> (\<exists>c. s' = s\<lparr>dp_passwords := c\<rparr>)"

lemma same_but_passwords_simps [simp]:
  "same_but_passwords s s" "same_but_passwords s (s\<lparr>dp_passwords := c\<rparr>)"
  by (auto simp: same_but_passwords_def intro: exI [of _ "dp_passwords s"])

lemma same_but_passwordsD: "same_but_passwords s s' \<Longrightarrow> dp_mem s' = dp_mem s \<and> dp_webdav s' = dp_webdav s"
  by (auto simp: same_but_passwords_def)

lemma CheckUserAndPass_result:
  assumes "dp_inv D s" "no_hooks D" "CheckUserAndPass D now s k p ip prot = Some (r, s')"
  shows "dp_inv D s' \<and> same_but_passwords s s' \<and> (r = Inr u \<longleftrightarrow> p \<noteq> '''' \<and> provider_userExists D s k = Inr u \<and>
    checkLoginConditions now u = None \<and> u_Password u \<noteq> '''' \<and> compare_hash (de_lib D) u p = Inr True \<and>
    gm_get (dp_passwords s) k \<in> {None, Some p})"
proof -
  have c: "mem_validateUserAndPass D now s k p ip prot = (r, s')"
    using assms(2,3) by (simp add: CheckUserAndPass_def no_hooks_def external_auth_for_def)
  show ?thesis
  proof (cases "provider_userExists D s k")
    case (Inl e)
    then show ?thesis using c assms(1) by (auto simp: mem_validateUserAndPass_def check_pass_of_def split: if_splits)
  next
    case (Inr v)
    note v = userExists_cred(1) [OF assms(1) this]
    show ?thesis
    proof (cases "p = ''''")
      case False
      then have "check_pass_of D now p ip prot (Inr v, s) = (r, s')" using c Inr by (simp add: mem_validateUserAndPass_def)
      from check_pass_of_inv [OF assms(1,2) conjunct1 [OF v] conjunct2 [OF v] this] show ?thesis
        using False Inr by (auto simp: same_but_passwords_def)
    qed (use c assms(1) in \<open>auto simp: mem_validateUserAndPass_def\<close>)
  qed
qed

lemma TLSCertificate_None:
  "checkUserAndTLSCertificate now u ''DAV'' cert = Some None \<Longrightarrow> checkLoginConditions now u = None \<and> cert = Some (u_Username u)"
  by (auto simp: checkUserAndTLSCertificate_def split: option.splits if_splits)

definition may_login :: "dp_env \<Rightarrow> dpstate \<Rightarrow> int \<Rightarrow> string \<Rightarrow> string \<Rightarrow> string \<Rightarrow> string option \<Rightarrow> User \<Rightarrow> bool" where
  "may_login D s now k p method cert u \<longleftrightarrow>
     u_Username u = k \<and> creds (dp_mem s) k = Some (cred u) \<and> checkLoginConditions now u = None \<and>
     (compare_hash (de_lib D) u p = Inr True \<or> method = LoginMethodTLSCertificate \<and> cert = Some k)"

lemma composite_result:
  assumes "dp_inv D s" "no_hooks D" "m \<in> {LoginMethodPassword, LoginMethodTLSCertificate, LoginMethodTLSCertificateAndPwd}"
    and "CheckCompositeCredentials D now s k p ip m ''DAV'' cert = Some (r, m', s')"
  shows "dp_inv D s' \<and> same_but_passwords s s' \<and> (r = Inr u \<longrightarrow> may_login D s now k p m' cert u \<and> (m' = m \<or> m' = LoginMethodPassword))"
proof -
  have by_pass: "dp_inv D s' \<and> same_but_passwords s s' \<and> (r = Inr u \<longrightarrow> may_login D s now k p m' cert u)"
    if "CheckUserAndPass D now s k p ip ''DAV'' = Some (r, s')"
    using CheckUserAndPass_result [OF assms(1,2) that, of u] userExists_cred(1) [OF assms(1), of k u] by (auto simp: may_login_def)
  show ?thesis
  proof (cases "m = LoginMethodPassword")
    case True
    then show ?thesis using assms(4) by_pass by (auto simp: CheckCompositeCredentials_def)
  next
    case cert: False
    show ?thesis
    proof (cases "provider_userExists D s k")
      case (Inl e)
      then show ?thesis using assms(1,2,4) cert
        by (auto simp: CheckCompositeCredentials_def CheckUserBeforeTLSAuth_def no_hooks_def external_auth_for_def)
    next
      case (Inr v)
      note v = userExists_cred(1) [OF assms(1) this]
      have comp: "CheckUserBeforeTLSAuth D s k ip ''DAV'' cert = Some (Inr v, s)"
        using assms(2) Inr by (simp add: CheckUserBeforeTLSAuth_def no_hooks_def external_auth_for_def)
      show ?thesis
      proof (cases "IsTLSUsernameVerificationEnabled v")
        case False
        then show ?thesis using assms(4) comp cert by_pass by (auto simp: CheckCompositeCredentials_def)
      next
        case tls: True
        have step: "password_step D now k p ip ''DAV'' v s = Some (check_pass_of D now p ip ''DAV'' (Inr v, s))"
          using assms(2) by (simp add: password_step_def no_hooks_def external_auth_for_def)
        obtain b t where b: "check_pass_of D now p ip ''DAV'' (Inr v, s) = (b, t)" by fastforce
        note res = check_pass_of_inv [OF assms(1,2) conjunct1 [OF v] conjunct2 [OF v] b]
        have t: "dp_inv D t" "same_but_passwords s t" using res(1,2) by (auto simp: same_but_passwords_def)
        have "Some (r, m', s') = (case checkUserAndTLSCertificate now v ''DAV'' cert of
            None \<Rightarrow> None
          | Some (Some e) \<Rightarrow> Some (Inl e, m, s)
          | Some None \<Rightarrow>
              if m = LoginMethodTLSCertificate \<and> \<not> IsLoginMethodAllowed v LoginMethodTLSCertificate [] then
                Some (Inl (ErrLogin ''certificate login method is not allowed''), m, s)
              else if m = LoginMethodTLSCertificateAndPwd then Some (b, m, t) else Some (Inr v, m, s))"
          unfolding assms(4) [symmetric] CheckCompositeCredentials_def Let_def comp using cert tls
          by (simp add: step b split: option.split)
        then consider (err) e where "r = Inl e" "s' = s"
          | (pwd) "m = LoginMethodTLSCertificateAndPwd" "r = b" "m' = m" "s' = t"
          | (crt) "checkUserAndTLSCertificate now v ''DAV'' cert = Some None" "r = Inr v" "m' = m" "s' = s" "m \<noteq> LoginMethodTLSCertificateAndPwd"
          by (auto split: option.splits if_splits)
        then show ?thesis
        proof cases
          case err
          then show ?thesis using assms(1) by simp
        next
          case pwd
          then show ?thesis using t v res(3) [of u] by (auto simp: may_login_def)
        next
          case crt
          then have "m = LoginMethodTLSCertificate" using assms(3) cert by auto
          then show ?thesis using crt assms(1) v TLSCertificate_None [OF crt(1)] by (auto simp: may_login_def)
        qed
      qed
    qed
  qed
qed

lemma cached_result:
  assumes "dp_inv D s" "m \<in> {LoginMethodPassword, LoginMethodTLSCertificate, LoginMethodTLSCertificateAndPwd}"
    and "gm_get (uc_users (dp_webdav s)) k = Some c" "CheckCachedUserCredentials D now s c p m ''DAV'' cert = Some (e, s')"
  shows "dp_inv D s' \<and> same_but_passwords s s' \<and> (e = None \<longrightarrow> may_login D s now k p m cert (cu_User c))"
proof -
  note c = cached_user [OF assms(1,3)]
  obtain b pc where i: "isPasswordOK (de_lib D) (de_caching D) (cu_User c) p (dp_passwords s) = (b, pc)" by fastforce
  have b: "dp_inv D (s\<lparr>dp_passwords := pc\<rparr>)" "b = Inr True \<longrightarrow> compare_hash (de_lib D) (cu_User c) p = Inr True"
    using isPasswordOK_inv [OF assms(1) _ i] c(1,2) by simp_all
  let ?by_password = "case checkLoginConditions now (cu_User c) of
       Some e \<Rightarrow> Some (Some e, s)
     | None \<Rightarrow>
         if p = '''' then Some (Some ErrInvalidCredentials, s)
         else if cu_Password c \<noteq> '''' then
           (if p = cu_Password c then Some (None, s) else Some (Some ErrInvalidCredentials, s))
         else Some (if b = Inr True then None else Some ErrInvalidCredentials, s\<lparr>dp_passwords := pc\<rparr>)"
  have "CheckCachedUserCredentials D now s c p m ''DAV'' cert =
      (if m \<noteq> LoginMethodPassword then
         (case checkUserAndTLSCertificate now (cu_User c) ''DAV'' cert of
            None \<Rightarrow> None
          | Some (Some e) \<Rightarrow> Some (Some e, s)
          | Some None \<Rightarrow>
              if m = LoginMethodTLSCertificate then
                (if \<not> IsLoginMethodAllowed (cu_User c) LoginMethodTLSCertificate []
                 then Some (Some (ErrLogin ''certificate login method is not allowed''), s) else Some (None, s))
              else ?by_password)
       else ?by_password)"
    by (auto simp: CheckCachedUserCredentials_def i Let_def split: option.split sum.split)
  with assms(4) consider (pass) "?by_password = Some (e, s')" | (err) "e \<noteq> None" "s' = s"
    | (cert) "m = LoginMethodTLSCertificate" "checkUserAndTLSCertificate now (cu_User c) ''DAV'' cert = Some None" "s' = s"
    by (auto split: option.splits if_splits)
  then show ?thesis
  proof cases
    case pass
    then have "(s' = s \<or> s' = s\<lparr>dp_passwords := pc\<rparr>)" "e = None \<Longrightarrow> checkLoginConditions now (cu_User c) = None \<and>
        compare_hash (de_lib D) (cu_User c) p = Inr True"
      using b(2) c(3) by (auto split: option.splits if_splits)
    then show ?thesis using assms(1) b(1) c(1,2) by (auto simp: may_login_def)
  next
    case cert
    then show ?thesis using assms(1) c(1,2) TLSCertificate_None [OF cert(2)] by (auto simp: may_login_def)
  qed (use assms(1) in auto)
qed

lemma add_cached_inv:
  assumes "dp_inv D s" "may_login D s now k p m cert (cu_User c)" "cu_Password c = p" "m = LoginMethodTLSCertificate \<Longrightarrow> p = ''''"
  shows "dp_inv D (s\<lparr>dp_webdav := usersCache_add c (dp_webdav s)\<rparr>)"
proof -
  have "webdav_ok D (s\<lparr>dp_webdav := usersCache_add c (dp_webdav s)\<rparr>)"
    unfolding webdav_ok_def
  proof (intro allI impI)
    fix k' c' assume "gm_get (uc_users (dp_webdav (s\<lparr>dp_webdav := usersCache_add c (dp_webdav s)\<rparr>))) k' = Some c'"
    then consider "k' = u_Username (cu_User c)" "c' = c" | "gm_get (uc_users (dp_webdav s)) k' = Some c'"
      using usersCache_add_get by fastforce
    then show "u_Username (cu_User c') = k' \<and> creds (dp_mem (s\<lparr>dp_webdav := usersCache_add c (dp_webdav s)\<rparr>)) k' = Some (cred (cu_User c')) \<and>
        (cu_Password c' \<noteq> '''' \<longrightarrow> compare_hash (de_lib D) (cu_User c') (cu_Password c') = Inr True)"
    proof cases
      case 1
      then show ?thesis using assms by (auto simp: may_login_def)
    next
      case 2
      then show ?thesis using cached_user [OF assms(1) 2] by simp
    qed
  qed
  then show ?thesis using assms(1) by (simp add: dp_inv_def passwords_ok_alt)
qed

lemma may_login_mem: "dp_mem s = dp_mem t \<Longrightarrow> may_login D s = may_login D t"
  by (simp add: may_login_def fun_eq_iff)

lemma remove_cached_inv: "dp_inv D s \<Longrightarrow> dp_inv D (s\<lparr>dp_webdav := usersCache_remove k (dp_webdav s)\<rparr>)"
  by (simp add: dp_inv_def passwords_ok_alt webdav_ok_def usersCache_remove_def gm.get_del)

lemma webdav_fresh:
  assumes "dp_inv D s" "no_hooks D" "m \<in> {LoginMethodPassword, LoginMethodTLSCertificate, LoginMethodTLSCertificateAndPwd}"
    and "m = LoginMethodTLSCertificate \<Longrightarrow> p = ''''"
    and "CheckCompositeCredentials D now s k p ip m ''DAV'' cert = Some (Inr u, m', s1)"
  shows "dp_inv D (s1\<lparr>dp_webdav := usersCache_add \<lparr>cu_User = u, cu_Expiration = x, cu_Password = p, cu_LockSystem = l\<rparr> (dp_webdav s1)\<rparr>) \<and>
    may_login D s now k p m' cert u"
proof -
  note r = composite_result [OF assms(1,2,3,5), of u]
  then have "may_login D s1 now k p m' cert u" using may_login_mem [of s1 s] same_but_passwordsD [of s s1] by simp
  then show ?thesis using r assms(4) by (auto intro: add_cached_inv)
qed

lemma webdav_check_result:
  assumes "dp_inv D s" "no_hooks D" "m \<in> {LoginMethodPassword, LoginMethodTLSCertificate, LoginMethodTLSCertificateAndPwd}"
    and "m = LoginMethodTLSCertificate \<Longrightarrow> p = ''''"
    and "webdav_check D x now l s k p m cert ip = Some (r, s')"
  shows "dp_inv D s' \<and> (r = Inr (u, cached, m') \<longrightarrow> may_login D s now k p m' cert u)"
proof -
  have fresh: ?thesis if t: "dp_inv D t" "dp_mem t = dp_mem s" "webdav_login D x now l t k p m cert ip = Some (r, s')" for t
  proof (cases "CheckCompositeCredentials D now t k p ip m ''DAV'' cert")
    case (Some y)
    obtain a m1 t1 where y: "y = (a, m1, t1)" by (rule prod_cases3)
    show ?thesis
    proof (cases a)
      case (Inl e)
      then show ?thesis
        using that(3) Some y composite_result [OF t(1) assms(2,3), of now k p ip cert a m1 t1] by (auto simp: webdav_login_def)
    next
      case (Inr v)
      then show ?thesis
        using that(3) Some y webdav_fresh [OF t(1) assms(2-4), of now k ip cert v m1 t1] may_login_mem [OF t(2)]
        by (auto simp: webdav_login_def)
    qed
  qed (use that in \<open>simp add: webdav_login_def\<close>)
  show ?thesis
  proof (cases "gm_get (uc_users (dp_webdav s)) k")
    case None
    then show ?thesis using assms(5) fresh [OF assms(1)] by (simp add: webdav_check_def usersCache_get_def Let_def)
  next
    case (Some c)
    show ?thesis
    proof (cases "IsExpired now c")
      case True
      then show ?thesis
        using assms(5) fresh [OF remove_cached_inv [OF assms(1), of k]] Some by (simp add: webdav_check_def usersCache_get_def Let_def)
    next
      case False
      obtain cert' m1 where w: "(cert', m1) = (if \<not> IsTLSUsernameVerificationEnabled (cu_User c) then (None, LoginMethodPassword) else (cert, m))"
        by (metis surj_pair)
      then have m1: "m1 \<in> {LoginMethodPassword, LoginMethodTLSCertificate, LoginMethodTLSCertificateAndPwd}"
        "m1 = LoginMethodTLSCertificate \<Longrightarrow> cert' = cert" using assms(3) by (auto split: if_splits)
      from assms(5) Some False w [symmetric] have "(case CheckCachedUserCredentials D now s c p m1 ''DAV'' cert' of
             None \<Rightarrow> None
           | Some (None, s) \<Rightarrow> Some (Inr (cu_User c, True, m1), s)
           | Some (Some e, s) \<Rightarrow> Some (Inl ErrInvalidCredentials, s)) = Some (r, s')"
        by (simp add: webdav_check_def usersCache_get_def Let_def)
      then obtain e where "CheckCachedUserCredentials D now s c p m1 ''DAV'' cert' = Some (e, s')"
          "r = (if e = None then Inr (cu_User c, True, m1) else Inl ErrInvalidCredentials)"
        by (auto split: option.splits)
      then show ?thesis using cached_result [OF assms(1) m1(1) Some, of now p cert' e s'] m1(2) by (auto simp: may_login_def)
    qed
  qed
qed

lemma webdav_result:
  assumes "dp_inv D s" "no_hooks D" "webdav_authenticate D x mutualTLS now l s basic peer ip = Some (r, s')"
  shows "dp_inv D s' \<and> (r = Inr (u, cached, m') \<longrightarrow>
    (\<exists>k p m cert. getCredentialsAndLoginMethod mutualTLS basic peer = Some (k, p, m, cert) \<and> may_login D s now k p m' cert u))"
proof (cases "getCredentialsAndLoginMethod mutualTLS basic peer")
  case (Some y)
  obtain k p m cert where y: "y = (k, p, m, cert)" by (rule prod_cases4)
  have m: "m \<in> {LoginMethodPassword, LoginMethodTLSCertificate, LoginMethodTLSCertificateAndPwd}" "m = LoginMethodTLSCertificate \<Longrightarrow> p = ''''"
    using Some y by (auto simp: getCredentialsAndLoginMethod_def split: option.splits if_splits prod.splits)
  have "webdav_check D x now l s k p m cert ip = Some (r, s')" using assms(3) Some y by (simp add: webdav_authenticate_def)
  from webdav_check_result [OF assms(1,2) m this, of u cached m'] show ?thesis using Some y by blast
qed (use assms in \<open>auto simp: webdav_authenticate_def\<close>)

subsection \<open>Runs of the data provider\<close>

inductive dp_step :: "dp_env \<Rightarrow> dpstate \<Rightarrow> dpstate \<Rightarrow> bool" for D where
  dp_addUser: "AddUser D s u = Some (e, v, s') \<Longrightarrow> dp_step D s s'"
| dp_updateUser: "UpdateUser D s u = Some (e, v, s') \<Longrightarrow> dp_step D s s'"
| dp_deleteUser: "dp_step D s (snd (DeleteUser D s k))"
| dp_lastLogin: "dp_step D s (snd (UpdateLastLogin D now s u))"
| dp_checkPass: "CheckUserAndPass D now s k p ip prot = Some (r, s') \<Longrightarrow> dp_step D s s'"
| dp_authenticate: "webdav_authenticate D x mutualTLS now l s basic peer ip = Some (r, s') \<Longrightarrow> dp_step D s s'"
| dp_addFolder: "dp_step D s (s\<lparr>dp_mem := snd (snd (addFolder_locked (de_kms D) (dp_mem s) f))\<rparr>)"
| dp_updateFolder: "dp_step D s (s\<lparr>dp_mem := snd (snd (updateFolder_locked (de_kms D) (dp_mem s) f))\<rparr>)"
| dp_deleteFolder: "mem_getFolderByName (de_kms D) (dp_mem s) n = Inr f \<Longrightarrow>
    dp_step D s (s\<lparr>dp_mem := snd (mem_deleteFolder (de_kms D) (dp_mem s) f)\<rparr>)"
| dp_userQuota: "dp_step D s (s\<lparr>dp_mem := snd (mem_updateQuota (de_kms D) (dp_mem s) now k n z reset)\<rparr>)"
| dp_folderQuota: "dp_step D s (s\<lparr>dp_mem := snd (mem_updateFolderQuota (dp_mem s) now k n z reset)\<rparr>)"

inductive dp_reachable :: "dp_env \<Rightarrow> dpstate \<Rightarrow> bool" for D where
  dp_init: "mem_reachable (de_venv D) h \<Longrightarrow>
    dp_reachable D \<lparr>dp_mem = h, dp_files = fs, dp_quota = q, dp_passwords = [], dp_webdav = InitializeWebDAVUserCache n\<rparr>"
| dp_run: "dp_reachable D s \<Longrightarrow> dp_step D s s' \<Longrightarrow> dp_reachable D s'"

lemma dp_step_inv:
  assumes "dp_step D s s'" "no_hooks D" "dp_inv D s"
  shows "dp_inv D s'"
proof -
  have m: "mem_inv (dp_mem s)" using assms(3) by (simp add: dp_inv_def)
  from assms(1) show ?thesis
  proof cases
    case (dp_deleteFolder n f)
    obtain g where "gm_get (mp_vfolders (dp_mem s)) n = Some g" "f = snd (Folder_GetACopy (de_kms D) g)"
      using dp_deleteFolder(2) by (auto simp: mem_getFolderByName_def folderExistsInternal_def split: if_splits option.splits)
    then have "distinct (bf_Users f)" using folders_inv_named [of "dp_mem s"] m by (simp add: mem_inv_def)
    moreover have "mem_inv (dp_mem s')"
      using mem_step_inv [OF step_deleteFolder [of "de_venv D", OF dp_deleteFolder(2)] m] dp_deleteFolder(1) by simp
    ultimately show ?thesis using dp_deleteFolder(1) m creds_deleteFolder by (auto intro!: dp_inv_same [OF assms(3)])
  next
    case dp_addFolder
    then show ?thesis using m addFolder_locked_inv creds_addFolder by (auto intro!: dp_inv_same [OF assms(3)])
  next
    case dp_updateFolder
    then show ?thesis using m updateFolder_locked_inv creds_updateFolder by (auto intro!: dp_inv_same [OF assms(3)])
  next
    case dp_userQuota
    then show ?thesis using m mem_updateQuota_inv creds_quota by (auto simp: mem_inv_def intro!: dp_inv_same [OF assms(3)])
  next
    case dp_folderQuota
    then show ?thesis using m mem_updateFolderQuota_inv creds_folderQuota by (auto intro!: dp_inv_same [OF assms(3)])
  next
    case dp_authenticate
    then show ?thesis using webdav_result [OF assms(3,2)] by blast
  next
    case dp_checkPass
    then show ?thesis using CheckUserAndPass_result [OF assms(3,2)] by blast
  qed (use assms(3) in \<open>auto intro: AddUser_inv UpdateUser_inv DeleteUser_inv UpdateLastLogin_inv\<close>)
qed

lemma dp_reachable_inv:
  assumes "dp_reachable D s" "no_hooks D"
  shows "dp_inv D s"
  using assms(1)
proof induction
  case (dp_init h fs q n)
  then show ?case using reachable_inv
    by (simp add: dp_inv_def passwords_ok_def webdav_ok_def InitializeWebDAVUserCache_def gm_get_def)
next
  case (dp_run s s')
  then show ?case using dp_step_inv assms(2) by blast
qed



text \<open>
  C31: Reloading the provider from a dump leaves the cached passwords in place, so the
  old password of a user is still accepted afterwards although the reloaded account
  has another one; the stored hash is not looked at.
\<close>

theorem ReloadConfig_stale_password:
  assumes "no_hooks D" "de_caching D" "k \<noteq> ''''" "p \<noteq> ''''" "gm_get (dp_passwords s) k = Some p"
    and "ReloadConfig D configFile sz dump s = Some (e, s')" "\<not> mp_isClosed (dp_mem s')"
    and "gm_get (mp_users (dp_mem s')) k = Some u" "u_Username u = k" "checkLoginConditions now u = None" "u_Password u \<noteq> ''''"
  shows "CheckUserAndPass D now s' k p ip prot = Some (Inr (snd (User_getACopy (de_kms D) u)), s')"
proof -
  let ?c = "snd (User_getACopy (de_kms D) u)"
  have pw: "dp_passwords s' = dp_passwords s" using assms(6) by (auto simp: ReloadConfig_def split: option.splits)
  have c: "checkLoginConditions now ?c = None" "u_Password ?c \<noteq> ''''" "u_Username ?c = k"
    using conditions_cred [OF cred_copy] cred_copy [of "de_kms D" u] assms(9-11) by (simp_all add: cred_def)
  have "provider_userExists D s' k = Inr ?c"
    using assms(7,8) by (simp add: provider_userExists_def mem_userExists_def userExistsInternal_def)
  moreover have "isPasswordOK (de_lib D) (de_caching D) ?c p (dp_passwords s') = (Inr True, dp_passwords s')"
    using assms(2-5) c(3) pw by (simp add: isPasswordOK_def passwordsCache_Check_def)
  ultimately show ?thesis
    using assms(1,4) c
    by (simp add: CheckUserAndPass_def no_hooks_def external_auth_for_def mem_validateUserAndPass_def check_pass_of_def
        checkUserAndPass_def Let_def)
qed

definition example_denv :: dp_env where
  "example_denv =
     \<lparr>de_venv = example_venv,
      de_lib = \<lparr>pl_bcrypt = (\<lambda>h p. h = ''$2a$'' @ p), pl_argon2 = (\<lambda>p h. Some (h = ''$argon2id$'' @ p)),
        hl_pbkdf2 = (\<lambda>_ p _ _ _. p), hl_crypt = (\<lambda>_ h p. h = p)\<rparr>,
      de_config = \<lparr>dc_PasswordCaching = True, dc_ExternalAuthHook = '''', dc_ExternalAuthScope = 0, dc_PreLoginHook = ''''\<rparr>,
      de_hooks = \<lparr>hk_checkPassword = (\<lambda>_ _ _ _. Some (-1, '''')), hk_externalAuth = (\<lambda>_ _ _ _ _ _ _ _. None),
        hk_preLogin = (\<lambda>_ _ _ _. None), hk_unmarshal = (\<lambda>_ u. (False, u)), hk_parseAuthorizedKey = (\<lambda>_. None),
        hk_publicKeyAsString = (\<lambda>_. None)\<rparr>\<rparr>"

definition example_login_user :: User where
  "example_login_user = zero_User\<lparr>u_Username := ''u'', u_Password := ''$2a$old'', u_Status := 1\<rparr>"

definition example_dp :: dpstate where
  "example_dp =
     \<lparr>dp_mem = snd (snd (addUser_locked (ve_kms example_venv) empty_handle example_login_user)), dp_files = [],
      dp_quota = newQuotaUpdater, dp_passwords = [], dp_webdav = InitializeWebDAVUserCache 1\<rparr>"

lemma example_no_hooks: "no_hooks example_denv"
  by (simp add: no_hooks_def example_denv_def)

lemma example_dp_reachable: "dp_reachable example_denv example_dp"
  unfolding example_dp_def
  by (rule dp_init) (simp add: example_denv_def, intro reach_step [OF _ step_addUser] reach_init)

lemma example_dp_user:
  "gm_get (mp_users (dp_mem example_dp)) ''u'' =
     Some (snd (User_getACopy (ve_kms example_venv) (example_login_user\<lparr>u_ID := 1\<rparr>)))"
  "\<not> mp_isClosed (dp_mem example_dp)" "dp_passwords example_dp = []"
  by (simp_all add: example_dp_def addUser_locked_def empty_handle_def example_login_user_def userExistsInternal_def
      joinVirtualFoldersFields_def zero_User_def Let_def gm.get_put getNextID_def next_id_def)

lemma example_account:
  fixes kc :: kms_Configuration
  defines "c \<equiv> snd (User_getACopy kc (snd (User_getACopy kc (example_login_user\<lparr>u_ID := 1\<rparr>))))"
  shows "u_Password c = ''$2a$old''" "checkLoginConditions 5 c = None" "u_Username c = ''u''"
    "hf_CheckPasswordDisabled (fl_Hooks (u_Filters c)) = False"
    "compare_hash (de_lib example_denv) c p = (if p = ''old'' then Inr True else Inl ErrInvalidCredentials)"
proof -
  have c: "cred c = cred (example_login_user\<lparr>u_ID := 1\<rparr>)" by (simp add: c_def)
  then show pw: "u_Password c = ''$2a$old''" by (simp add: cred_def example_login_user_def zero_User_def)
  show "checkLoginConditions 5 c = None"
    using conditions_cred [OF c] by (simp add: example_login_user_def checkLoginConditions_def zero_User_def)
  show "u_Username c = ''u''" by (simp add: c_def example_login_user_def)
  show "hf_CheckPasswordDisabled (fl_Hooks (u_Filters c)) = False"
    using c by (simp add: cred_def example_login_user_def zero_User_def zero_UserFilters_def)
  show "compare_hash (de_lib example_denv) c p = (if p = ''old'' then Inr True else Inl ErrInvalidCredentials)"
    by (auto simp: compare_hash_def pw strings_HasPrefix_def example_denv_def)
qed

lemma example_login:
  "\<exists>u. CheckUserAndPass example_denv 5 example_dp ''u'' ''old'' ip prot =
     Some (Inr u, example_dp\<lparr>dp_passwords := [(''u'', ''old'')]\<rparr>)"
proof -
  have cfg: "de_caching example_denv" "de_kms example_denv = ve_kms example_venv" "hk_checkPassword (de_hooks example_denv) u p i q = Some (-1, '''')"
    for u p i q by (simp_all add: example_denv_def)
  have "u_Username example_login_user = ''u''" by (simp add: example_login_user_def)
  then show ?thesis
    using example_no_hooks example_dp_user
    by (simp add: CheckUserAndPass_def no_hooks_def external_auth_for_def mem_validateUserAndPass_def check_pass_of_def
        provider_userExists_def mem_userExists_def userExistsInternal_def cfg checkUserAndPass_def example_account
        isPasswordOK_def passwordsCache_Check_def gm_get_def passwordsCache_Add_def gm_put_def)
qed



theorem ReloadConfig_stale_password_witness:
  "\<exists>s1 s2 u v. CheckUserAndPass example_denv 5 example_dp ''u'' ''old'' ''127.0.0.1'' ''SSH'' = Some (Inr u, s1) \<and>
     ReloadConfig example_denv ''/c'' (Some 9)
       (Some \<lparr>bd_Users = [example_user\<lparr>u_Status := 1\<rparr>], bd_Folders = [], bd_Admins = [], bd_Version = 9\<rparr>) s1 = Some (None, s2) \<and>
     gm_get (mp_users (dp_mem s2)) ''u'' = Some v \<and> u_Password v = ''$2a$pw'' \<and>
     (\<exists>w. CheckUserAndPass example_denv 5 s2 ''u'' ''old'' ''127.0.0.1'' ''SSH'' = Some (Inr w, s2))"
proof -
  let ?s1 = "example_dp\<lparr>dp_passwords := [(''u'', ''old'')]\<rparr>" and ?u = "example_user\<lparr>u_Status := 1\<rparr>"
  let ?dump = "Some \<lparr>bd_Users = [?u], bd_Folders = [], bd_Admins = [], bd_Version = 9\<rparr>"
  let ?h = "mem_clear (dp_mem example_dp)"
  obtain u where u: "CheckUserAndPass example_denv 5 example_dp ''u'' ''old'' ''127.0.0.1'' ''SSH'' = Some (Inr u, ?s1)"
    using example_login by blast
  obtain x fs where x: "ValidateUser example_venv (folder_lookup (ve_kms example_venv) ?h) (?u, []) = Some (None, x, fs)"
      "u_Password x = ''$2a$pw''" "u_Status x = 1" "u_ExpirationDate x = 0" "u_Username x = ''u''" "u_VirtualFolders x = []"
    by (simp add: validation_eval secret_eval)
  have cl: "\<not> mp_isClosed ?h" "mp_users ?h = []" using example_dp_user(2) by (simp_all add: mem_clear_def)
  obtain v h2 where v: "addUser_locked (ve_kms example_venv) ?h x = (None, v, h2)"
    using cl x(5,6)
    by (simp add: addUser_locked_def userExistsInternal_def gm_get_def joinVirtualFoldersFields_def Let_def)
  note ok = addUser_locked_ok [OF v]
  let ?c = "snd (User_getACopy (ve_kms example_venv) v)"
  have "cred v = cred x" by (subst ok(3)) simp
  then have c: "u_Password ?c = ''$2a$pw''" "checkLoginConditions 5 ?c = None" "u_Username ?c = ''u''"
    using cred_copy [of "ve_kms example_venv" v] x arg_cong [OF ok(3), of u_Username]
    by (simp_all add: cred_def checkLoginConditions_def)
  have g: "gm_get (mp_users h2) ''u'' = Some ?c" using ok(4) x(5) by simp
  have "mem_userExists (ve_kms example_venv) ?h ''u'' = Inl (RecordNotFoundError ''u'')"
    using cl by (simp add: mem_userExists_def userExistsInternal_def gm_get_def)
  then have "ReloadConfig example_denv ''/c'' (Some 9) ?dump ?s1 = Some (None, ?s1\<lparr>dp_mem := h2, dp_files := fs\<rparr>)"
    using x(1) v by (simp add: ReloadConfig_def mem_reloadConfig_def example_denv_def mem_addUser_def after_validation_def
        example_user_def example_dp_def [unfolded example_denv_def] zero_User_def)
  moreover from ReloadConfig_stale_password [OF example_no_hooks _ _ _ _ this, of "''u''" "''old''" ?c 5] g c ok(5)
  have "\<exists>w. CheckUserAndPass example_denv 5 (?s1\<lparr>dp_mem := h2, dp_files := fs\<rparr>) ''u'' ''old'' ''127.0.0.1'' ''SSH'' =
      Some (Inr w, ?s1\<lparr>dp_mem := h2, dp_files := fs\<rparr>)"
    by (simp add: example_denv_def gm_get_def)
  ultimately show ?thesis using u g c(1) by fastforce
qed

end
