(* ===== verification/Storage.thy ===== *)
theory Storage
  imports QuotaUpdater "HOL-Library.Word"
begin

unbundle bit_operations_syntax

text \<open>
  The storage interface of \<^verbatim>\<open>vfs/vfs.go\<close>: file modes and information, the error
  values the layers above compare with, the methods of \<^verbatim>\<open>vfs.Fs\<close> as a record of
  functions over a handle \<open>'fs\<close> and the state \<open>'w\<close> of the stored files, and the
  tests on the kind of a storage.
\<close>

subsection \<open>Errors\<close>

text \<open>The error values of \<^verbatim>\<open>common/common.go\<close>, \<^verbatim>\<open>vfs\<close>, \<^verbatim>\<open>os\<close> and \<^verbatim>\<open>pkg/sftp\<close>; any other error by its text.\<close>

datatype goerr =
    SSHFxPermissionDenied | SSHFxNoSuchFile | SSHFxOpUnsupported | SSHFxFailure
  | os_ErrPermission | os_ErrNotExist
  | ErrPermissionDenied | ErrNotExist | ErrOpUnsupported | ErrGenericFailure | ErrQuotaExceeded
  | ErrSkipPermissionsCheck | errNoTransfer | errTransferMismatch | ErrTransferClosed
  | ErrStorageSizeUnavailable | ErrVfsUnsupported
  | OtherErr string

text \<open>The text of an error, as far as the code looks at it.\<close>

definition error_text :: "goerr \<Rightarrow> string" where
  "error_text e = (case e of OtherErr t \<Rightarrow> t | _ \<Rightarrow> '''')"

definition ErrSFTPLoop :: string where
  "ErrSFTPLoop = ''SFTP loop or nested local SFTP folders detected''"

text \<open>An integer as \<^verbatim>\<open>fmt\<close> prints it with \<^verbatim>\<open>%v\<close>.\<close>

fun fmt_nat :: "nat \<Rightarrow> string" where
  "fmt_nat n = (if n < 10 then [char_of (48 + n)] else fmt_nat (n div 10) @ [char_of (48 + n mod 10)])"

declare fmt_nat.simps [simp del]

definition fmt_int :: "int \<Rightarrow> string" where
  "fmt_int n = (if n < 0 then ''-'' @ fmt_nat (nat (- n)) else fmt_nat (nat n))"

subsection \<open>File modes and information\<close>

type_synonym FileMode = "32 word"

definition ModeDir :: FileMode where "ModeDir = 0x80000000"
definition ModeSymlink :: FileMode where "ModeSymlink = 0x8000000"
definition ModeType :: FileMode where "ModeType = 0x8F280000"

record os_FileInfo =
  os_Name :: string
  os_Size :: int
  os_Mode :: FileMode
  os_ModTime :: int

definition os_IsDir :: "os_FileInfo \<Rightarrow> bool" where
  "os_IsDir fi = (os_Mode fi AND ModeDir \<noteq> 0)"

definition os_IsSymlink :: "os_FileInfo \<Rightarrow> bool" where
  "os_IsSymlink fi = (os_Mode fi AND ModeSymlink \<noteq> 0)"

definition os_IsRegular :: "os_FileInfo \<Rightarrow> bool" where
  "os_IsRegular fi = (os_Mode fi AND ModeType = 0)"

text \<open>The information \<^const>\<open>NewFileInfo\<close> makes, with its mode bits.\<close>

definition info_of :: "FileInfo \<Rightarrow> os_FileInfo" where
  "info_of fi =
     \<lparr>os_Name = fi_Name fi, os_Size = fi_Size fi,
      os_Mode = (if fi_IsDir fi then 0x1ED OR ModeDir else 0x1A4), os_ModTime = fi_ModTime fi\<rparr>"

lemma mode_and_type: "m AND ModeDir = (m AND ModeType) AND ModeDir" "m AND ModeSymlink = (m AND ModeType) AND ModeSymlink"
  for m :: FileMode
  by (simp_all add: and.assoc ModeDir_def ModeSymlink_def ModeType_def)

lemma regular_kind: "os_IsRegular fi \<Longrightarrow> \<not> os_IsDir fi \<and> \<not> os_IsSymlink fi"
  using mode_and_type [of "os_Mode fi"] by (simp add: os_IsRegular_def os_IsDir_def os_IsSymlink_def)

lemma info_of_kind: "os_IsDir (info_of fi) = fi_IsDir fi" "os_IsRegular (info_of fi) = (\<not> fi_IsDir fi)"
  "\<not> os_IsSymlink (info_of fi)"
  by (simp_all add: os_IsDir_def os_IsRegular_def os_IsSymlink_def info_of_def ModeDir_def ModeType_def ModeSymlink_def)

subsection \<open>The interface\<close>

text \<open>
  A method that changes the storage returns its error and the new state.
  \<open>fs_Walk\<close> lists the calls a walk makes, in order, and the error of the walk itself:
  a call that returns an error ends the walk with it (\<open>run_walk\<close>). \<open>file_Truncate\<close>
  truncates an open file, named by its path. Opening and creating return a local
  file, by its name, or else a pipe, and the function that cancels the transfer;
  the \<open>io_\<close> functions write, read and close such a file or pipe, the pipe by the
  path it was opened for. \<open>sio_DecryptedSize\<close> is the function of the encryption
  library that the local encrypted storage uses.
\<close>

type_synonym visit = "string \<times> os_FileInfo option \<times> goerr option"

record StatVFS =
  sv_Bsize :: "64 word"
  sv_Frsize :: "64 word"
  sv_Blocks :: "64 word"
  sv_Bfree :: "64 word"
  sv_Bavail :: "64 word"
  sv_Files :: "64 word"
  sv_Ffree :: "64 word"
  sv_Favail :: "64 word"
  sv_Namemax :: "64 word"

record 'w opened =
  op_file :: "string option"
  op_cancel :: "('w \<Rightarrow> 'w) option"

record ('fs, 'w) Fs =
  fs_Name :: "'fs \<Rightarrow> string"
  fs_Stat :: "'fs \<Rightarrow> 'w \<Rightarrow> string \<Rightarrow> goerr + os_FileInfo"
  fs_Lstat :: "'fs \<Rightarrow> 'w \<Rightarrow> string \<Rightarrow> goerr + os_FileInfo"
  fs_Rename :: "'fs \<Rightarrow> string \<Rightarrow> string \<Rightarrow> 'w \<Rightarrow> goerr option \<times> 'w"
  fs_Remove :: "'fs \<Rightarrow> string \<Rightarrow> bool \<Rightarrow> 'w \<Rightarrow> goerr option \<times> 'w"
  fs_Mkdir :: "'fs \<Rightarrow> string \<Rightarrow> 'w \<Rightarrow> goerr option \<times> 'w"
  fs_Symlink :: "'fs \<Rightarrow> string \<Rightarrow> string \<Rightarrow> 'w \<Rightarrow> goerr option \<times> 'w"
  fs_Chown :: "'fs \<Rightarrow> string \<Rightarrow> int \<Rightarrow> int \<Rightarrow> 'w \<Rightarrow> goerr option \<times> 'w"
  fs_Chmod :: "'fs \<Rightarrow> string \<Rightarrow> FileMode \<Rightarrow> 'w \<Rightarrow> goerr option \<times> 'w"
  fs_Chtimes :: "'fs \<Rightarrow> string \<Rightarrow> int \<Rightarrow> int \<Rightarrow> 'w \<Rightarrow> goerr option \<times> 'w"
  fs_Truncate :: "'fs \<Rightarrow> string \<Rightarrow> int \<Rightarrow> 'w \<Rightarrow> goerr option \<times> 'w"
  fs_ReadDir :: "'fs \<Rightarrow> 'w \<Rightarrow> string \<Rightarrow> goerr + FileInfo list"
  fs_IsUploadResumeSupported :: "'fs \<Rightarrow> bool"
  fs_IsAtomicUploadSupported :: "'fs \<Rightarrow> bool"
  fs_ResolvePath :: "'fs \<Rightarrow> 'w \<Rightarrow> string \<Rightarrow> goerr + string"
  fs_IsNotExist :: "'fs \<Rightarrow> goerr \<Rightarrow> bool"
  fs_IsPermission :: "'fs \<Rightarrow> goerr \<Rightarrow> bool"
  fs_IsNotSupported :: "'fs \<Rightarrow> goerr \<Rightarrow> bool"
  fs_GetDirSize :: "'fs \<Rightarrow> 'w \<Rightarrow> string \<Rightarrow> goerr + int \<times> int"
  fs_GetAtomicUploadPath :: "'fs \<Rightarrow> 'w \<Rightarrow> string \<Rightarrow> string"
  fs_GetRelativePath :: "'fs \<Rightarrow> string \<Rightarrow> string"
  fs_Walk :: "'fs \<Rightarrow> 'w \<Rightarrow> string \<Rightarrow> visit list \<times> goerr option"
  fs_HasVirtualFolders :: "'fs \<Rightarrow> bool"
  fs_Readlink :: "'fs \<Rightarrow> 'w \<Rightarrow> string \<Rightarrow> goerr + string"
  fs_GetAvailableDiskSize :: "'fs \<Rightarrow> 'w \<Rightarrow> string \<Rightarrow> goerr + StatVFS"
  fs_Open :: "'fs \<Rightarrow> string \<Rightarrow> int \<Rightarrow> 'w \<Rightarrow> (goerr + 'w opened) \<times> 'w"
  fs_Create :: "'fs \<Rightarrow> string \<Rightarrow> int \<Rightarrow> 'w \<Rightarrow> (goerr + 'w opened) \<times> 'w"
  file_Truncate :: "'fs \<Rightarrow> string \<Rightarrow> int \<Rightarrow> 'w \<Rightarrow> goerr option \<times> 'w"
  io_WriteAt :: "'fs \<Rightarrow> string \<Rightarrow> string \<Rightarrow> int \<Rightarrow> 'w \<Rightarrow> (int \<times> goerr option) \<times> 'w"
  io_ReadAt :: "'fs \<Rightarrow> string \<Rightarrow> int \<Rightarrow> int \<Rightarrow> 'w \<Rightarrow> (string \<times> goerr option) \<times> 'w"
  io_Close :: "'fs \<Rightarrow> string \<Rightarrow> 'w \<Rightarrow> goerr option \<times> 'w"
  sio_DecryptedSize :: "int \<Rightarrow> int option"

fun run_walk :: "(visit \<Rightarrow> goerr option) \<Rightarrow> visit list \<times> goerr option \<Rightarrow> goerr option" where
  "run_walk f ([], e) = e"
| "run_walk f (v # vs, e) = (case f v of Some e' \<Rightarrow> Some e' | None \<Rightarrow> run_walk f (vs, e))"

subsection \<open>Kinds of storage\<close>

definition IsDirectory :: "('fs, 'w) Fs \<Rightarrow> 'w \<Rightarrow> 'fs \<Rightarrow> string \<Rightarrow> goerr + bool" where
  "IsDirectory F w fs path = (case fs_Stat F fs w path of Inl e \<Rightarrow> Inl e | Inr fi \<Rightarrow> Inr (os_IsDir fi))"

definition IsLocalOsFs :: "('fs, 'w) Fs \<Rightarrow> 'fs \<Rightarrow> bool" where
  "IsLocalOsFs F fs = (fs_Name F fs = ''osfs'')"

definition IsCryptOsFs :: "('fs, 'w) Fs \<Rightarrow> 'fs \<Rightarrow> bool" where
  "IsCryptOsFs F fs = (fs_Name F fs = ''cryptfs'')"

definition IsSFTPFs :: "('fs, 'w) Fs \<Rightarrow> 'fs \<Rightarrow> bool" where
  "IsSFTPFs F fs = strings_HasPrefix (fs_Name F fs) ''sftpfs''"

definition IsBufferedSFTPFs :: "('fs, 'w) Fs \<Rightarrow> 'fs \<Rightarrow> bool" where
  "IsBufferedSFTPFs F fs = (if \<not> IsSFTPFs F fs then False else \<not> fs_IsUploadResumeSupported F fs)"

definition IsLocalOrUnbufferedSFTPFs :: "('fs, 'w) Fs \<Rightarrow> 'fs \<Rightarrow> bool" where
  "IsLocalOrUnbufferedSFTPFs F fs =
     (if IsLocalOsFs F fs then True else if IsSFTPFs F fs then fs_IsUploadResumeSupported F fs else False)"

definition IsLocalOrSFTPFs :: "('fs, 'w) Fs \<Rightarrow> 'fs \<Rightarrow> bool" where
  "IsLocalOrSFTPFs F fs = (IsLocalOsFs F fs \<or> IsSFTPFs F fs)"

definition HasOpenRWSupport :: "('fs, 'w) Fs \<Rightarrow> 'fs \<Rightarrow> bool" where
  "HasOpenRWSupport F fs =
     (if IsLocalOsFs F fs then True else if IsSFTPFs F fs \<and> fs_IsUploadResumeSupported F fs then True else False)"

definition IsLocalOrCryptoFs :: "('fs, 'w) Fs \<Rightarrow> 'fs \<Rightarrow> bool" where
  "IsLocalOrCryptoFs F fs = (IsLocalOsFs F fs \<or> IsCryptOsFs F fs)"

text \<open>\<open>windows\<close> is the test on the operating system; the error of the change of owner is only logged.\<close>

definition SetPathPermissions :: "('fs, 'w) Fs \<Rightarrow> bool \<Rightarrow> 'fs \<Rightarrow> string \<Rightarrow> int \<Rightarrow> int \<Rightarrow> 'w \<Rightarrow> 'w" where
  "SetPathPermissions F windows fs path uid gid w =
     (if uid = -1 \<and> gid = -1 then w
      else if IsLocalOsFs F fs \<and> windows then w
      else snd (fs_Chown F fs path uid gid w))"

definition headerV10Size :: int where "headerV10Size = 33"

definition ConvertFileInfo :: "(int \<Rightarrow> int option) \<Rightarrow> os_FileInfo \<Rightarrow> os_FileInfo" where
  "ConvertFileInfo decryptedSize info =
     (if \<not> os_IsRegular info then info
      else
        let sz = (if os_Size info \<ge> headerV10Size then
                    (case decryptedSize (os_Size info - headerV10Size) of
                       Some d \<Rightarrow> i64 d
                     | None \<Rightarrow> os_Size info - headerV10Size)
                  else 0)
        in info_of (NewFileInfo (os_Name info) (os_IsDir info) sz (os_ModTime info) False))"

end
