(* ===== verification/Connection.thy ===== *)
theory Connection
  imports Storage
begin

text \<open>
  \<^verbatim>\<open>common/connection.go\<close>, \<^verbatim>\<open>common/actions.go\<close> and the part of
  \<^verbatim>\<open>common/transfer.go\<close> the connections use: a connection of a user, its active
  transfers, and every operation on files and directories with its permission
  checks, its use of the storage and its quota updates. The transfers live in the
  list of their connection. The user's cache of open storages is the field
  \<open>bc_fsCache\<close> and logging is left out.
\<close>

subsection \<open>Transfers, connections and their surroundings\<close>

abbreviation (input) TransferUpload :: int where "TransferUpload \<equiv> 0"
abbreviation (input) TransferDownload :: int where "TransferDownload \<equiv> 1"

abbreviation (input) UploadModeAtomic :: int where "UploadModeAtomic \<equiv> 1"
abbreviation (input) UploadModeAtomicWithResume :: int where "UploadModeAtomicWithResume \<equiv> 2"

abbreviation (input) ProtocolSFTP :: string where "ProtocolSFTP \<equiv> ''SFTP''"
abbreviation (input) ProtocolSCP :: string where "ProtocolSCP \<equiv> ''SCP''"
abbreviation (input) ProtocolSSH :: string where "ProtocolSSH \<equiv> ''SSH''"
abbreviation (input) ProtocolFTP :: string where "ProtocolFTP \<equiv> ''FTP''"
abbreviation (input) ProtocolWebDAV :: string where "ProtocolWebDAV \<equiv> ''DAV''"
abbreviation (input) ProtocolHTTP :: string where "ProtocolHTTP \<equiv> ''HTTP''"

definition supportedProtocols :: "string list" where
  "supportedProtocols = [ProtocolSFTP, ProtocolSCP, ProtocolSSH, ProtocolFTP, ProtocolWebDAV, ProtocolHTTP]"

text \<open>
  An open local file is represented by its name; \<open>bt_cancelFn\<close> is what the cancel
  function does to the storage.
\<close>

record ('fs, 'w) BaseTransfer =
  bt_ID :: "64 word"
  bt_BytesSent :: int
  bt_BytesReceived :: int
  bt_Fs :: 'fs
  bt_File :: "string option"
  bt_cancelFn :: "('w \<Rightarrow> 'w) option"
  bt_fsPath :: string
  bt_requestPath :: string
  bt_start :: int
  bt_MaxWriteSize :: int
  bt_MinWriteOffset :: int
  bt_InitialSize :: int
  bt_isNewFile :: bool
  bt_transferType :: int
  bt_AbortTransfer :: int
  bt_ErrTransfer :: "goerr option"

record ('fs, 'w) BaseConnection =
  bc_lastActivity :: int
  bc_ID :: string
  bc_User :: User
  bc_startTime :: int
  bc_protocol :: string
  bc_transferID :: "64 word"
  bc_activeTransfers :: "('fs, 'w) BaseTransfer list"
  bc_fsCache :: "(string, 'fs) gomap"

record ActionNotification =
  an_Action :: string
  an_Username :: string
  an_Path :: string
  an_TargetPath :: string
  an_SSHCmd :: string
  an_FileSize :: int
  an_FsProvider :: int
  an_Bucket :: string
  an_Endpoint :: string
  an_Status :: int
  an_Protocol :: string

text \<open>
  What a connection works with: the storage methods, the constructors of the
  storages and the error of a failed one, the configuration, the time in
  milliseconds, and the call of the external hook, which may change the storage.
\<close>

record ('fs, 'w) cenv =
  ce_F :: "('fs, 'w) Fs"
  ce_backends :: "'fs backends"
  ce_openError :: "string \<Rightarrow> goerr"
  ce_quota :: quota_config
  ce_kms :: kms_Configuration
  ce_now :: int
  ce_windows :: bool
  ce_SetstatMode :: int
  ce_UploadMode :: int
  ce_ExecuteOn :: "string list"
  ce_Hook :: string
  ce_runHook :: "ActionNotification \<Rightarrow> 'w \<Rightarrow> goerr option \<times> 'w"

text \<open>
  The state: the connection, the stored files, the quota bookkeeping and the
  notifications started in the background.
\<close>

record ('fs, 'w) cstate =
  cs_conn :: "('fs, 'w) BaseConnection"
  cs_world :: 'w
  cs_quota :: quota_state
  cs_actions :: "ActionNotification list"

abbreviation cs_user :: "('fs, 'w) cstate \<Rightarrow> User" where "cs_user s \<equiv> bc_User (cs_conn s)"
abbreviation cs_protocol :: "('fs, 'w) cstate \<Rightarrow> string" where "cs_protocol s \<equiv> bc_protocol (cs_conn s)"

subsection \<open>Actions\<close>

definition action_bucket :: "Filesystem \<Rightarrow> string \<times> string" where
  "action_bucket fc =
     (if fc_Provider fc = S3FilesystemProvider then (s3_Bucket (fc_S3Config fc), s3_Endpoint (fc_S3Config fc))
      else if fc_Provider fc = GCSFilesystemProvider then (gcs_Bucket (fc_GCSConfig fc), '''')
      else if fc_Provider fc = AzureBlobFilesystemProvider then
        (az_Container (fc_AzBlobConfig fc),
         if az_SASURL (fc_AzBlobConfig fc) \<noteq> '''' then az_SASURL (fc_AzBlobConfig fc) else az_Endpoint (fc_AzBlobConfig fc))
      else ('''', ''''))"

definition newActionNotification ::
    "User \<Rightarrow> string \<Rightarrow> string \<Rightarrow> string \<Rightarrow> string \<Rightarrow> string \<Rightarrow> int \<Rightarrow> goerr option \<Rightarrow> ActionNotification" where
  "newActionNotification user operation filePath target sshCmd protocol fileSize err =
     \<lparr>an_Action = operation, an_Username = u_Username user, an_Path = filePath, an_TargetPath = target,
      an_SSHCmd = sshCmd, an_FileSize = fileSize, an_FsProvider = fc_Provider (u_FsConfig user),
      an_Bucket = fst (action_bucket (u_FsConfig user)), an_Endpoint = snd (action_bucket (u_FsConfig user)),
      an_Status = (if err = Some ErrQuotaExceeded then 2 else if err \<noteq> None then 0 else 1), an_Protocol = protocol\<rparr>"

definition action_Handle :: "('fs, 'w) cenv \<Rightarrow> ActionNotification \<Rightarrow> 'w \<Rightarrow> goerr option \<times> 'w" where
  "action_Handle E n w =
     (if \<not> IsStringInSlice (an_Action n) (ce_ExecuteOn E) then
        (Some (OtherErr ''no hook is configured for this action''), w)
      else if ce_Hook E = '''' then (Some (OtherErr ''unable to execute action, no hook defined''), w)
      else if \<not> strings_HasPrefix (ce_Hook E) ''http'' \<and> \<not> path_IsAbs (ce_Hook E) then
        (Some (OtherErr ''invalid notification command''), w)
      else ce_runHook E n w)"

definition notify :: "ActionNotification \<Rightarrow> ('fs, 'w) cstate \<Rightarrow> ('fs, 'w) cstate" where
  "notify n s = s\<lparr>cs_actions := cs_actions s @ [n]\<rparr>"

subsection \<open>Transfers of a connection\<close>

definition GetRealFsPath :: "string \<Rightarrow> ('fs, 'w) BaseTransfer \<Rightarrow> string" where
  "GetRealFsPath fsPath t =
     (if fsPath = bt_fsPath t then (case bt_File t of Some name \<Rightarrow> name | None \<Rightarrow> bt_fsPath t) else '''')"

definition transfer_GetSize :: "('fs, 'w) BaseTransfer \<Rightarrow> int" where
  "transfer_GetSize t = (if bt_transferType t = TransferDownload then bt_BytesSent t else bt_BytesReceived t)"

definition SignalClose :: "('fs, 'w) BaseTransfer \<Rightarrow> ('fs, 'w) BaseTransfer" where
  "SignalClose t = t\<lparr>bt_AbortTransfer := 1\<rparr>"

definition transfer_Truncate ::
    "('fs, 'w) Fs \<Rightarrow> string \<Rightarrow> int \<Rightarrow> ('fs, 'w) BaseTransfer \<Rightarrow> 'w \<Rightarrow> (int \<times> goerr option) \<times> ('fs, 'w) BaseTransfer \<times> 'w" where
  "transfer_Truncate F fsPath sz t w =
     (if fsPath = bt_fsPath t then
        (case bt_File t of
           Some name \<Rightarrow>
             (case file_Truncate F (bt_Fs t) name sz w of
                (Some e, w) \<Rightarrow> ((bt_InitialSize t, Some e), t, w)
              | (None, w) \<Rightarrow>
                  ((bt_InitialSize t, None),
                   (if bt_MaxWriteSize t > 0
                    then t\<lparr>bt_InitialSize := sz,
                           bt_MaxWriteSize := add64 (bt_MaxWriteSize t) (sub64 (bt_InitialSize t) sz),
                           bt_BytesReceived := 0\<rparr>
                    else t\<lparr>bt_InitialSize := sz\<rparr>), w))
         | None \<Rightarrow>
             if sz = 0 \<and> bt_BytesSent t = 0 \<and> \<not> IsBufferedSFTPFs F (bt_Fs t) then ((0, None), t, w)
             else ((0, Some ErrVfsUnsupported), t, w))
      else ((0, Some errTransferMismatch), t, w))"

subsection \<open>Connections\<close>

text \<open>The times are in nanoseconds here.\<close>

definition connection_id :: "string \<Rightarrow> string \<Rightarrow> string" where
  "connection_id protocol cid = (if IsStringInSlice protocol supportedProtocols then protocol @ ''_'' @ cid else cid)"

definition NewBaseConnection :: "int \<Rightarrow> string \<Rightarrow> string \<Rightarrow> User \<Rightarrow> ('fs, 'w) BaseConnection" where
  "NewBaseConnection now cid protocol user =
     \<lparr>bc_lastActivity = now, bc_ID = connection_id protocol cid, bc_User = user, bc_startTime = now,
      bc_protocol = protocol, bc_transferID = 0, bc_activeTransfers = [], bc_fsCache = []\<rparr>"

definition GetTransferID :: "('fs, 'w) BaseConnection \<Rightarrow> 64 word \<times> ('fs, 'w) BaseConnection" where
  "GetTransferID c = (bc_transferID c + 1, c\<lparr>bc_transferID := bc_transferID c + 1\<rparr>)"

definition SetProtocol :: "string \<Rightarrow> ('fs, 'w) BaseConnection \<Rightarrow> ('fs, 'w) BaseConnection" where
  "SetProtocol protocol c = c\<lparr>bc_protocol := protocol, bc_ID := connection_id protocol (bc_ID c)\<rparr>"

definition UpdateLastActivity :: "int \<Rightarrow> ('fs, 'w) BaseConnection \<Rightarrow> ('fs, 'w) BaseConnection" where
  "UpdateLastActivity now c = c\<lparr>bc_lastActivity := now\<rparr>"

definition AddTransfer :: "('fs, 'w) BaseTransfer \<Rightarrow> ('fs, 'w) BaseConnection \<Rightarrow> ('fs, 'w) BaseConnection" where
  "AddTransfer t c = c\<lparr>bc_activeTransfers := bc_activeTransfers c @ [t]\<rparr>"



definition RemoveTransfer :: "64 word \<Rightarrow> ('fs, 'w) BaseConnection \<Rightarrow> ('fs, 'w) BaseConnection" where
  "RemoveTransfer tid c = c\<lparr>bc_activeTransfers := swap_remove (\<lambda>t. bt_ID t = tid) (bc_activeTransfers c)\<rparr>"

record ConnectionTransfer =
  ct_ID :: "64 word"
  ct_OperationType :: string
  ct_StartTime :: int
  ct_Size :: int
  ct_VirtualPath :: string

definition GetTransfers :: "('fs, 'w) BaseConnection \<Rightarrow> ConnectionTransfer list" where
  "GetTransfers c =
     map (\<lambda>t. \<lparr>ct_ID = bt_ID t,
               ct_OperationType = (if bt_transferType t = TransferDownload then ''download''
                                   else if bt_transferType t = TransferUpload then ''upload'' else ''''),
               ct_StartTime = GetTimeAsMsSinceEpoch (bt_start t), ct_Size = transfer_GetSize t,
               ct_VirtualPath = bt_requestPath t\<rparr>) (bc_activeTransfers c)"

definition SignalTransfersAbort :: "('fs, 'w) BaseConnection \<Rightarrow> goerr option \<times> ('fs, 'w) BaseConnection" where
  "SignalTransfersAbort c =
     (if length (bc_activeTransfers c) = 0 then (Some (OtherErr ''no active transfer found''), c)
      else (None, c\<lparr>bc_activeTransfers := map SignalClose (bc_activeTransfers c)\<rparr>))"

fun real_path :: "string \<Rightarrow> ('fs, 'w) BaseTransfer list \<Rightarrow> string" where
  "real_path fsPath [] = fsPath"
| "real_path fsPath (t # ts) =
     (if length (GetRealFsPath fsPath t) > 0 then GetRealFsPath fsPath t else real_path fsPath ts)"

definition getRealFsPath :: "string \<Rightarrow> ('fs, 'w) BaseConnection \<Rightarrow> string" where
  "getRealFsPath fsPath c = real_path fsPath (bc_activeTransfers c)"

fun truncate_open ::
    "('fs, 'w) Fs \<Rightarrow> string \<Rightarrow> int \<Rightarrow> ('fs, 'w) BaseTransfer list \<Rightarrow> 'w
       \<Rightarrow> (int \<times> goerr option) \<times> ('fs, 'w) BaseTransfer list \<times> 'w" where
  "truncate_open F fsPath sz [] w = ((0, Some errNoTransfer), [], w)"
| "truncate_open F fsPath sz (t # ts) w =
     (case transfer_Truncate F fsPath sz t w of
        (r, t', w') \<Rightarrow>
          if snd r \<noteq> Some errTransferMismatch then (r, t' # ts, w')
          else (case truncate_open F fsPath sz ts w' of (r, ts', w'') \<Rightarrow> (r, t' # ts', w'')))"

definition truncateOpenHandle ::
    "('fs, 'w) cenv \<Rightarrow> string \<Rightarrow> int \<Rightarrow> ('fs, 'w) cstate \<Rightarrow> (int \<times> goerr option) \<times> ('fs, 'w) cstate" where
  "truncateOpenHandle E fsPath sz s =
     (case truncate_open (ce_F E) fsPath sz (bc_activeTransfers (cs_conn s)) (cs_world s) of
        (r, ts, w) \<Rightarrow> (r, s\<lparr>cs_conn := (cs_conn s)\<lparr>bc_activeTransfers := ts\<rparr>, cs_world := w\<rparr>))"

subsection \<open>Errors of the protocols\<close>

definition GetPermissionDeniedError :: "string \<Rightarrow> goerr" where
  "GetPermissionDeniedError protocol =
     (if protocol = ProtocolSFTP then SSHFxPermissionDenied
      else if protocol \<in> set [ProtocolWebDAV, ProtocolFTP, ProtocolHTTP] then os_ErrPermission
      else ErrPermissionDenied)"

definition GetNotExistError :: "string \<Rightarrow> goerr" where
  "GetNotExistError protocol =
     (if protocol = ProtocolSFTP then SSHFxNoSuchFile
      else if protocol \<in> set [ProtocolWebDAV, ProtocolFTP, ProtocolHTTP] then os_ErrNotExist
      else ErrNotExist)"

definition GetOpUnsupportedError :: "string \<Rightarrow> goerr" where
  "GetOpUnsupportedError protocol = (if protocol = ProtocolSFTP then SSHFxOpUnsupported else ErrOpUnsupported)"

definition GetGenericError :: "string \<Rightarrow> goerr option \<Rightarrow> goerr" where
  "GetGenericError protocol err =
     (if protocol = ProtocolSFTP then
        (if err = Some ErrStorageSizeUnavailable then SSHFxOpUnsupported else SSHFxFailure)
      else
        (case err of
           Some e \<Rightarrow> if e \<in> set [ErrPermissionDenied, ErrNotExist, ErrOpUnsupported, ErrQuotaExceeded, ErrStorageSizeUnavailable]
                     then e else ErrGenericFailure
         | None \<Rightarrow> ErrGenericFailure))"

definition GetFsError :: "('fs, 'w) Fs \<Rightarrow> string \<Rightarrow> 'fs \<Rightarrow> goerr \<Rightarrow> goerr" where
  "GetFsError F protocol fs e =
     (if fs_IsNotExist F fs e then GetNotExistError protocol
      else if fs_IsPermission F fs e then GetPermissionDeniedError protocol
      else if fs_IsNotSupported F fs e then GetOpUnsupportedError protocol
      else GetGenericError protocol (Some e))"

abbreviation denied :: "('fs, 'w) cstate \<Rightarrow> goerr" where
  "denied s \<equiv> GetPermissionDeniedError (cs_protocol s)"

abbreviation unsupported :: "('fs, 'w) cstate \<Rightarrow> goerr" where
  "unsupported s \<equiv> GetOpUnsupportedError (cs_protocol s)"

abbreviation fs_error :: "('fs, 'w) cenv \<Rightarrow> ('fs, 'w) cstate \<Rightarrow> 'fs \<Rightarrow> goerr \<Rightarrow> goerr" where
  "fs_error E s fs e \<equiv> GetFsError (ce_F E) (cs_protocol s) fs e"

subsection \<open>The storage of a path\<close>

definition provider_lookup :: "('fs, 'w) cenv \<Rightarrow> ('fs, 'w) cstate \<Rightarrow> string \<Rightarrow> bool + User" where
  "provider_lookup E s username =
     (case mem_userExists (ce_kms E) (snd (cs_quota s)) username of
        Inl (RecordNotFoundError _) \<Rightarrow> Inl True
      | Inl _ \<Rightarrow> Inl False
      | Inr u \<Rightarrow> Inr u)"

definition GetFsAndResolvedPath ::
    "('fs, 'w) cenv \<Rightarrow> string \<Rightarrow> ('fs, 'w) cstate \<Rightarrow> (goerr + 'fs \<times> string) \<times> ('fs, 'w) cstate" where
  "GetFsAndResolvedPath E virtualPath s =
     (case GetFilesystemForPath (provider_lookup E s) (ce_backends E) (cs_user s) (bc_fsCache (cs_conn s)) virtualPath of
        (r, cache) \<Rightarrow>
          (let s = s\<lparr>cs_conn := (cs_conn s)\<lparr>bc_fsCache := cache\<rparr>\<rparr>
           in case r of
                None \<Rightarrow>
                  if cs_protocol s = ProtocolWebDAV \<and> strings_Contains (error_text (ce_openError E virtualPath)) ErrSFTPLoop
                  then (Inl (denied s), s)
                  else (Inl (ce_openError E virtualPath), s)
              | Some fs \<Rightarrow>
                  (case fs_ResolvePath (ce_F E) fs (cs_world s) virtualPath of
                     Inl e \<Rightarrow> (Inl (fs_error E s fs e), s)
                   | Inr fsPath \<Rightarrow> (Inr (fs, fsPath), s))))"

subsection \<open>Quota updates\<close>

text \<open>The errors of the quota functions are ignored by every operation.\<close>

definition charge_user :: "('fs, 'w) cenv \<Rightarrow> int \<Rightarrow> int \<Rightarrow> ('fs, 'w) cstate \<Rightarrow> ('fs, 'w) cstate" where
  "charge_user E files sz s =
     s\<lparr>cs_quota := snd (UpdateUserQuota (ce_quota E) (ce_kms E) (ce_now E) (cs_quota s) (cs_user s) files sz False)\<rparr>"

definition charge_folder :: "('fs, 'w) cenv \<Rightarrow> VirtualFolder \<Rightarrow> int \<Rightarrow> int \<Rightarrow> ('fs, 'w) cstate \<Rightarrow> ('fs, 'w) cstate" where
  "charge_folder E vfolder files sz s =
     s\<lparr>cs_quota := snd (UpdateVirtualFolderQuota (ce_quota E) (ce_now E) (cs_quota s) (vf_Base vfolder) files sz False)\<rparr>"

text \<open>The update of a folder, and of its user where the folder is included in the user's quota.\<close>

definition charge_vfolder :: "('fs, 'w) cenv \<Rightarrow> VirtualFolder \<Rightarrow> int \<Rightarrow> int \<Rightarrow> ('fs, 'w) cstate \<Rightarrow> ('fs, 'w) cstate" where
  "charge_vfolder E vfolder files sz s =
     (let s = charge_folder E vfolder files sz s
      in if IsIncludedInUserQuota vfolder then charge_user E files sz s else s)"

definition charge_path :: "('fs, 'w) cenv \<Rightarrow> string \<Rightarrow> int \<Rightarrow> int \<Rightarrow> ('fs, 'w) cstate \<Rightarrow> ('fs, 'w) cstate" where
  "charge_path E virtualPath files sz s =
     (case GetVirtualFolderForPath (cs_user s) (path_Dir virtualPath) of
        Some vfolder \<Rightarrow> charge_vfolder E vfolder files sz s
      | None \<Rightarrow> charge_user E files sz s)"

subsection \<open>Listing and creating directories\<close>

definition ListDir ::
    "('fs, 'w) cenv \<Rightarrow> string \<Rightarrow> ('fs, 'w) cstate \<Rightarrow> (goerr + FileInfo list) \<times> ('fs, 'w) cstate" where
  "ListDir E virtualPath s =
     (if \<not> HasPerm (cs_user s) PermListItems virtualPath then (Inl (denied s), s)
      else
        (case GetFsAndResolvedPath E virtualPath s of
           (Inl e, s) \<Rightarrow> (Inl e, s)
         | (Inr (fs, fsPath), s) \<Rightarrow>
             (case fs_ReadDir (ce_F E) fs (cs_world s) fsPath of
                Inl e \<Rightarrow> (Inl (fs_error E s fs e), s)
              | Inr files \<Rightarrow> (Inr (AddVirtualDirs (ce_now E) (cs_user s) files virtualPath), s))))"

definition CreateDir :: "('fs, 'w) cenv \<Rightarrow> string \<Rightarrow> ('fs, 'w) cstate \<Rightarrow> goerr option \<times> ('fs, 'w) cstate" where
  "CreateDir E virtualPath s =
     (if \<not> HasPerm (cs_user s) PermCreateDirs (path_Dir virtualPath) then (Some (denied s), s)
      else if IsVirtualFolder (cs_user s) virtualPath then (Some (denied s), s)
      else
        (case GetFsAndResolvedPath E virtualPath s of
           (Inl e, s) \<Rightarrow> (Some e, s)
         | (Inr (fs, fsPath), s) \<Rightarrow>
             (case fs_Mkdir (ce_F E) fs fsPath (cs_world s) of
                (Some e, w) \<Rightarrow> (Some (fs_error E s fs e), s\<lparr>cs_world := w\<rparr>)
              | (None, w) \<Rightarrow>
                  (None, s\<lparr>cs_world := SetPathPermissions (ce_F E) (ce_windows E) fs fsPath
                                         (User_GetUID (cs_user s)) (User_GetGID (cs_user s)) w\<rparr>))))"

subsection \<open>Removing\<close>

definition IsRemoveFileAllowed :: "string \<Rightarrow> ('fs, 'w) cstate \<Rightarrow> goerr option" where
  "IsRemoveFileAllowed virtualPath s =
     (if \<not> HasPerm (cs_user s) PermDelete (path_Dir virtualPath) then Some (denied s)
      else if \<not> IsFileAllowed (cs_user s) virtualPath then Some (denied s)
      else None)"

text \<open>The quota change of a removed file; links are not counted.\<close>

definition removed_quota ::
    "('fs, 'w) cenv \<Rightarrow> string \<Rightarrow> os_FileInfo \<Rightarrow> ('fs, 'w) cstate \<Rightarrow> ('fs, 'w) cstate" where
  "removed_quota E virtualPath info s =
     (if \<not> os_IsSymlink info then charge_path E virtualPath (-1) (neg64 (os_Size info)) s else s)"

definition file_action ::
    "('fs, 'w) cstate \<Rightarrow> string \<Rightarrow> string \<Rightarrow> string \<Rightarrow> int \<Rightarrow> goerr option \<Rightarrow> ActionNotification" where
  "file_action s operation fsPath target sz err =
     newActionNotification (cs_user s) operation fsPath target '''' (cs_protocol s) sz err"

definition RemoveFile ::
    "('fs, 'w) cenv \<Rightarrow> 'fs \<Rightarrow> string \<Rightarrow> string \<Rightarrow> os_FileInfo \<Rightarrow> ('fs, 'w) cstate \<Rightarrow> goerr option \<times> ('fs, 'w) cstate" where
  "RemoveFile E fs fsPath virtualPath info s =
     (case IsRemoveFileAllowed virtualPath s of
        Some e \<Rightarrow> (Some e, s)
      | None \<Rightarrow>
          (case action_Handle E (file_action s ''pre-delete'' fsPath '''' (os_Size info) None) (cs_world s) of
             (None, w) \<Rightarrow> (None, removed_quota E virtualPath info (s\<lparr>cs_world := w\<rparr>))
           | (Some _, w) \<Rightarrow>
               (case fs_Remove (ce_F E) fs fsPath False w of
                  (Some e, w) \<Rightarrow> (Some (fs_error E s fs e), s\<lparr>cs_world := w\<rparr>)
                | (None, w) \<Rightarrow>
                    (None, notify (file_action s ''delete'' fsPath '''' (os_Size info) None)
                             (removed_quota E virtualPath info (s\<lparr>cs_world := w\<rparr>))))))"

definition IsRemoveDirAllowed ::
    "('fs, 'w) cenv \<Rightarrow> 'fs \<Rightarrow> string \<Rightarrow> string \<Rightarrow> ('fs, 'w) cstate \<Rightarrow> goerr option" where
  "IsRemoveDirAllowed E fs fsPath virtualPath s =
     (if fs_GetRelativePath (ce_F E) fs fsPath = ''/'' then Some (denied s)
      else if IsVirtualFolder (cs_user s) virtualPath then Some (denied s)
      else if HasVirtualFoldersInside (cs_user s) virtualPath then Some (unsupported s)
      else if IsMappedPath (cs_user s) fsPath then Some (denied s)
      else if \<not> HasPerm (cs_user s) PermDelete (path_Dir virtualPath) then Some (denied s)
      else None)"

definition RemoveDir :: "('fs, 'w) cenv \<Rightarrow> string \<Rightarrow> ('fs, 'w) cstate \<Rightarrow> goerr option \<times> ('fs, 'w) cstate" where
  "RemoveDir E virtualPath s =
     (case GetFsAndResolvedPath E virtualPath s of
        (Inl e, s) \<Rightarrow> (Some e, s)
      | (Inr (fs, fsPath), s) \<Rightarrow>
          (case IsRemoveDirAllowed E fs fsPath virtualPath s of
             Some e \<Rightarrow> (Some e, s)
           | None \<Rightarrow>
               (case fs_Lstat (ce_F E) fs (cs_world s) fsPath of
                  Inl e \<Rightarrow>
                    if fs_IsNotExist (ce_F E) fs e \<and> fs_HasVirtualFolders (ce_F E) fs then (None, s)
                    else (Some (fs_error E s fs e), s)
                | Inr fi \<Rightarrow>
                    if \<not> os_IsDir fi \<or> os_IsSymlink fi then (Some (GetGenericError (cs_protocol s) None), s)
                    else
                      (case fs_Remove (ce_F E) fs fsPath True (cs_world s) of
                         (Some e, w) \<Rightarrow> (Some (fs_error E s fs e), s\<lparr>cs_world := w\<rparr>)
                       | (None, w) \<Rightarrow> (None, s\<lparr>cs_world := w\<rparr>)))))"

subsection \<open>Links and attributes\<close>

definition isCrossFoldersRequest :: "User \<Rightarrow> string \<Rightarrow> string \<Rightarrow> bool" where
  "isCrossFoldersRequest u virtualSourcePath virtualTargetPath =
     (case (GetVirtualFolderForPath u virtualSourcePath, GetVirtualFolderForPath u virtualTargetPath) of
        (None, None) \<Rightarrow> False
      | (Some sourceFolder, Some dstFolder) \<Rightarrow> vf_Name sourceFolder \<noteq> vf_Name dstFolder
      | _ \<Rightarrow> True)"

definition CreateSymlink ::
    "('fs, 'w) cenv \<Rightarrow> string \<Rightarrow> string \<Rightarrow> ('fs, 'w) cstate \<Rightarrow> goerr option \<times> ('fs, 'w) cstate" where
  "CreateSymlink E virtualSourcePath virtualTargetPath s =
     (if isCrossFoldersRequest (cs_user s) virtualSourcePath virtualTargetPath then (Some (unsupported s), s)
      else
        (case GetFsAndResolvedPath E virtualSourcePath s of
           (Inl e, s) \<Rightarrow> (Some e, s)
         | (Inr (fs, fsSourcePath), s) \<Rightarrow>
             (case fs_ResolvePath (ce_F E) fs (cs_world s) virtualTargetPath of
                Inl e \<Rightarrow> (Some (fs_error E s fs e), s)
              | Inr fsTargetPath \<Rightarrow>
                  if fs_GetRelativePath (ce_F E) fs fsSourcePath = ''/'' then (Some (denied s), s)
                  else if fs_GetRelativePath (ce_F E) fs fsTargetPath = ''/'' then (Some (denied s), s)
                  else if \<not> HasPerm (cs_user s) PermCreateSymlinks (path_Dir virtualTargetPath) then (Some (denied s), s)
                  else
                    (case fs_Symlink (ce_F E) fs fsSourcePath fsTargetPath (cs_world s) of
                       (Some e, w) \<Rightarrow> (Some (fs_error E s fs e), s\<lparr>cs_world := w\<rparr>)
                     | (None, w) \<Rightarrow> (None, s\<lparr>cs_world := w\<rparr>)))))"

record StatAttributes =
  sa_Mode :: FileMode
  sa_Atime :: int
  sa_Mtime :: int
  sa_UID :: int
  sa_GID :: int
  sa_Flags :: int
  sa_Size :: int

definition has_flag :: "StatAttributes \<Rightarrow> int \<Rightarrow> bool" where
  "has_flag attributes flag = (sa_Flags attributes AND flag \<noteq> 0)"

abbreviation (input) StatAttrUIDGID :: int where "StatAttrUIDGID \<equiv> 1"
abbreviation (input) StatAttrPerms :: int where "StatAttrPerms \<equiv> 2"
abbreviation (input) StatAttrTimes :: int where "StatAttrTimes \<equiv> 4"
abbreviation (input) StatAttrSize :: int where "StatAttrSize \<equiv> 8"

definition getPathForSetStatPerms :: "('fs, 'w) cenv \<Rightarrow> 'fs \<Rightarrow> string \<Rightarrow> string \<Rightarrow> ('fs, 'w) cstate \<Rightarrow> string" where
  "getPathForSetStatPerms E fs fsPath virtualPath s =
     (case fs_Lstat (ce_F E) fs (cs_world s) fsPath of
        Inr fi \<Rightarrow> if os_IsDir fi then path_Dir virtualPath else virtualPath
      | Inl _ \<Rightarrow> virtualPath)"

definition DoStat ::
    "('fs, 'w) cenv \<Rightarrow> string \<Rightarrow> int \<Rightarrow> ('fs, 'w) cstate \<Rightarrow> (goerr + os_FileInfo) \<times> ('fs, 'w) cstate" where
  "DoStat E virtualPath mode s =
     (if gm_get (GetVirtualFoldersInPath (cs_user s) (path_Dir virtualPath)) virtualPath \<noteq> None then
        (Inr (info_of (NewFileInfo virtualPath True 0 (ce_now E) False)), s)
      else
        (case GetFsAndResolvedPath E virtualPath s of
           (Inl e, s) \<Rightarrow> (Inl e, s)
         | (Inr (fs, fsPath), s) \<Rightarrow>
             (case (if mode = 1 then fs_Lstat (ce_F E) fs (cs_world s) (getRealFsPath fsPath (cs_conn s))
                    else fs_Stat (ce_F E) fs (cs_world s) (getRealFsPath fsPath (cs_conn s))) of
                Inl e \<Rightarrow> (Inl (fs_error E s fs e), s)
              | Inr info \<Rightarrow>
                  (Inr (if IsCryptOsFs (ce_F E) fs then ConvertFileInfo (sio_DecryptedSize (ce_F E)) info else info), s))))"

definition ignoreSetStat :: "('fs, 'w) cenv \<Rightarrow> 'fs \<Rightarrow> bool" where
  "ignoreSetStat E fs =
     (if ce_SetstatMode E = 1 then True
      else if ce_SetstatMode E = 2 \<and> \<not> IsLocalOrSFTPFs (ce_F E) fs \<and> \<not> IsCryptOsFs (ce_F E) fs then True
      else False)"

text \<open>The three handlers differ in the permission and the call of the storage.\<close>

definition setstat_handler ::
    "('fs, 'w) cenv \<Rightarrow> string \<Rightarrow> ('w \<Rightarrow> goerr option \<times> 'w) \<Rightarrow> 'fs \<Rightarrow> string \<Rightarrow> ('fs, 'w) cstate
       \<Rightarrow> goerr option \<times> ('fs, 'w) cstate" where
  "setstat_handler E perm call fs pathForPerms s =
     (if \<not> HasPerm (cs_user s) perm pathForPerms then (Some (denied s), s)
      else if ignoreSetStat E fs then (None, s)
      else
        (case call (cs_world s) of
           (Some e, w) \<Rightarrow> (Some (fs_error E s fs e), s\<lparr>cs_world := w\<rparr>)
         | (None, w) \<Rightarrow> (None, s\<lparr>cs_world := w\<rparr>)))"

definition handleChmod ::
    "('fs, 'w) cenv \<Rightarrow> 'fs \<Rightarrow> string \<Rightarrow> string \<Rightarrow> StatAttributes \<Rightarrow> ('fs, 'w) cstate \<Rightarrow> goerr option \<times> ('fs, 'w) cstate" where
  "handleChmod E fs fsPath pathForPerms attributes s =
     setstat_handler E PermChmod (fs_Chmod (ce_F E) fs (getRealFsPath fsPath (cs_conn s)) (sa_Mode attributes)) fs pathForPerms s"

definition handleChown ::
    "('fs, 'w) cenv \<Rightarrow> 'fs \<Rightarrow> string \<Rightarrow> string \<Rightarrow> StatAttributes \<Rightarrow> ('fs, 'w) cstate \<Rightarrow> goerr option \<times> ('fs, 'w) cstate" where
  "handleChown E fs fsPath pathForPerms attributes s =
     setstat_handler E PermChown (fs_Chown (ce_F E) fs (getRealFsPath fsPath (cs_conn s)) (sa_UID attributes) (sa_GID attributes))
       fs pathForPerms s"

definition handleChtimes ::
    "('fs, 'w) cenv \<Rightarrow> 'fs \<Rightarrow> string \<Rightarrow> string \<Rightarrow> StatAttributes \<Rightarrow> ('fs, 'w) cstate \<Rightarrow> goerr option \<times> ('fs, 'w) cstate" where
  "handleChtimes E fs fsPath pathForPerms attributes s =
     setstat_handler E PermChtimes
       (fs_Chtimes (ce_F E) fs (getRealFsPath fsPath (cs_conn s)) (sa_Atime attributes) (sa_Mtime attributes)) fs pathForPerms s"

text \<open>The size before and the error of the truncation, by the open file or by the path.\<close>

definition truncate_storage ::
    "('fs, 'w) cenv \<Rightarrow> 'fs \<Rightarrow> string \<Rightarrow> int \<Rightarrow> ('fs, 'w) cstate \<Rightarrow> (int \<times> goerr option) \<times> ('fs, 'w) cstate" where
  "truncate_storage E fs fsPath sz s =
     (case truncateOpenHandle E fsPath sz s of
        ((initialSize, err), s) \<Rightarrow>
          if err = Some errNoTransfer then
            (case fs_Stat (ce_F E) fs (cs_world s) fsPath of
               Inl e \<Rightarrow> ((initialSize, Some e), s)
             | Inr info \<Rightarrow>
                 (case fs_Truncate (ce_F E) fs fsPath sz (cs_world s) of
                    (e, w) \<Rightarrow> ((os_Size info, e), s\<lparr>cs_world := w\<rparr>)))
          else ((initialSize, err), s))"

definition truncateFile ::
    "('fs, 'w) cenv \<Rightarrow> 'fs \<Rightarrow> string \<Rightarrow> string \<Rightarrow> int \<Rightarrow> ('fs, 'w) cstate \<Rightarrow> goerr option \<times> ('fs, 'w) cstate" where
  "truncateFile E fs fsPath virtualPath sz s =
     (case truncate_storage E fs fsPath sz s of
        ((initialSize, err), s) \<Rightarrow>
          (err,
           if err = None \<and> IsLocalOrSFTPFs (ce_F E) fs
           then charge_path E virtualPath 0 (neg64 (sub64 initialSize sz)) s
           else s))"

definition SetStat ::
    "('fs, 'w) cenv \<Rightarrow> string \<Rightarrow> StatAttributes \<Rightarrow> ('fs, 'w) cstate \<Rightarrow> goerr option \<times> ('fs, 'w) cstate" where
  "SetStat E virtualPath attributes s =
     (case GetFsAndResolvedPath E virtualPath s of
        (Inl e, s) \<Rightarrow> (Some e, s)
      | (Inr (fs, fsPath), s) \<Rightarrow>
          (let pathForPerms = getPathForSetStatPerms E fs fsPath virtualPath s
           in if has_flag attributes StatAttrPerms then handleChmod E fs fsPath pathForPerms attributes s
              else if has_flag attributes StatAttrUIDGID then handleChown E fs fsPath pathForPerms attributes s
              else if has_flag attributes StatAttrTimes then handleChtimes E fs fsPath pathForPerms attributes s
              else if has_flag attributes StatAttrSize then
                (if \<not> HasPerm (cs_user s) PermOverwrite pathForPerms then (Some (denied s), s)
                 else
                   (case truncateFile E fs fsPath virtualPath (sa_Size attributes) s of
                      (Some e, s) \<Rightarrow> (Some (fs_error E s fs e), s)
                    | (None, s) \<Rightarrow> (None, s)))
              else (None, s)))"

subsection \<open>Space\<close>

definition no_check :: QuotaCheckResult where
  "no_check = \<lparr>q_HasSpace = True, q_AllowedSize = 0, q_AllowedFiles = 0, q_UsedSize = 0, q_UsedFiles = 0,
               q_QuotaSize = 0, q_QuotaFiles = 0\<rparr>"

text \<open>The result for a limit and a usage, \<open>Inl\<close> where the usage cannot be read.\<close>

definition space_result :: "bool \<Rightarrow> int \<Rightarrow> int \<Rightarrow> qerr + int \<times> int \<Rightarrow> QuotaCheckResult" where
  "space_result checkFiles quotaSize quotaFiles used =
     (case used of
        Inl _ \<Rightarrow> no_check\<lparr>q_HasSpace := False, q_QuotaSize := quotaSize, q_QuotaFiles := quotaFiles\<rparr>
      | Inr (usedFiles, usedSize) \<Rightarrow>
          \<lparr>q_HasSpace = (\<not> (checkFiles \<and> quotaFiles > 0 \<and> usedFiles \<ge> quotaFiles
                            \<or> quotaSize > 0 \<and> usedSize \<ge> quotaSize)),
           q_AllowedSize = sub64 quotaSize usedSize, q_AllowedFiles = sub64 quotaFiles usedFiles,
           q_UsedSize = usedSize, q_UsedFiles = usedFiles, q_QuotaSize = quotaSize, q_QuotaFiles = quotaFiles\<rparr>)"

definition HasSpace :: "('fs, 'w) cenv \<Rightarrow> bool \<Rightarrow> bool \<Rightarrow> string \<Rightarrow> ('fs, 'w) cstate \<Rightarrow> QuotaCheckResult" where
  "HasSpace E checkFiles getUsage requestPath s =
     (if qc_TrackQuota (ce_quota E) = 0 then no_check
      else
        (let byUser =
               (if User_HasNoQuotaRestrictions (cs_user s) checkFiles \<and> \<not> getUsage then no_check
                else space_result checkFiles (u_QuotaSize (cs_user s)) (u_QuotaFiles (cs_user s))
                       (GetUsedQuota (ce_quota E) (ce_kms E) (cs_quota s) (u_Username (cs_user s))))
         in case GetVirtualFolderForPath (cs_user s) (path_Dir requestPath) of
              None \<Rightarrow> byUser
            | Some vfolder \<Rightarrow>
                if IsIncludedInUserQuota vfolder then byUser
                else if Folder_HasNoQuotaRestrictions vfolder checkFiles \<and> \<not> getUsage then no_check
                else space_result checkFiles (vf_QuotaSize vfolder) (vf_QuotaFiles vfolder)
                       (GetUsedVirtualFolderQuota (ce_quota E) (cs_quota s) (vf_Name vfolder))))"

definition GetMaxWriteSize ::
    "string \<Rightarrow> int \<Rightarrow> QuotaCheckResult \<Rightarrow> bool \<Rightarrow> int \<Rightarrow> bool \<Rightarrow> goerr + int" where
  "GetMaxWriteSize protocol maxUpload quotaResult isResume fileSize isUploadResumeSupported =
     (let maxWriteSize = GetRemainingSize quotaResult
      in if isResume then
           (if \<not> isUploadResumeSupported then Inl (GetOpUnsupportedError protocol)
            else if maxUpload > 0 \<and> maxUpload \<le> fileSize then Inl ErrQuotaExceeded
            else if maxUpload > 0 \<and> (sub64 maxUpload fileSize < maxWriteSize \<or> maxWriteSize = 0)
            then Inr (sub64 maxUpload fileSize)
            else Inr maxWriteSize)
         else
           (let maxWriteSize = (if maxWriteSize > 0 then add64 maxWriteSize fileSize else maxWriteSize)
            in if maxUpload > 0 \<and> (maxUpload < maxWriteSize \<or> maxWriteSize = 0) then Inr maxUpload
               else Inr maxWriteSize))"

subsection \<open>Renaming: permissions\<close>

definition isLocalOrSameFolderRename :: "User \<Rightarrow> string \<Rightarrow> string \<Rightarrow> bool" where
  "isLocalOrSameFolderRename u virtualSourcePath virtualTargetPath =
     (case (GetVirtualFolderForPath u virtualSourcePath, GetVirtualFolderForPath u virtualTargetPath) of
        (None, None) \<Rightarrow> True
      | (Some sourceFolder, Some dstFolder) \<Rightarrow>
          if vf_Name sourceFolder = vf_Name dstFolder then True
          else if fc_Provider (vf_FsConfig sourceFolder) = LocalFilesystemProvider \<and>
                  fc_Provider (vf_FsConfig dstFolder) = LocalFilesystemProvider then True
          else False
      | (src, dst) \<Rightarrow>
          if fc_Provider (u_FsConfig u) \<noteq> LocalFilesystemProvider then False
          else
            (case src of
               Some sourceFolder \<Rightarrow> fc_Provider (vf_FsConfig sourceFolder) = LocalFilesystemProvider
             | None \<Rightarrow>
                 (case dst of
                    Some dstFolder \<Rightarrow> fc_Provider (vf_FsConfig dstFolder) = LocalFilesystemProvider
                  | None \<Rightarrow> False)))"

definition hasRenamePerms :: "User \<Rightarrow> string \<Rightarrow> string \<Rightarrow> os_FileInfo option \<Rightarrow> bool" where
  "hasRenamePerms u virtualSourcePath virtualTargetPath fi =
     (if HasPerm u PermRename (path_Dir virtualSourcePath) \<and> HasPerm u PermRename (path_Dir virtualTargetPath) then True
      else if \<not> HasPerm u PermDelete (path_Dir virtualSourcePath) then False
      else
        (case fi of
           Some fi \<Rightarrow>
             if os_IsDir fi then HasPerm u PermCreateDirs (path_Dir virtualTargetPath)
             else if os_IsSymlink fi then HasPerm u PermCreateSymlinks (path_Dir virtualTargetPath)
             else HasPerm u PermUpload (path_Dir virtualTargetPath)
         | None \<Rightarrow> HasPerm u PermUpload (path_Dir virtualTargetPath)))"

definition isRenamePermitted ::
    "('fs, 'w) Fs \<Rightarrow> User \<Rightarrow> 'fs \<Rightarrow> 'fs \<Rightarrow> string \<Rightarrow> string \<Rightarrow> string \<Rightarrow> string \<Rightarrow> os_FileInfo option \<Rightarrow> bool" where
  "isRenamePermitted F u fsSrc fsDst fsSourcePath fsTargetPath virtualSourcePath virtualTargetPath fi =
     (if \<not> isLocalOrSameFolderRename u virtualSourcePath virtualTargetPath then False
      else if IsMappedPath u fsSourcePath \<and> IsLocalOrCryptoFs F fsSrc then False
      else if IsMappedPath u fsTargetPath \<and> IsLocalOrCryptoFs F fsDst then False
      else if fs_GetRelativePath F fsSrc fsSourcePath = ''/'' then False
      else if IsVirtualFolder u virtualSourcePath \<or> IsVirtualFolder u virtualTargetPath then False
      else if (\<not> IsFileAllowed u virtualSourcePath \<or> \<not> IsFileAllowed u virtualTargetPath) \<and>
              (case fi of Some fi \<Rightarrow> os_IsRegular fi | None \<Rightarrow> False) then False
      else hasRenamePerms u virtualSourcePath virtualTargetPath fi)"

definition rename_dstPerms :: "string list" where
  "rename_dstPerms = [PermCreateDirs, PermUpload, PermCreateSymlinks]"

text \<open>The function called for every entry of the renamed directory.\<close>

definition rename_visit ::
    "('fs, 'w) Fs \<Rightarrow> string \<Rightarrow> User \<Rightarrow> 'fs \<Rightarrow> 'fs \<Rightarrow> string \<Rightarrow> string \<Rightarrow> visit \<Rightarrow> goerr option" where
  "rename_visit F protocol u fsSrc fsDst sourcePath targetPath v =
     (case v of
        (walkedPath, info, Some e) \<Rightarrow> Some (GetFsError F protocol fsSrc e)
      | (walkedPath, info, None) \<Rightarrow>
          (let dstPath = strings_Replace1 walkedPath sourcePath targetPath;
               virtualSrcPath = fs_GetRelativePath F fsSrc walkedPath;
               virtualDstPath = fs_GetRelativePath F fsDst dstPath
           in if \<not> HasPermissionsInside u (path_Dir virtualSrcPath) \<and> \<not> HasPermissionsInside u (path_Dir virtualDstPath) \<and>
                 (HasPerm u PermRename (path_Dir virtualSrcPath) \<and> HasPerm u PermRename (path_Dir virtualDstPath) \<or>
                  HasPerm u PermDelete (path_Dir virtualSrcPath) \<and> HasPerms u rename_dstPerms (path_Dir virtualDstPath))
              then Some ErrSkipPermissionsCheck
              else if \<not> isRenamePermitted F u fsSrc fsDst walkedPath dstPath virtualSrcPath virtualDstPath info
              then Some (GetPermissionDeniedError protocol)
              else None))"

definition checkRecursiveRenameDirPermissions ::
    "('fs, 'w) cenv \<Rightarrow> 'fs \<Rightarrow> 'fs \<Rightarrow> string \<Rightarrow> string \<Rightarrow> ('fs, 'w) cstate \<Rightarrow> goerr option" where
  "checkRecursiveRenameDirPermissions E fsSrc fsDst sourcePath targetPath s =
     (let err = run_walk (rename_visit (ce_F E) (cs_protocol s) (cs_user s) fsSrc fsDst sourcePath targetPath)
                  (fs_Walk (ce_F E) fsSrc (cs_world s) sourcePath)
      in if err = Some ErrSkipPermissionsCheck then None else err)"

subsection \<open>Renaming: space\<close>

text \<open>What the renamed file or directory adds: files and size, \<open>None\<close> where the rename is denied.\<close>

definition rename_diff ::
    "('fs, 'w) cenv \<Rightarrow> 'fs \<Rightarrow> int \<Rightarrow> string \<Rightarrow> ('fs, 'w) cstate \<Rightarrow> (int \<times> int) option" where
  "rename_diff E fs initialSize sourcePath s =
     (case fs_Lstat (ce_F E) fs (cs_world s) sourcePath of
        Inl _ \<Rightarrow> None
      | Inr fi \<Rightarrow>
          if os_IsRegular fi then
            (if initialSize \<noteq> -1 then Some (0, sub64 (os_Size fi) initialSize) else Some (1, os_Size fi))
          else if os_IsDir fi then
            (case fs_GetDirSize (ce_F E) fs (cs_world s) sourcePath of Inl _ \<Rightarrow> None | Inr d \<Rightarrow> Some d)
          else Some (0, 0))"

definition hasSpaceForCrossRename ::
    "('fs, 'w) cenv \<Rightarrow> 'fs \<Rightarrow> QuotaCheckResult \<Rightarrow> int \<Rightarrow> string \<Rightarrow> ('fs, 'w) cstate \<Rightarrow> bool" where
  "hasSpaceForCrossRename E fs quotaResult initialSize sourcePath s =
     (if \<not> q_HasSpace quotaResult \<and> initialSize = -1 then False
      else
        (case rename_diff E fs initialSize sourcePath s of
           None \<Rightarrow> False
         | Some (filesDiff, sizeDiff) \<Rightarrow>
             if \<not> q_HasSpace quotaResult \<and> initialSize \<noteq> -1 then
               (if q_QuotaSize quotaResult = 0 then True
                else GetRemainingSize (quotaResult\<lparr>q_UsedSize := add64 (q_UsedSize quotaResult) sizeDiff\<rparr>) \<ge> 0)
             else if q_QuotaFiles quotaResult > 0 \<and> GetRemainingFiles quotaResult < filesDiff then False
             else if q_QuotaSize quotaResult > 0 \<and> GetRemainingSize quotaResult < sizeDiff then False
             else True))"

definition hasSpaceForRename ::
    "('fs, 'w) cenv \<Rightarrow> 'fs \<Rightarrow> string \<Rightarrow> string \<Rightarrow> int \<Rightarrow> string \<Rightarrow> ('fs, 'w) cstate \<Rightarrow> bool" where
  "hasSpaceForRename E fs virtualSourcePath virtualTargetPath initialSize fsSourcePath s =
     (if qc_TrackQuota (ce_quota E) = 0 then True
      else
        (let src = GetVirtualFolderForPath (cs_user s) (path_Dir virtualSourcePath);
             dst = GetVirtualFolderForPath (cs_user s) (path_Dir virtualTargetPath);
             cross = hasSpaceForCrossRename E fs (HasSpace E True False virtualTargetPath s) initialSize fsSourcePath s
         in case (src, dst) of
              (None, None) \<Rightarrow> True
            | (Some sourceFolder, Some dstFolder) \<Rightarrow> if vf_Name sourceFolder = vf_Name dstFolder then True else cross
            | (None, Some dstFolder) \<Rightarrow> if IsIncludedInUserQuota dstFolder then True else cross
            | (Some _, None) \<Rightarrow> cross))"

subsection \<open>Renaming: quota and the operation\<close>

definition updateQuotaMoveBetweenVFolders ::
    "('fs, 'w) cenv \<Rightarrow> VirtualFolder \<Rightarrow> VirtualFolder \<Rightarrow> int \<Rightarrow> int \<Rightarrow> int \<Rightarrow> ('fs, 'w) cstate \<Rightarrow> ('fs, 'w) cstate" where
  "updateQuotaMoveBetweenVFolders E sourceFolder dstFolder initialSize filesSize numFiles s =
     (if vf_Name sourceFolder = vf_Name dstFolder then
        (if initialSize \<noteq> -1 then charge_vfolder E dstFolder (neg64 numFiles) (neg64 initialSize) s else s)
      else
        (let s = charge_vfolder E sourceFolder (neg64 numFiles) (neg64 filesSize) s
         in if initialSize = -1 then charge_vfolder E dstFolder numFiles filesSize s
            else charge_vfolder E dstFolder 0 (sub64 filesSize initialSize) s))"

definition updateQuotaMoveFromVFolder ::
    "('fs, 'w) cenv \<Rightarrow> VirtualFolder \<Rightarrow> int \<Rightarrow> int \<Rightarrow> int \<Rightarrow> ('fs, 'w) cstate \<Rightarrow> ('fs, 'w) cstate" where
  "updateQuotaMoveFromVFolder E sourceFolder initialSize filesSize numFiles s =
     (let s = charge_vfolder E sourceFolder (neg64 numFiles) (neg64 filesSize) s
      in if initialSize = -1 then charge_user E numFiles filesSize s
         else charge_user E 0 (sub64 filesSize initialSize) s)"

definition updateQuotaMoveToVFolder ::
    "('fs, 'w) cenv \<Rightarrow> VirtualFolder \<Rightarrow> int \<Rightarrow> int \<Rightarrow> int \<Rightarrow> ('fs, 'w) cstate \<Rightarrow> ('fs, 'w) cstate" where
  "updateQuotaMoveToVFolder E dstFolder initialSize filesSize numFiles s =
     (let s = charge_user E (neg64 numFiles) (neg64 filesSize) s
      in if initialSize = -1 then charge_vfolder E dstFolder numFiles filesSize s
         else charge_vfolder E dstFolder 0 (sub64 filesSize initialSize) s)"

text \<open>The number of files and the size of what has been moved to the target.\<close>

definition moved_size :: "('fs, 'w) cenv \<Rightarrow> 'fs \<Rightarrow> string \<Rightarrow> ('fs, 'w) cstate \<Rightarrow> goerr + int \<times> int" where
  "moved_size E fs targetPath s =
     (case fs_Stat (ce_F E) fs (cs_world s) targetPath of
        Inl e \<Rightarrow> Inl e
      | Inr fi \<Rightarrow> if os_IsDir fi then fs_GetDirSize (ce_F E) fs (cs_world s) targetPath else Inr (1, os_Size fi))"

definition updateQuotaAfterRename ::
    "('fs, 'w) cenv \<Rightarrow> 'fs \<Rightarrow> string \<Rightarrow> string \<Rightarrow> string \<Rightarrow> int \<Rightarrow> ('fs, 'w) cstate \<Rightarrow> goerr option \<times> ('fs, 'w) cstate" where
  "updateQuotaAfterRename E fs virtualSourcePath virtualTargetPath targetPath initialSize s =
     (if qc_TrackQuota (ce_quota E) = 0 then (None, s)
      else
        (let src = GetVirtualFolderForPath (cs_user s) (path_Dir virtualSourcePath);
             dst = GetVirtualFolderForPath (cs_user s) (path_Dir virtualTargetPath)
         in if src = None \<and> dst = None then
              (None, if initialSize \<noteq> -1 then charge_user E (-1) (neg64 initialSize) s else s)
            else
              (case moved_size E fs targetPath s of
                 Inl e \<Rightarrow> (Some e, s)
               | Inr (numFiles, filesSize) \<Rightarrow>
                   (None,
                    case (src, dst) of
                      (Some sourceFolder, Some dstFolder) \<Rightarrow>
                        updateQuotaMoveBetweenVFolders E sourceFolder dstFolder initialSize filesSize numFiles s
                    | (Some sourceFolder, None) \<Rightarrow> updateQuotaMoveFromVFolder E sourceFolder initialSize filesSize numFiles s
                    | (None, Some dstFolder) \<Rightarrow> updateQuotaMoveToVFolder E dstFolder initialSize filesSize numFiles s
                    | (None, None) \<Rightarrow> s))))"

text \<open>
  The part of a rename after the checks on the source: the target may be a file
  that is overwritten, of size \<open>initialSize\<close>, or else \<open>-1\<close>.
\<close>

definition rename_target ::
    "('fs, 'w) cenv \<Rightarrow> 'fs \<Rightarrow> string \<Rightarrow> string \<Rightarrow> ('fs, 'w) cstate \<Rightarrow> goerr + int" where
  "rename_target E fsDst fsTargetPath virtualTargetPath s =
     (case fs_Lstat (ce_F E) fsDst (cs_world s) fsTargetPath of
        Inl _ \<Rightarrow> Inr (-1)
      | Inr dstInfo \<Rightarrow>
          if os_IsDir dstInfo then Inl (unsupported s)
          else if \<not> HasPerm (cs_user s) PermOverwrite (path_Dir virtualTargetPath) then Inl (denied s)
          else Inr (if os_IsRegular dstInfo then os_Size dstInfo else -1))"

definition rename_dir_check ::
    "('fs, 'w) cenv \<Rightarrow> 'fs \<Rightarrow> 'fs \<Rightarrow> string \<Rightarrow> string \<Rightarrow> string \<Rightarrow> os_FileInfo \<Rightarrow> ('fs, 'w) cstate \<Rightarrow> goerr option" where
  "rename_dir_check E fsSrc fsDst fsSourcePath fsTargetPath virtualSourcePath srcInfo s =
     (if os_IsDir srcInfo then
        (if HasVirtualFoldersInside (cs_user s) virtualSourcePath then Some (unsupported s)
         else checkRecursiveRenameDirPermissions E fsSrc fsDst fsSourcePath fsTargetPath s)
      else None)"

definition rename_storage ::
    "('fs, 'w) cenv \<Rightarrow> 'fs \<Rightarrow> 'fs \<Rightarrow> string \<Rightarrow> string \<Rightarrow> string \<Rightarrow> string \<Rightarrow> int \<Rightarrow> ('fs, 'w) cstate
       \<Rightarrow> goerr option \<times> ('fs, 'w) cstate" where
  "rename_storage E fsSrc fsDst fsSourcePath fsTargetPath virtualSourcePath virtualTargetPath initialSize s =
     (case fs_Rename (ce_F E) fsSrc fsSourcePath fsTargetPath (cs_world s) of
        (Some e, w) \<Rightarrow> (Some (fs_error E s fsSrc e), s\<lparr>cs_world := w\<rparr>)
      | (None, w) \<Rightarrow>
          (let w = SetPathPermissions (ce_F E) (ce_windows E) fsDst fsTargetPath
                     (User_GetUID (cs_user s)) (User_GetGID (cs_user s)) w;
               s = snd (updateQuotaAfterRename E fsDst virtualSourcePath virtualTargetPath fsTargetPath initialSize
                          (s\<lparr>cs_world := w\<rparr>))
           in (None, notify (file_action s ''rename'' fsSourcePath fsTargetPath 0 None) s)))"

definition rename_resolved ::
    "('fs, 'w) cenv \<Rightarrow> 'fs \<Rightarrow> 'fs \<Rightarrow> string \<Rightarrow> string \<Rightarrow> string \<Rightarrow> string \<Rightarrow> ('fs, 'w) cstate
       \<Rightarrow> goerr option \<times> ('fs, 'w) cstate" where
  "rename_resolved E fsSrc fsDst fsSourcePath fsTargetPath virtualSourcePath virtualTargetPath s =
     (case fs_Lstat (ce_F E) fsSrc (cs_world s) fsSourcePath of
        Inl e \<Rightarrow> (Some (fs_error E s fsSrc e), s)
      | Inr srcInfo \<Rightarrow>
          if \<not> isRenamePermitted (ce_F E) (cs_user s) fsSrc fsDst fsSourcePath fsTargetPath virtualSourcePath
                 virtualTargetPath (Some srcInfo)
          then (Some (denied s), s)
          else
            (case rename_target E fsDst fsTargetPath virtualTargetPath s of
               Inl e \<Rightarrow> (Some e, s)
             | Inr initialSize \<Rightarrow>
                 (case rename_dir_check E fsSrc fsDst fsSourcePath fsTargetPath virtualSourcePath srcInfo s of
                    Some e \<Rightarrow> (Some e, s)
                  | None \<Rightarrow>
                      if \<not> hasSpaceForRename E fsSrc virtualSourcePath virtualTargetPath initialSize fsSourcePath s
                      then (Some (GetGenericError (cs_protocol s) (Some ErrQuotaExceeded)), s)
                      else rename_storage E fsSrc fsDst fsSourcePath fsTargetPath virtualSourcePath virtualTargetPath
                             initialSize s)))"

definition Rename ::
    "('fs, 'w) cenv \<Rightarrow> string \<Rightarrow> string \<Rightarrow> ('fs, 'w) cstate \<Rightarrow> goerr option \<times> ('fs, 'w) cstate" where
  "Rename E virtualSourcePath virtualTargetPath s =
     (case GetFsAndResolvedPath E virtualSourcePath s of
        (Inl e, s) \<Rightarrow> (Some e, s)
      | (Inr (fsSrc, fsSourcePath), s) \<Rightarrow>
          (case GetFsAndResolvedPath E virtualTargetPath s of
             (Inl e, s) \<Rightarrow> (Some e, s)
           | (Inr (fsDst, fsTargetPath), s) \<Rightarrow>
               rename_resolved E fsSrc fsDst fsSourcePath fsTargetPath virtualSourcePath virtualTargetPath s))"

end
