(* ===== verification/MemoryStorage.thy ===== *)
theory MemoryStorage
  imports Connection
begin

text \<open>
  A storage on which the operations of a connection can be run: a list of paths
  below \<^verbatim>\<open>/r\<close>, in the order of a walk, with a provider that knows one user and
  one folder.
\<close>

type_synonym mem_files = "(string, os_FileInfo) gomap"

definition a_file :: "int \<Rightarrow> os_FileInfo" where
  "a_file sz = \<lparr>os_Name = '''', os_Size = sz, os_Mode = 0, os_ModTime = 0\<rparr>"

definition a_dir :: os_FileInfo where
  "a_dir = \<lparr>os_Name = '''', os_Size = 0, os_Mode = ModeDir, os_ModTime = 0\<rparr>"

definition mem_stat :: "mem_files \<Rightarrow> string \<Rightarrow> goerr + os_FileInfo" where
  "mem_stat w p = (case gm_get w p of None \<Rightarrow> Inl os_ErrNotExist | Some fi \<Rightarrow> Inr fi)"

definition mem_move :: "string \<Rightarrow> string \<Rightarrow> mem_files \<Rightarrow> mem_files" where
  "mem_move p q w = map (\<lambda>(k, fi). (if prefix p k then q @ drop (length p) k else k, fi)) w"

definition mem_F :: "(unit, mem_files) Fs" where
  "mem_F =
     \<lparr>fs_Name = (\<lambda>_. ''osfs''), fs_Stat = (\<lambda>_. mem_stat), fs_Lstat = (\<lambda>_. mem_stat),
      fs_Rename = (\<lambda>_ p q w. (None, mem_move p q w)), fs_Remove = (\<lambda>_ p _ w. (None, gm_del w p)),
      fs_Mkdir = (\<lambda>_ p w. (None, gm_put w p a_dir)), fs_Symlink = (\<lambda>_ _ q w. (None, w)),
      fs_Chown = (\<lambda>_ _ _ _ w. (None, w)), fs_Chmod = (\<lambda>_ _ _ w. (None, w)), fs_Chtimes = (\<lambda>_ _ _ _ w. (None, w)),
      fs_Truncate = (\<lambda>_ p sz w. (None, gm_put w p (a_file sz))), fs_ReadDir = (\<lambda>_ _ _. Inr []),
      fs_IsUploadResumeSupported = (\<lambda>_. True), fs_IsAtomicUploadSupported = (\<lambda>_. True),
      fs_ResolvePath = (\<lambda>_ _ p. Inr (''/r'' @ p)), fs_IsNotExist = (\<lambda>_ e. e = os_ErrNotExist),
      fs_IsPermission = (\<lambda>_ e. e = os_ErrPermission), fs_IsNotSupported = (\<lambda>_ e. e = ErrVfsUnsupported),
      fs_GetDirSize = (\<lambda>_ w p. Inr (0, 0)), fs_GetAtomicUploadPath = (\<lambda>_ _ p. p @ ''.tmp''),
      fs_GetRelativePath = (\<lambda>_ p. if p = ''/r'' then ''/'' else drop 2 p),
      fs_Walk = (\<lambda>_ w p. (map (\<lambda>(k, fi). (k, Some fi, None)) (filter (\<lambda>(k, fi). prefix p k) w), None)),
      fs_HasVirtualFolders = (\<lambda>_. False), fs_Readlink = (\<lambda>_ _ _. Inl os_ErrNotExist),
      fs_GetAvailableDiskSize = (\<lambda>_ _ _. Inl ErrStorageSizeUnavailable),
      fs_Open = (\<lambda>_ p _ w. (Inr \<lparr>op_file = Some p, op_cancel = None\<rparr>, w)),
      fs_Create = (\<lambda>_ p _ w. (Inr \<lparr>op_file = Some p, op_cancel = None\<rparr>, gm_put w p (a_file 0))),
      file_Truncate = (\<lambda>_ p sz w. (None, gm_put w p (a_file sz))),
      io_WriteAt = (\<lambda>_ p b off w. ((int (length b), None), gm_put w p (a_file (off + int (length b))))),
      io_ReadAt = (\<lambda>_ _ _ _ w. (('''', None), w)), io_Close = (\<lambda>_ _ w. (None, w)),
      sio_DecryptedSize = (\<lambda>_. None)\<rparr>"

definition mem_env :: "quota_config \<Rightarrow> (unit, mem_files) cenv" where
  "mem_env C =
     \<lparr>ce_F = mem_F, ce_backends = \<lparr>mk_root = (\<lambda>_ _. Some ()), mk_folder = (\<lambda>_ _. Some ())\<rparr>,
      ce_openError = (\<lambda>_. ErrGenericFailure), ce_quota = C, ce_kms = \<lparr>km_URL = '''', km_masterKey = ''''\<rparr>, ce_now = 0,
      ce_windows = False, ce_SetstatMode = 0, ce_UploadMode = 0, ce_ExecuteOn = [], ce_Hook = '''',
      ce_runHook = (\<lambda>_ w. (None, w))\<rparr>"

definition mem_state :: "User \<Rightarrow> mem_files \<Rightarrow> quota_state \<Rightarrow> (unit, mem_files) cstate" where
  "mem_state u w q =
     \<lparr>cs_conn = NewBaseConnection 0 ''1'' ProtocolSFTP u, cs_world = w, cs_quota = q, cs_actions = []\<rparr>"

definition no_tracking :: quota_config where
  "no_tracking = \<lparr>qc_TrackQuota = 0, qc_DelayedQuotaUpdate = 0\<rparr>"


text \<open>A user with a folder of its own quota, and a provider that has both.\<close>

definition sample_folder :: BaseVirtualFolder where
  "sample_folder = zero_BaseVirtualFolder\<lparr>bf_Name := ''f'', bf_MappedPath := ''/m'', bf_Users := [''u''],
     bf_UsedQuotaFiles := 1, bf_UsedQuotaSize := 10\<rparr>"

definition sample_user :: User where
  "sample_user = zero_User\<lparr>u_Username := ''u'', u_Permissions := [(''/'', [PermAny])],
     u_VirtualFolders := [\<lparr>vf_Base = sample_folder, vf_VirtualPath = ''/v'', vf_QuotaSize = 100, vf_QuotaFiles = 10\<rparr>],
     u_UsedQuotaFiles := 3, u_UsedQuotaSize := 50\<rparr>"

definition sample_handle :: memoryProviderHandle where
  "sample_handle = empty_handle\<lparr>mp_users := [(''u'', sample_user)], mp_usernames := [''u''],
     mp_vfolders := [(''f'', sample_folder)], mp_vfoldersNames := [''f'']\<rparr>"

definition tracking :: quota_config where
  "tracking = \<lparr>qc_TrackQuota = 1, qc_DelayedQuotaUpdate = 1\<rparr>"

definition sample_files :: mem_files where
  "sample_files = [(''/r/x'', a_file 7), (''/r/y'', a_file 20), (''/r/v/z'', a_file 10)]"

abbreviation "sample_state \<equiv> mem_state sample_user sample_files (newQuotaUpdater, sample_handle)"

lemma sample_inv: "mem_inv sample_handle"
proof -
  have g: "gm_get (mp_users sample_handle) k = (if k = ''u'' then Some sample_user else None)"
    "gm_get (mp_vfolders sample_handle) k = (if k = ''f'' then Some sample_folder else None)"
    "gm_get (mp_admins sample_handle) k = None" for k
    by (auto simp: sample_handle_def empty_handle_def gm_get_def)
  have n: "u_Username sample_user = ''u''" "bf_Name sample_folder = ''f''" "bf_Users sample_folder = [''u'']"
    "vf_Name ` set (u_VirtualFolders sample_user) = {''f''}"
    by (simp_all add: sample_user_def sample_folder_def)
  have w: "wf_gm (mp_users sample_handle)" "wf_gm (mp_vfolders sample_handle)" "wf_gm (mp_admins sample_handle)"
    "mp_usernames sample_handle = [''u'']" "mp_vfoldersNames sample_handle = [''f'']" "mp_adminsUsernames sample_handle = []"
    by (simp_all add: sample_handle_def empty_handle_def wf_gm_def)
  have "dom (gm_get (mp_users sample_handle)) = {''u''}" "dom (gm_get (mp_vfolders sample_handle)) = {''f''}"
    "dom (gm_get (mp_admins sample_handle)) = {}"
    by (simp_all add: g dom_def)
  then have i: "index_ok (mp_users sample_handle) (mp_usernames sample_handle)"
    "index_ok (mp_vfolders sample_handle) (mp_vfoldersNames sample_handle)"
    "index_ok (mp_admins sample_handle) (mp_adminsUsernames sample_handle)"
    using w by (simp_all add: index_ok_def)
  have "user_links sample_handle = {''u''} \<times> vf_Name ` set (u_VirtualFolders sample_user)"
    "folder_links sample_handle = set (bf_Users sample_folder) \<times> {''f''}"
    unfolding user_links_def folder_links_def g by (simp_all add: set_eq_iff)
  then have l: "user_links sample_handle = {(''u'', ''f'')}" "folder_links sample_handle = {(''u'', ''f'')}"
    using n by (simp_all only: list.set) simp_all
  show ?thesis unfolding mem_inv_def users_inv_def folders_inv_def admins_inv_def
    using i l n by (simp add: named_by_def g)
qed

end
