(* ===== verification/ConnectionSafety.thy ===== *)
theory ConnectionSafety
  imports MemoryStorage
begin

text \<open>
  What the operations of a connection may do: no request changes the stored
  files, the quota or the notifications unless the user has the permissions the
  request needs, and how far the permission check of a renamed directory goes.
\<close>

subsection \<open>Requests and the permissions they need\<close>

datatype 'fs conn_request =
    ReqCreateDir string
  | ReqRemoveFile 'fs string string os_FileInfo
  | ReqRemoveDir string
  | ReqRename string string
  | ReqCreateSymlink string string
  | ReqSetStat string StatAttributes

fun run_request :: "('fs, 'w) cenv \<Rightarrow> 'fs conn_request \<Rightarrow> ('fs, 'w) cstate \<Rightarrow> goerr option \<times> ('fs, 'w) cstate" where
  "run_request E (ReqCreateDir p) s = CreateDir E p s"
| "run_request E (ReqRemoveFile fs fsPath p info) s = RemoveFile E fs fsPath p info s"
| "run_request E (ReqRemoveDir p) s = RemoveDir E p s"
| "run_request E (ReqRename p q) s = Rename E p q s"
| "run_request E (ReqCreateSymlink p q) s = CreateSymlink E p q s"
| "run_request E (ReqSetStat p attributes) s = SetStat E p attributes s"

fun authorised :: "User \<Rightarrow> 'fs conn_request \<Rightarrow> bool" where
  "authorised u (ReqCreateDir p) = (HasPerm u PermCreateDirs (path_Dir p) \<and> \<not> IsVirtualFolder u p)"
| "authorised u (ReqRemoveFile _ _ p _) = (HasPerm u PermDelete (path_Dir p) \<and> IsFileAllowed u p)"
| "authorised u (ReqRemoveDir p) =
     (HasPerm u PermDelete (path_Dir p) \<and> \<not> IsVirtualFolder u p \<and> \<not> HasVirtualFoldersInside u p)"
| "authorised u (ReqRename p q) =
     ((HasPerm u PermRename (path_Dir p) \<and> HasPerm u PermRename (path_Dir q) \<or>
       HasPerm u PermDelete (path_Dir p) \<and>
       (\<exists>x \<in> {PermCreateDirs, PermCreateSymlinks, PermUpload}. HasPerm u x (path_Dir q))) \<and>
      \<not> IsVirtualFolder u p \<and> \<not> IsVirtualFolder u q \<and> isLocalOrSameFolderRename u p q)"
| "authorised u (ReqCreateSymlink p q) =
     (HasPerm u PermCreateSymlinks (path_Dir q) \<and> \<not> isCrossFoldersRequest u p q)"
| "authorised u (ReqSetStat p attributes) =
     (\<exists>x \<in> {PermChmod, PermChown, PermChtimes, PermOverwrite}. HasPerm u x p \<or> HasPerm u x (path_Dir p))"

definition untouched :: "('fs, 'w) cstate \<Rightarrow> ('fs, 'w) cstate \<Rightarrow> bool" where
  "untouched s s' = (cs_world s' = cs_world s \<and> cs_quota s' = cs_quota s \<and> cs_actions s' = cs_actions s)"

lemma untouched_refl [simp]: "untouched s s"
  by (simp add: untouched_def)

lemma untouched_trans: "untouched s s' \<Longrightarrow> untouched s' s'' \<Longrightarrow> untouched s s''"
  by (simp add: untouched_def)

text \<open>Finding the storage of a path only fills the cache of storages.\<close>

lemma GetFsAndResolvedPath_frame:
  assumes "GetFsAndResolvedPath E virtualPath s = (r, s')"
  shows "untouched s s'" "cs_user s' = cs_user s" "cs_protocol s' = cs_protocol s"
  using assms by (auto simp: GetFsAndResolvedPath_def untouched_def Let_def split: prod.splits option.splits if_splits sum.splits)

lemma CreateDir_authorised: "\<not> authorised (cs_user s) (ReqCreateDir p) \<Longrightarrow> untouched s (snd (CreateDir E p s))"
  by (auto simp: CreateDir_def)

lemma RemoveFile_authorised:
  "\<not> authorised (cs_user s) (ReqRemoveFile fs fsPath p info) \<Longrightarrow> untouched s (snd (RemoveFile E fs fsPath p info s))"
  by (auto simp: RemoveFile_def IsRemoveFileAllowed_def)

lemma RemoveDir_authorised:
  assumes "\<not> authorised (cs_user s) (ReqRemoveDir p)"
  shows "untouched s (snd (RemoveDir E p s))"
proof (cases "GetFsAndResolvedPath E p s")
  case (Pair r s')
  note f = GetFsAndResolvedPath_frame [OF Pair]
  have n: "\<exists>e. IsRemoveDirAllowed E fs fsPath p s' = Some e" for fs fsPath
    using assms f(2) by (auto simp: IsRemoveDirAllowed_def)
  show ?thesis
  proof (cases r)
    case (Inr q)
    obtain fs fsPath where q: "q = (fs, fsPath)" by (cases q)
    obtain e where "IsRemoveDirAllowed E fs fsPath p s' = Some e" using n by blast
    then show ?thesis using Pair f(1) Inr q by (simp add: RemoveDir_def)
  qed (use Pair f(1) in \<open>simp add: RemoveDir_def\<close>)
qed

lemma CreateSymlink_authorised:
  assumes "\<not> authorised (cs_user s) (ReqCreateSymlink p q)"
  shows "untouched s (snd (CreateSymlink E p q s))"
proof (cases "GetFsAndResolvedPath E p s")
  case (Pair r s')
  note f = GetFsAndResolvedPath_frame [OF Pair]
  then show ?thesis using assms Pair by (auto simp: CreateSymlink_def split: sum.splits)
qed

lemma isRenamePermitted_authorised:
  "isRenamePermitted F u fsSrc fsDst fsp ftp p q fi \<Longrightarrow> authorised u (ReqRename p q)"
  by (auto simp: isRenamePermitted_def hasRenamePerms_def split: if_splits option.splits)

lemma rename_resolved_authorised:
  "\<not> authorised (cs_user s) (ReqRename p q) \<Longrightarrow> untouched s (snd (rename_resolved E fsSrc fsDst fsp ftp p q s))"
  using isRenamePermitted_authorised [of "ce_F E" "cs_user s" fsSrc fsDst fsp ftp p q]
  by (auto simp: rename_resolved_def split: sum.splits)

lemma Rename_authorised:
  assumes "\<not> authorised (cs_user s) (ReqRename p q)"
  shows "untouched s (snd (Rename E p q s))"
proof (cases "GetFsAndResolvedPath E p s")
  case (Pair r s1)
  note f = GetFsAndResolvedPath_frame [OF Pair]
  show ?thesis
  proof (cases "GetFsAndResolvedPath E q s1")
    case (Pair r' s2)
    note g = GetFsAndResolvedPath_frame [OF Pair]
    have u: "untouched s s2" using f g untouched_trans by blast
    have "untouched s2 (snd (rename_resolved E fsSrc fsDst fsp ftp p q s2))" for fsSrc fsDst fsp ftp
      using assms f g by (intro rename_resolved_authorised) simp
    then show ?thesis
      using u f \<open>GetFsAndResolvedPath E p s = (r, s1)\<close> Pair untouched_trans [OF u]
      by (auto simp: Rename_def split: sum.splits)
  qed
qed

lemma setstat_handler_authorised:
  "\<not> HasPerm (cs_user s) perm q \<Longrightarrow> untouched s (snd (setstat_handler E perm call fs q s))"
  by (simp add: setstat_handler_def)

lemma SetStat_authorised:
  assumes "\<not> authorised (cs_user s) (ReqSetStat p attributes)"
  shows "untouched s (snd (SetStat E p attributes s))"
proof (cases "GetFsAndResolvedPath E p s")
  case (Pair r s')
  note f = GetFsAndResolvedPath_frame [OF Pair]
  have q: "getPathForSetStatPerms E fs fsPath p s' \<in> {p, path_Dir p}" for fs fsPath
    by (simp add: getPathForSetStatPerms_def split: sum.splits)
  have n: "\<not> HasPerm (cs_user s') x (getPathForSetStatPerms E fs fsPath p s')"
    if "x \<in> {PermChmod, PermChown, PermChtimes, PermOverwrite}" for x fs fsPath
    using assms that f(2) q [of fs fsPath] unfolding authorised.simps by (metis empty_iff insert_iff)
  have h: "untouched s (snd (setstat_handler E x call fs' (getPathForSetStatPerms E fs fsPath p s') s'))"
    if "x \<in> {PermChmod, PermChown, PermChtimes}" for x call fs' fs fsPath
    using untouched_trans [OF f(1) setstat_handler_authorised] n [of x] that by blast
  show ?thesis
    using Pair f(1) n [of PermOverwrite] h [of PermChmod] h [of PermChown] h [of PermChtimes]
    by (auto simp: SetStat_def Let_def handleChmod_def handleChown_def handleChtimes_def split: sum.splits)
qed

lemma request_authorised:
  assumes "\<not> authorised (cs_user s) r"
  shows "untouched s (snd (run_request E r s))"
proof (cases r)
  case (ReqRemoveFile fs fsPath p info)
  then show ?thesis using assms RemoveFile_authorised [of s fs fsPath p info E] by simp
qed (use assms in \<open>simp_all only: run_request.simps CreateDir_authorised RemoveDir_authorised Rename_authorised
      CreateSymlink_authorised SetStat_authorised\<close>)


subsection \<open>Permissions inherited by what lies below a directory\<close>

lemma below_in_permissions:
  assumes "good_comps cs" and "good_comps es" and "es \<noteq> []" and "cs \<noteq> []"
    and "\<not> HasPermissionsInside u (abs_of cs)"
  shows "gm_get (u_Permissions u) (abs_of (cs @ es)) = None"
proof (rule ccontr)
  assume "gm_get (u_Permissions u) (abs_of (cs @ es)) \<noteq> None"
  then have "abs_of (cs @ es) \<in> set (gm_keys (u_Permissions u))" by (auto simp: gm.set_keys)
  moreover have "prefix (abs_of cs @ ''/'') (abs_of (cs @ es))"
    using assms by (subst abs_of_below_iff) (auto simp: strict_prefix_def)
  ultimately have "HasPermissionsInside u (abs_of cs)"
    using abs_of_below_length by (auto simp: HasPermissionsInside_def list_ex_iff strings_HasPrefix_def)
  then show False using assms(5) by simp
qed

lemma find_permissions_below:
  assumes "good_comps cs" and "cs \<noteq> []" and "\<not> HasPermissionsInside u (abs_of cs)" and "good_comps es"
  shows "find_permissions u (abs_of (cs @ es)) = find_permissions u (abs_of cs)"
  using assms(4)
proof (induction es rule: rev_induct)
  case (snoc e es)
  then have g: "good_comps (cs @ es @ [e])" "good_comps (cs @ es)" using assms(1) by simp_all
  have "find_permissions u (abs_of (cs @ es @ [e])) = find_permissions u (abs_of (cs @ es))"
    using below_in_permissions [of cs "es @ [e]" u] snoc.prems assms g
    by (simp add: find_permissions_def GetDirsForVirtualPath_abs_of del: append_assoc add: append_assoc [symmetric])
  then show ?case using snoc by simp
qed simp

lemma HasPerm_below:
  assumes "good_comps cs" and "good_comps es" and "\<not> HasPermissionsInside u (abs_of cs)"
    and "gm_get (u_Permissions u) ''/'' \<noteq> None"
  shows "HasPerm u x (abs_of (cs @ es)) = HasPerm u x (abs_of cs)"
proof -
  have "cs \<noteq> []"
  proof
    assume "cs = []"
    then have "HasPermissionsInside u (abs_of cs)"
      using assms(4) gm.set_keys [of "u_Permissions u"] by (auto simp: HasPermissionsInside_def list_ex_iff)
    then show False using assms(3) by simp
  qed
  then have "find_permissions u (abs_of (cs @ es)) = find_permissions u (abs_of cs)"
    using find_permissions_below [OF assms(1) _ assms(3) assms(2)] by simp
  then show ?thesis by (simp only: HasPerm_def GetPermissionsForPath_def)
qed

text \<open>What a permitted rename of one entry means, and what the shortcut of the check promises below a directory.\<close>

definition entry_permitted ::
    "('fs, 'w) Fs \<Rightarrow> User \<Rightarrow> 'fs \<Rightarrow> 'fs \<Rightarrow> string \<Rightarrow> string \<Rightarrow> visit \<Rightarrow> bool" where
  "entry_permitted F u fsSrc fsDst sourcePath targetPath v =
     (let dstPath = strings_Replace1 (fst v) sourcePath targetPath
      in isRenamePermitted F u fsSrc fsDst (fst v) dstPath (fs_GetRelativePath F fsSrc (fst v))
           (fs_GetRelativePath F fsDst dstPath) (fst (snd v)))"

definition shortcut :: "User \<Rightarrow> string \<Rightarrow> string \<Rightarrow> bool" where
  "shortcut u d d' =
     (\<not> HasPermissionsInside u d \<and> \<not> HasPermissionsInside u d' \<and>
      (HasPerm u PermRename d \<and> HasPerm u PermRename d' \<or> HasPerm u PermDelete d \<and> HasPerms u rename_dstPerms d'))"

abbreviation src_dir :: "('fs, 'w) Fs \<Rightarrow> 'fs \<Rightarrow> visit \<Rightarrow> string" where
  "src_dir F fsSrc v \<equiv> path_Dir (fs_GetRelativePath F fsSrc (fst v))"

abbreviation dst_dir :: "('fs, 'w) Fs \<Rightarrow> 'fs \<Rightarrow> string \<Rightarrow> string \<Rightarrow> visit \<Rightarrow> string" where
  "dst_dir F fsDst sourcePath targetPath v \<equiv>
     path_Dir (fs_GetRelativePath F fsDst (strings_Replace1 (fst v) sourcePath targetPath))"

lemma rename_visit_None:
  "rename_visit F protocol u fsSrc fsDst sourcePath targetPath v = None \<Longrightarrow>
     entry_permitted F u fsSrc fsDst sourcePath targetPath v"
  by (auto simp: rename_visit_def entry_permitted_def Let_def split: prod.splits option.splits if_splits)

lemma not_skip_errors [simp]: "GetFsError F protocol fs e \<noteq> ErrSkipPermissionsCheck"
  "GetPermissionDeniedError protocol \<noteq> ErrSkipPermissionsCheck"
  by (auto simp: GetFsError_def GetNotExistError_def GetPermissionDeniedError_def GetOpUnsupportedError_def
      GetGenericError_def)

lemma rename_visit_skip:
  "rename_visit F protocol u fsSrc fsDst sourcePath targetPath v = Some ErrSkipPermissionsCheck \<Longrightarrow>
     shortcut u (src_dir F fsSrc v) (dst_dir F fsDst sourcePath targetPath v)"
  by (auto simp: rename_visit_def shortcut_def Let_def split: prod.splits option.splits if_splits)

lemma run_walk_end:
  "run_walk f (vs, None) \<in> {None, Some e} \<Longrightarrow>
     \<exists>k \<le> length vs. (\<forall>v \<in> set (take k vs). f v = None) \<and> (k < length vs \<longrightarrow> f (vs ! k) = Some e)"
proof (induction vs)
  case (Cons v vs)
  show ?case
  proof (cases "f v")
    case None
    then obtain k where "k \<le> length vs" "\<forall>v \<in> set (take k vs). f v = None" "k < length vs \<longrightarrow> f (vs ! k) = Some e"
      using Cons by auto
    then show ?thesis using None by (intro exI [of _ "Suc k"]) simp
  next
    case (Some e')
    then show ?thesis using Cons.prems by (intro exI [of _ 0]) simp
  qed
qed simp

lemma shortcut_below:
  assumes "shortcut u (abs_of cs) (abs_of ds)" and "gm_get (u_Permissions u) ''/'' \<noteq> None"
    and "good_comps cs" and "good_comps es" and "good_comps ds" and "good_comps fs"
    and "path_Dir p = abs_of (cs @ es)" and "path_Dir q = abs_of (ds @ fs)"
  shows "hasRenamePerms u p q fi"
proof -
  have a: "HasPerm u x (path_Dir p) = HasPerm u x (abs_of cs)" for x
    using HasPerm_below [of cs es u x] assms by (simp add: shortcut_def)
  have b: "HasPerm u x (path_Dir q) = HasPerm u x (abs_of ds)" for x
    using HasPerm_below [of ds fs u x] assms by (simp add: shortcut_def)
  have "HasPerms u rename_dstPerms d \<Longrightarrow> x \<in> set rename_dstPerms \<Longrightarrow> HasPerm u x d" for x d
    by (auto simp: HasPerms_def HasPerm_def Let_def list_all_iff split: if_splits)
  from this [of "abs_of ds"] have "HasPerms u rename_dstPerms (abs_of ds) \<Longrightarrow>
      HasPerm u PermCreateDirs (abs_of ds) \<and> HasPerm u PermUpload (abs_of ds) \<and> HasPerm u PermCreateSymlinks (abs_of ds)"
    by (simp add: rename_dstPerms_def)
  then show ?thesis using assms(1) a b by (auto simp: hasRenamePerms_def shortcut_def split: option.splits)
qed


subsection \<open>The shortcut at work\<close>

text \<open>A user who may do everything, except below one directory, and a directory that contains it.\<close>

definition restricted_user :: User where
  "restricted_user = zero_User\<lparr>u_Username := ''u'', u_Permissions := [(''/'', [PermAny]), (''/d/b'', [PermListItems])]\<rparr>"

definition restricted_files :: mem_files where
  "restricted_files = [(''/r/d'', a_dir), (''/r/d/a'', a_dir), (''/r/d/a/x'', a_file 1), (''/r/d/b'', a_dir), (''/r/d/b/y'', a_file 7)]"

abbreviation "restricted_state \<equiv> mem_state restricted_user restricted_files (newQuotaUpdater, empty_handle)"


abbreviation "renamed_state \<equiv> Rename (mem_env no_tracking) ''/d'' ''/e'' restricted_state"




end
