(* ===== verification/ConnectionQuota.thy ===== *)
theory ConnectionQuota
  imports MemoryStorage
begin

text \<open>
  The quota bookkeeping of the operations: what a charge does to the usage that
  the provider reports, that a rename moves exactly what it should between the
  accounts of the user and of the folders, and what the space checks guarantee.
\<close>

subsection \<open>Accounts\<close>

datatype account = UserAccount | FolderAccount string

definition used_by :: "('fs, 'w) cenv \<Rightarrow> ('fs, 'w) cstate \<Rightarrow> account \<Rightarrow> (int \<times> int) option" where
  "used_by E s a =
     (case (case a of
              UserAccount \<Rightarrow> GetUsedQuota (ce_quota E) (ce_kms E) (cs_quota s) (u_Username (cs_user s))
            | FolderAccount name \<Rightarrow> GetUsedVirtualFolderQuota (ce_quota E) (cs_quota s) name) of
        Inl _ \<Rightarrow> None | Inr p \<Rightarrow> Some p)"

definition folder_accounts :: "VirtualFolder \<Rightarrow> account set" where
  "folder_accounts v = {FolderAccount (vf_Name v)} \<union> (if IsIncludedInUserQuota v then {UserAccount} else {})"

definition charged :: "User \<Rightarrow> string \<Rightarrow> account set" where
  "charged u virtualPath =
     (case GetVirtualFolderForPath u (path_Dir virtualPath) of None \<Rightarrow> {UserAccount} | Some v \<Rightarrow> folder_accounts v)"

definition add_usage :: "account set \<Rightarrow> int \<times> int \<Rightarrow> (account \<Rightarrow> (int \<times> int) option) \<Rightarrow> account \<Rightarrow> (int \<times> int) option" where
  "add_usage A d f = (\<lambda>a. if a \<in> A then map_option (\<lambda>p. add_pair p d) (f a) else f a)"

text \<open>Usage of the user is tracked always, or only for users with a limit.\<close>

definition tracked :: "('fs, 'w) cenv \<Rightarrow> ('fs, 'w) cstate \<Rightarrow> bool" where
  "tracked E s \<longleftrightarrow> qc_TrackQuota (ce_quota E) \<noteq> 0 \<and>
     (qc_TrackQuota (ce_quota E) = 2 \<longrightarrow> HasQuotaRestrictions (cs_user s)) \<and> mem_inv (snd (cs_quota s))"

lemma user_update_mem: "user_update kc now h k n z False = (ok, h') \<Longrightarrow> h' = snd (mem_updateQuota kc h now k n z False)"
  by (auto simp: user_update_def split: prod.splits)

lemma folder_update_mem: "folder_update now h k n z False = (ok, h') \<Longrightarrow> h' = snd (mem_updateFolderQuota h now k n z False)"
  by (auto simp: folder_update_def split: prod.splits)

lemma used_by_user:
  "qc_TrackQuota (ce_quota E) \<noteq> 0 \<Longrightarrow>
     used_by E s UserAccount = map_option (\<lambda>p. add_pair p (getUserPendingQuota (u_Username (cs_user s)) (fst (cs_quota s))))
       (user_used (ce_kms E) (snd (cs_quota s)) (u_Username (cs_user s)))"
  by (auto simp: used_by_def GetUsedQuota_def user_used_def add_pair_def split: sum.splits prod.splits)

lemma used_by_folder:
  "qc_TrackQuota (ce_quota E) \<noteq> 0 \<Longrightarrow>
     used_by E s (FolderAccount k) = map_option (\<lambda>p. add_pair p (getFolderPendingQuota k (fst (cs_quota s))))
       (folder_used (snd (cs_quota s)) k)"
  by (auto simp: used_by_def GetUsedVirtualFolderQuota_def folder_used_def add_pair_def split: sum.splits prod.splits)

lemma used_by_zero: "tracked E s \<Longrightarrow> add_usage A (0, 0) (used_by E s) = used_by E s"
proof
  fix a assume "tracked E s"
  then show "add_usage A (0, 0) (used_by E s) a = used_by E s a"
    by (cases a) (auto simp: add_usage_def tracked_def used_by_user used_by_folder option.map_comp comp_def)
qed

lemma user_used_folder_update: "user_used kc (snd (mem_updateFolderQuota h now k n z r)) = user_used kc h"
  by (rule ext) (auto simp: user_used_eq mem_updateFolderQuota_def Let_def split: option.splits)

lemma folder_used_user_update: "folder_used (snd (mem_updateQuota kc h now k n z r)) = folder_used h"
  by (rule ext) (auto simp: folder_used_eq mem_updateQuota_def put_user_def Let_def split: option.splits)

lemma charge_frame [simp]:
  "cs_conn (charge_user E n z s) = cs_conn s" "cs_world (charge_user E n z s) = cs_world s"
  "cs_conn (charge_folder E v n z s) = cs_conn s" "cs_world (charge_folder E v n z s) = cs_world s"
  by (simp_all add: charge_user_def charge_folder_def)
lemma user_used_update:
  assumes "users_inv h"
  shows "user_used kc (snd (mem_updateQuota kc h now k n z False)) k = map_option (\<lambda>p. add_pair p (n, z)) (user_used kc h k)"
proof -
  obtain ok h' where u: "user_update kc now h k n z False = (ok, h')" by fastforce
  then have h': "snd (mem_updateQuota kc h now k n z False) = h'" by (metis user_update_mem)
  show ?thesis
  proof (cases "user_used kc h k")
    case None
    then have "\<not> ok" using user_quota.upd_exists [OF assms, of kc now k n z False] u by simp
    then show ?thesis using user_quota.upd_fail [of kc now h k n z False h'] u h' None by simp
  next
    case (Some p)
    then have ok using user_quota.upd_exists [OF assms, of kc now k n z False] u by simp
    then show ?thesis using user_quota.upd_add [OF assms, of kc now k n z h' p] u h' Some by simp
  qed
qed

lemma folder_used_update:
  assumes "folders_inv h"
  shows "folder_used (snd (mem_updateFolderQuota h now k n z False)) k' =
    (if k' = k then map_option (\<lambda>p. add_pair p (n, z)) (folder_used h k) else folder_used h k')"
proof -
  obtain ok h' where u: "folder_update now h k n z False = (ok, h')" by fastforce
  then have h': "snd (mem_updateFolderQuota h now k n z False) = h'" by (metis folder_update_mem)
  have other: "k' \<noteq> k \<Longrightarrow> folder_used h' k' = folder_used h k'"
    using folder_quota.upd_other [OF assms, of k' k now n z False] u by simp
  show ?thesis
  proof (cases "folder_used h k")
    case None
    then have "\<not> ok" using folder_quota.upd_exists [OF assms, of now k n z False] u by simp
    then show ?thesis using folder_quota.upd_fail [of now h k n z False h'] u h' None by simp
  next
    case (Some p)
    then have ok using folder_quota.upd_exists [OF assms, of now k n z False] u by simp
    then show ?thesis using folder_quota.upd_add [OF assms, of now k n z h' p] u h' Some other by simp
  qed
qed

lemma add_pair_swap: "add_pair (add_pair p d) q = add_pair (add_pair p q) d"
  by (simp add: add_pair_ac)

lemma charge_user_used:
  assumes "tracked E s"
  shows "tracked E (charge_user E n z s)" "used_by E (charge_user E n z s) = add_usage {UserAccount} (n, z) (used_by E s)"
proof -
  let ?C = "ce_quota E" and ?k = "u_Username (cs_user s)" and ?h = "snd (cs_quota s)" and ?q = "fst (cs_quota s)"
  have t: "qc_TrackQuota ?C \<noteq> 0" "qc_TrackQuota ?C = 2 \<longrightarrow> HasQuotaRestrictions (cs_user s)" "mem_inv ?h" "users_inv ?h"
    using assms by (auto simp: tracked_def mem_inv_def)
  consider (zero) "n = 0" "z = 0" | (direct) "n \<noteq> 0 \<or> z \<noteq> 0" "qc_DelayedQuotaUpdate ?C = 0"
    | (delayed) "n \<noteq> 0 \<or> z \<noteq> 0" "qc_DelayedQuotaUpdate ?C \<noteq> 0" by blast
  then have "tracked E (charge_user E n z s) \<and>
    used_by E (charge_user E n z s) = add_usage {UserAccount} (n, z) (used_by E s)"
  proof cases
    case zero
    then have "charge_user E n z s = s" using t by (simp add: charge_user_def UpdateUserQuota_def)
    then show ?thesis using assms zero by (simp add: used_by_zero)
  next
    case direct
    have e: "cs_quota (charge_user E n z s) = (?q, snd (mem_updateQuota (ce_kms E) ?h (ce_now E) ?k n z False))"
      using t direct by (auto simp: charge_user_def UpdateUserQuota_def Let_def split: prod.splits)
    have "used_by E (charge_user E n z s) a = add_usage {UserAccount} (n, z) (used_by E s) a" for a
      using t by (cases a) (simp_all add: add_usage_def used_by_user used_by_folder e user_used_update
          folder_used_user_update option.map_comp comp_def add_pair_swap [of _ "(n, z)"])
    then show ?thesis using t mem_updateQuota_inv by (auto simp: tracked_def e)
  next
    case delayed
    have e: "cs_quota (charge_user E n z s) = (updateUserQuota ?k n z ?q, ?h)"
      using t delayed by (auto simp: charge_user_def UpdateUserQuota_def)
    have "used_by E (charge_user E n z s) a = add_usage {UserAccount} (n, z) (used_by E s) a" for a
      using t by (cases a) (simp_all add: add_usage_def used_by_user used_by_folder e updateUserQuota_def
          getUserPendingQuota_def getFolderPendingQuota_def pending_get_update option.map_comp comp_def add_pair_ac(1))
    then show ?thesis using t by (auto simp: tracked_def e)
  qed
  then show "tracked E (charge_user E n z s)"
    "used_by E (charge_user E n z s) = add_usage {UserAccount} (n, z) (used_by E s)" by auto
qed

lemma charge_folder_used:
  assumes "tracked E s"
  shows "tracked E (charge_folder E v n z s)"
    "used_by E (charge_folder E v n z s) = add_usage {FolderAccount (vf_Name v)} (n, z) (used_by E s)"
proof -
  let ?C = "ce_quota E" and ?k = "vf_Name v" and ?h = "snd (cs_quota s)" and ?q = "fst (cs_quota s)"
  have t: "qc_TrackQuota ?C \<noteq> 0" "qc_TrackQuota ?C = 2 \<longrightarrow> HasQuotaRestrictions (cs_user s)" "mem_inv ?h" "folders_inv ?h"
    using assms by (auto simp: tracked_def mem_inv_def)
  consider (zero) "n = 0" "z = 0" | (direct) "n \<noteq> 0 \<or> z \<noteq> 0" "qc_DelayedQuotaUpdate ?C = 0"
    | (delayed) "n \<noteq> 0 \<or> z \<noteq> 0" "qc_DelayedQuotaUpdate ?C \<noteq> 0" by blast
  then have "tracked E (charge_folder E v n z s) \<and>
    used_by E (charge_folder E v n z s) = add_usage {FolderAccount ?k} (n, z) (used_by E s)"
  proof cases
    case zero
    then have "charge_folder E v n z s = s" using t by (simp add: charge_folder_def UpdateVirtualFolderQuota_def)
    then show ?thesis using assms zero by (simp add: used_by_zero)
  next
    case direct
    have e: "cs_quota (charge_folder E v n z s) = (?q, snd (mem_updateFolderQuota ?h (ce_now E) ?k n z False))"
      using t direct by (auto simp: charge_folder_def UpdateVirtualFolderQuota_def Let_def split: prod.splits)
    have "used_by E (charge_folder E v n z s) a = add_usage {FolderAccount ?k} (n, z) (used_by E s) a" for a
      using t by (cases a) (auto simp: add_usage_def used_by_user used_by_folder e folder_used_update
          user_used_folder_update option.map_comp comp_def add_pair_swap [of _ "(n, z)"])
    then show ?thesis using t mem_updateFolderQuota_inv by (auto simp: tracked_def e)
  next
    case delayed
    have e: "cs_quota (charge_folder E v n z s) = (updateFolderQuota ?k n z ?q, ?h)"
      using t delayed by (auto simp: charge_folder_def UpdateVirtualFolderQuota_def)
    have "used_by E (charge_folder E v n z s) a = add_usage {FolderAccount ?k} (n, z) (used_by E s) a" for a
      using t by (cases a) (auto simp: add_usage_def used_by_user used_by_folder e updateFolderQuota_def
          getUserPendingQuota_def getFolderPendingQuota_def pending_get_update option.map_comp comp_def add_pair_ac(1))
    then show ?thesis using t by (auto simp: tracked_def e)
  qed
  then show "tracked E (charge_folder E v n z s)"
    "used_by E (charge_folder E v n z s) = add_usage {FolderAccount ?k} (n, z) (used_by E s)" by auto
qed

text \<open>Charges to a folder and to a path reach all the accounts they belong to.\<close>

lemma add_usage_Un: "A \<inter> B = {} \<Longrightarrow> add_usage A d (add_usage B d f) = add_usage (A \<union> B) d f"
  by (rule ext) (auto simp: add_usage_def)

lemma charge_vfolder_used:
  assumes "tracked E s"
  shows "tracked E (charge_vfolder E v n z s)"
    "used_by E (charge_vfolder E v n z s) = add_usage (folder_accounts v) (n, z) (used_by E s)"
    "cs_conn (charge_vfolder E v n z s) = cs_conn s" "cs_world (charge_vfolder E v n z s) = cs_world s"
  using charge_folder_used [OF assms, of v n z] charge_user_used [of E "charge_folder E v n z s" n z]
  by (auto simp: charge_vfolder_def folder_accounts_def Let_def add_usage_Un)

lemma charge_path_used:
  assumes "tracked E s"
  shows "tracked E (charge_path E p n z s)"
    "used_by E (charge_path E p n z s) = add_usage (charged (cs_user s) p) (n, z) (used_by E s)"
  using charge_vfolder_used [OF assms] charge_user_used [OF assms]
  by (auto simp: charge_path_def charged_def split: option.splits)

subsection \<open>A rename moves usage between accounts\<close>

text \<open>
  The reference: the moved files leave the accounts of the source, the overwritten
  file leaves those of the target, and the moved files are added there.
\<close>

definition moved_usage ::
    "User \<Rightarrow> string \<Rightarrow> string \<Rightarrow> int \<Rightarrow> int \<times> int \<Rightarrow> (account \<Rightarrow> (int \<times> int) option) \<Rightarrow> account \<Rightarrow> (int \<times> int) option" where
  "moved_usage u p q initialSize d f =
     (let f = add_usage (charged u p) (neg_pair d) f;
          f = (if initialSize = -1 then f else add_usage (charged u q) (neg_pair (1, initialSize)) f)
      in add_usage (charged u q) d f)"

lemma neg_pair_eq: "neg_pair (n, z) = (neg64 n, neg64 z)"
  by (simp add: neg_pair_def)

lemma add_usage_add: "add_usage A d (add_usage A d' f) = add_usage A (add_pair d' d) f"
  by (rule ext) (auto simp: add_usage_def option.map_comp comp_def add_pair_ac(1))

lemma add_usage_commute: "add_usage A d (add_usage B d' f) = add_usage B d' (add_usage A d f)"
  by (rule ext) (auto simp: add_usage_def option.map_comp comp_def add_pair_swap)

lemma add_usage_cancel: "add_usage A d (add_usage A (neg_pair d) f) = add_usage A (0, 0) f"
  by (simp add: add_usage_add add_pair_ac(2))

lemma add_usage_zero_in: "add_usage A d (add_usage B (0, 0) f) = add_usage A d f" if "add_usage B (0, 0) f = f" for A B d f
  using that by simp

lemma sub_as_add: "add_pair (neg_pair (1, i)) (1, z) = (0, sub64 z i)"
  by (simp add: add_pair_def neg_pair_def add64_def neg64_def sub64_def i64_id in_i64_def)

lemma moved_same:
  assumes "tracked E s" and "charged u p = charged u q"
  shows "moved_usage u p q i d (used_by E s) =
    (if i = -1 then used_by E s else add_usage (charged u q) (neg_pair (1, i)) (used_by E s))"
proof -
  have "add_usage (charged u q) d (add_usage (charged u q) (neg_pair d) (used_by E s)) = used_by E s"
    using used_by_zero [OF assms(1)] by (simp add: add_usage_cancel)
  then show ?thesis
    using assms(2) add_usage_commute [of "charged u q" d "charged u q" "neg_pair (1, i)"]
    by (simp add: moved_usage_def)
qed

lemma moved_other:
  assumes "i \<noteq> -1 \<longrightarrow> n = 1"
  shows "moved_usage u p q i (n, z) f =
    add_usage (charged u q) (if i = -1 then (n, z) else (0, sub64 z i)) (add_usage (charged u p) (neg_pair (n, z)) f)"
  using assms by (simp add: moved_usage_def add_usage_add sub_as_add)

text \<open>A user's folders have distinct names.\<close>

definition distinct_folders :: "User \<Rightarrow> bool" where
  "distinct_folders u \<longleftrightarrow> (\<forall>v \<in> set (u_VirtualFolders u). \<forall>w \<in> set (u_VirtualFolders u). vf_Name v = vf_Name w \<longrightarrow> v = w)"

lemma GetVirtualFolderForPath_mem: "GetVirtualFolderForPath u p = Some v \<Longrightarrow> v \<in> set (u_VirtualFolders u)"
  by (auto simp: GetVirtualFolderForPath_def folder_at_def find_Some_iff dest!: first_some_SomeD split: if_splits)

lemma updateQuotaAfterRename_used:
  assumes "tracked E s" and "distinct_folders (cs_user s)" and "moved_size E fs path s = Inr (n, z)"
    and "i \<noteq> -1 \<longrightarrow> n = 1" and "updateQuotaAfterRename E fs p q path i s = (e, s')"
  shows "e = None \<and> used_by E s' = moved_usage (cs_user s) p q i (n, z) (used_by E s)"
proof -
  let ?u = "cs_user s"
  have t: "qc_TrackQuota (ce_quota E) \<noteq> 0" using assms(1) by (simp add: tracked_def)
  note D = updateQuotaAfterRename_def Let_def t assms(3) updateQuotaMoveBetweenVFolders_def
    updateQuotaMoveFromVFolder_def updateQuotaMoveToVFolder_def
  have neg1: "(-1, neg64 i) = neg_pair (1, i)" by (simp add: neg_pair_def neg64_def i64_def)
  show ?thesis
  proof (cases "GetVirtualFolderForPath ?u (path_Dir p)")
    case None
    note src = None
    then have p: "charged ?u p = {UserAccount}" by (simp add: charged_def)
    show ?thesis
    proof (cases "GetVirtualFolderForPath ?u (path_Dir q)")
      case None
      then have q: "charged ?u q = {UserAccount}" by (simp add: charged_def)
      then show ?thesis
        using assms(5) src None t charge_user_used [OF assms(1), of "-1" "neg64 i"]
          moved_same [OF assms(1), of ?u p q i "(n, z)"] p neg1
        by (cases "i = -1") (simp_all add: updateQuotaAfterRename_def)
    next
      case (Some w)
      then have q: "charged ?u q = folder_accounts w" by (simp add: charged_def)
      show ?thesis
        using assms(5) src Some charge_user_used [OF assms(1), of "neg64 n" "neg64 z"]
          charge_vfolder_used [of E "charge_user E (neg64 n) (neg64 z) s" w] p q
        unfolding moved_other [OF assms(4)] by (cases "i = -1") (auto simp: D neg_pair_eq)
    qed
  next
    case (Some v)
    note src = Some
    then have p: "charged ?u p = folder_accounts v" by (simp add: charged_def)
    show ?thesis
    proof (cases "GetVirtualFolderForPath ?u (path_Dir q)")
      case None
      then have q: "charged ?u q = {UserAccount}" by (simp add: charged_def)
      show ?thesis
        using assms(5) src None charge_vfolder_used [OF assms(1), of v "neg64 n" "neg64 z"]
          charge_user_used [of E "charge_vfolder E v (neg64 n) (neg64 z) s"] p q
        unfolding moved_other [OF assms(4)] by (cases "i = -1") (auto simp: D neg_pair_eq)
    next
      case (Some w)
      then have q: "charged ?u q = folder_accounts w" by (simp add: charged_def)
      show ?thesis
      proof (cases "vf_Name v = vf_Name w")
        case True
        then have "v = w"
          using assms(2) GetVirtualFolderForPath_mem src Some unfolding distinct_folders_def by blast
        then show ?thesis
          using assms(4,5) src Some charge_vfolder_used [OF assms(1), of w "neg64 n" "neg64 i"]
            moved_same [OF assms(1), of ?u p q i "(n, z)"] p q
          by (cases "i = -1") (simp_all add: D neg_pair_eq)
      next
        case False
        then show ?thesis
          using assms(5) src Some charge_vfolder_used [OF assms(1), of v "neg64 n" "neg64 z"]
            charge_vfolder_used [of E "charge_vfolder E v (neg64 n) (neg64 z) s" w] p q
          unfolding moved_other [OF assms(4)] by (cases "i = -1") (auto simp: D neg_pair_eq)
      qed
    qed
  qed
qed

lemma used_by_cong: "cs_quota s' = cs_quota s \<Longrightarrow> cs_user s' = cs_user s \<Longrightarrow> used_by E s' = used_by E s"
  by (simp only: used_by_def fun_eq_iff) simp

lemma charges_world [simp]:
  "cs_world (charge_vfolder E v n z s) = cs_world s" "cs_conn (charge_vfolder E v n z s) = cs_conn s"
  by (simp_all add: charge_vfolder_def Let_def)

lemma updateQuotaAfterRename_frame:
  "cs_world (snd (updateQuotaAfterRename E fs p q path i s)) = cs_world s"
  "cs_conn (snd (updateQuotaAfterRename E fs p q path i s)) = cs_conn s"
  by (auto simp: updateQuotaAfterRename_def updateQuotaMoveBetweenVFolders_def updateQuotaMoveFromVFolder_def
      updateQuotaMoveToVFolder_def Let_def split: sum.splits option.splits)

lemma moved_size_cong: "cs_world s' = cs_world s \<Longrightarrow> moved_size E fs path s' = moved_size E fs path s"
  by (simp only: moved_size_def)


subsection \<open>What the space checks guarantee\<close>


text \<open>
  C19: the limit that is computed for an upload is enough: if not more than the
  limit is written, or anything where the limit is 0, the usage stays within the
  quota and the file within the user's maximum size, for resumed and for new
  uploads.
\<close>

theorem GetMaxWriteSize_bounds:
  assumes "GetMaxWriteSize protocol maxUpload Q isResume fileSize supported = Inr r"
    and "Q = space_result False quotaSize quotaFiles (Inr (usedFiles, usedSize))" "q_HasSpace Q"
    and "0 \<le> usedSize" "0 \<le> fileSize" "in_i64 (quotaSize + fileSize)" "in_i64 maxUpload"
    and "r > 0 \<longrightarrow> written \<le> r"
  shows "(quotaSize > 0 \<longrightarrow> usedSize + (if isResume then written else written - fileSize) \<le> quotaSize) \<and>
    (maxUpload > 0 \<longrightarrow> (if isResume then fileSize + written else written) \<le> maxUpload)"
proof -
  have rem: "GetRemainingSize Q = (if quotaSize > 0 then quotaSize - usedSize else 0)" "quotaSize > 0 \<Longrightarrow> usedSize < quotaSize"
    using assms(2-7) by (auto simp: space_result_def GetRemainingSize_def in_i64_def intro!: sub64_id)
  have sub: "maxUpload > 0 \<Longrightarrow> fileSize < maxUpload \<Longrightarrow> sub64 maxUpload fileSize = maxUpload - fileSize"
    using assms(5,7) by (intro sub64_id) (auto simp: in_i64_def)
  have add: "quotaSize > 0 \<Longrightarrow> add64 (quotaSize - usedSize) fileSize = quotaSize - usedSize + fileSize"
    using assms(4-6) rem(2) by (intro add64_id) (auto simp: in_i64_def)
  show ?thesis
    using assms(1,5,8) rem sub add by (cases isResume) (auto simp: GetMaxWriteSize_def Let_def split: if_splits)
qed

subsection \<open>Examples\<close>

lemma sample_tracked: "tracked (mem_env tracking) sample_state" "distinct_folders (cs_user sample_state)"
  using sample_inv
  by (simp_all add: tracked_def distinct_folders_def mem_env_def tracking_def mem_state_def NewBaseConnection_def sample_user_def)

lemma sample_used:
  "used_by (mem_env tracking) sample_state UserAccount = Some (3, 50)"
  "used_by (mem_env tracking) sample_state (FolderAccount ''f'') = Some (1, 10)"
  by (simp_all add: used_by_user used_by_folder user_used_eq folder_used_eq mem_env_def tracking_def mem_state_def
      NewBaseConnection_def sample_handle_def empty_handle_def sample_user_def sample_folder_def gm_get_def
      getUserPendingQuota_def getFolderPendingQuota_def pending_get_def newQuotaUpdater_def add_pair_def in_i64_def)

abbreviation "moved_state \<equiv> rename_resolved (mem_env tracking) () () ''/r/x'' ''/r/v/x'' ''/x'' ''/v/x'' sample_state"



theorem GetMaxWriteSize_bounds_witness:
  "GetMaxWriteSize ProtocolSFTP 200 (space_result False 100 10 (Inr (1, 10))) False 30 True = Inr 120 \<and>
   (10 + (120 - 30) :: int) \<le> 100"
proof -
  have g: "GetMaxWriteSize ProtocolSFTP 200 (space_result False 100 10 (Inr (1, 10))) False 30 True = Inr 120" by code_simp
  have "q_HasSpace (space_result False 100 10 (Inr (1, 10)))" by code_simp
  then show ?thesis using GetMaxWriteSize_bounds [OF g refl, of 120] g by (simp add: in_i64_def)
qed

end
