(* ===== verification/Transfers.thy ===== *)
theory Transfers
  imports ConnectionQuota
begin

text \<open>
  \<^verbatim>\<open>common/transfer.go\<close>: the life of a transfer from its registration at the
  connection to its close, with the quota update of an upload. A function returns
  the changed transfer; \<open>Close\<close> unregisters it. Metrics and logs are left out.
\<close>

subsection \<open>Registration\<close>

definition NewBaseTransfer ::
    "int \<Rightarrow> 'w opened \<Rightarrow> string \<Rightarrow> string \<Rightarrow> int \<Rightarrow> int \<Rightarrow> int \<Rightarrow> int \<Rightarrow> bool \<Rightarrow> 'fs \<Rightarrow> ('fs, 'w) cstate
       \<Rightarrow> ('fs, 'w) BaseTransfer \<times> ('fs, 'w) cstate" where
  "NewBaseTransfer now opened fsPath requestPath transferType minWriteOffset initialSize maxWriteSize isNewFile fs s =
     (case GetTransferID (cs_conn s) of
        (tid, conn) \<Rightarrow>
          (let t = \<lparr>bt_ID = tid, bt_BytesSent = 0, bt_BytesReceived = 0, bt_Fs = fs, bt_File = op_file opened,
                    bt_cancelFn = op_cancel opened, bt_fsPath = fsPath, bt_requestPath = requestPath, bt_start = now,
                    bt_MaxWriteSize = maxWriteSize, bt_MinWriteOffset = minWriteOffset, bt_InitialSize = initialSize,
                    bt_isNewFile = isNewFile, bt_transferType = transferType, bt_AbortTransfer = 0, bt_ErrTransfer = None\<rparr>
           in (t, s\<lparr>cs_conn := AddTransfer t conn\<rparr>)))"

text \<open>The registered transfer with an identifier, and storing a changed one.\<close>

definition get_transfer :: "64 word \<Rightarrow> ('fs, 'w) cstate \<Rightarrow> ('fs, 'w) BaseTransfer option" where
  "get_transfer tid s = List.find (\<lambda>t. bt_ID t = tid) (bc_activeTransfers (cs_conn s))"

definition put_transfer :: "('fs, 'w) BaseTransfer \<Rightarrow> ('fs, 'w) cstate \<Rightarrow> ('fs, 'w) cstate" where
  "put_transfer t s =
     s\<lparr>cs_conn := (cs_conn s)\<lparr>bc_activeTransfers :=
         map (\<lambda>t'. if bt_ID t' = bt_ID t then t else t') (bc_activeTransfers (cs_conn s))\<rparr>\<rparr>"

subsection \<open>Errors\<close>

definition TransferError ::
    "goerr \<Rightarrow> ('fs, 'w) BaseTransfer \<Rightarrow> 'w \<Rightarrow> ('fs, 'w) BaseTransfer \<times> 'w" where
  "TransferError err t w =
     (if bt_ErrTransfer t \<noteq> None then (t, w)
      else (t\<lparr>bt_ErrTransfer := Some err\<rparr>, case bt_cancelFn t of Some cancel \<Rightarrow> cancel w | None \<Rightarrow> w))"

subsection \<open>Closing\<close>

text \<open>The size of the uploaded file; a partial encrypted file is removed.\<close>

definition getUploadFileSize ::
    "('fs, 'w) Fs \<Rightarrow> ('fs, 'w) BaseTransfer \<Rightarrow> 'w \<Rightarrow> (goerr + int) \<times> 'w" where
  "getUploadFileSize F t w =
     ((case fs_Stat F (bt_Fs t) w (bt_fsPath t) of Inl e \<Rightarrow> Inl e | Inr info \<Rightarrow> Inr (os_Size info)),
      if IsCryptOsFs F (bt_Fs t) \<and> bt_ErrTransfer t \<noteq> None then snd (fs_Remove F (bt_Fs t) (bt_fsPath t) False w) else w)"

definition transfer_updateQuota ::
    "('fs, 'w) cenv \<Rightarrow> int \<Rightarrow> int \<Rightarrow> ('fs, 'w) BaseTransfer \<Rightarrow> ('fs, 'w) cstate \<Rightarrow> bool \<times> ('fs, 'w) cstate" where
  "transfer_updateQuota E numFiles fileSize t s =
     (if bt_File t = None \<and> bt_ErrTransfer t \<noteq> None then (False, s)
      else
        (let sizeDiff = sub64 fileSize (bt_InitialSize t)
         in if bt_transferType t = TransferUpload \<and> (numFiles \<noteq> 0 \<or> sizeDiff > 0)
            then (True, charge_path E (bt_requestPath t) numFiles sizeDiff s)
            else (False, s)))"

text \<open>A partial file that has been removed counts neither as a file nor with its size.\<close>

definition dropped ::
    "goerr option \<Rightarrow> int \<Rightarrow> ('fs, 'w) BaseTransfer \<Rightarrow> int \<times> ('fs, 'w) BaseTransfer" where
  "dropped err numFiles t =
     (if err = None then (numFiles - 1, t\<lparr>bt_BytesReceived := 0, bt_MinWriteOffset := 0\<rparr>) else (numFiles, t))"

text \<open>The file of a denied upload is removed, that of an atomic upload is moved into place or removed.\<close>

definition settle_file ::
    "('fs, 'w) cenv \<Rightarrow> int \<Rightarrow> ('fs, 'w) BaseTransfer \<Rightarrow> 'w \<Rightarrow> goerr option \<times> int \<times> ('fs, 'w) BaseTransfer \<times> 'w" where
  "settle_file E numFiles t w =
     (case bt_File t of
        None \<Rightarrow> (None, numFiles, t, w)
      | Some name \<Rightarrow>
          if bt_ErrTransfer t = Some ErrQuotaExceeded then
            (case fs_Remove (ce_F E) (bt_Fs t) name False w of
               (err, w) \<Rightarrow> (case dropped err numFiles t of (n, t) \<Rightarrow> (err, n, t, w)))
          else if bt_transferType t = TransferUpload \<and> name \<noteq> bt_fsPath t then
            (if bt_ErrTransfer t = None \<or> ce_UploadMode E = UploadModeAtomicWithResume then
               (case fs_Rename (ce_F E) (bt_Fs t) name (bt_fsPath t) w of (err, w) \<Rightarrow> (err, numFiles, t, w))
             else
               (case fs_Remove (ce_F E) (bt_Fs t) name False w of
                  (err, w) \<Rightarrow> (case dropped err numFiles t of (n, t) \<Rightarrow> (err, n, t, w))))
          else (None, numFiles, t, w))"

definition finish_upload ::
    "('fs, 'w) cenv \<Rightarrow> int \<Rightarrow> ('fs, 'w) BaseTransfer \<Rightarrow> ('fs, 'w) cstate \<Rightarrow> ('fs, 'w) cstate" where
  "finish_upload E numFiles t s =
     (case getUploadFileSize (ce_F E) t (cs_world s) of
        (r, w) \<Rightarrow>
          (let fileSize = (case r of Inr sz \<Rightarrow> sz | Inl _ \<Rightarrow> add64 (bt_BytesReceived t) (bt_MinWriteOffset t));
               s = snd (transfer_updateQuota E numFiles fileSize t (s\<lparr>cs_world := w\<rparr>))
           in notify (file_action s ''upload'' (bt_fsPath t) '''' fileSize (bt_ErrTransfer t)) s))"

definition Close ::
    "('fs, 'w) cenv \<Rightarrow> ('fs, 'w) BaseTransfer \<Rightarrow> ('fs, 'w) cstate \<Rightarrow> goerr option \<times> ('fs, 'w) cstate" where
  "Close E t s =
     (case settle_file E (if bt_isNewFile t then 1 else 0) t (cs_world s) of
        (err, numFiles, t, w) \<Rightarrow>
          (let s = s\<lparr>cs_world := w\<rparr>;
               s = (if bt_transferType t = TransferDownload
                    then notify (file_action s ''download'' (bt_fsPath t) '''' (bt_BytesSent t) (bt_ErrTransfer t)) s
                    else finish_upload E numFiles t s)
           in (if err = None then bt_ErrTransfer t else err,
               s\<lparr>cs_conn := RemoveTransfer (bt_ID t) (cs_conn s)\<rparr>)))"

text \<open>The time to sleep, in milliseconds; \<open>now\<close> is in nanoseconds.\<close>

definition HandleThrottle :: "int \<Rightarrow> User \<Rightarrow> ('fs, 'w) BaseTransfer \<Rightarrow> int" where
  "HandleThrottle now user t =
     (let wantedBandwidth = (if bt_transferType t = TransferDownload then u_DownloadBandwidth user else u_UploadBandwidth user);
          trasferredBytes = (if bt_transferType t = TransferDownload then bt_BytesSent t else bt_BytesReceived t)
      in if wantedBandwidth > 0 then
           (let realElapsed = quot64 (now - bt_start t) 1000000;
                wantedElapsed = quot64 (mul64 1000 (quot64 trasferredBytes 1024)) wantedBandwidth
            in if wantedElapsed > realElapsed then sub64 wantedElapsed realElapsed else 0)
         else 0)"

end
