(* ===== verification/SftpHandler.thy ===== *)
theory SftpHandler
  imports Transfers
begin

text \<open>
  \<^verbatim>\<open>sftpd/handler.go\<close> and \<^verbatim>\<open>sftpd/transfer.go\<close>: the requests of an SFTP client on
  a connection, the two ways an upload starts, the writes and reads of a transfer
  and its end. A transfer is named by its identifier at the connection; requests
  on a transfer that is no longer registered are not made by the SFTP library and
  return \<open>None\<close> here. Times are in nanoseconds.
\<close>

subsection \<open>Transfers\<close>

text \<open>Where a transfer writes to and reads from: a file or pipe, by name, or a reader that fails.\<close>

datatype io_end = NoEnd | IOEnd string | FailingEnd goerr "string option"

record sftp_transfer =
  st_ID :: "64 word"
  st_writerAt :: io_end
  st_readerAt :: io_end
  st_isFinished :: bool

text \<open>\<open>pipeWriter\<close> and \<open>pipeReader\<close> are the names of the pipes, if there are any.\<close>

definition newTransfer ::
    "('fs, 'w) BaseTransfer \<Rightarrow> string option \<Rightarrow> string option \<Rightarrow> goerr option \<Rightarrow> sftp_transfer" where
  "newTransfer t pipeWriter pipeReader errForRead =
     (let failing = (\<lambda>inner. case errForRead of None \<Rightarrow> (case inner of Some n \<Rightarrow> IOEnd n | None \<Rightarrow> NoEnd)
                                            | Some e \<Rightarrow> FailingEnd e inner);
          ends = (case bt_File t of
                    Some name \<Rightarrow> (IOEnd name, failing (Some name))
                  | None \<Rightarrow>
                      (case pipeWriter of
                         Some w \<Rightarrow> (IOEnd w, NoEnd)
                       | None \<Rightarrow> (case pipeReader of Some r \<Rightarrow> (NoEnd, failing (Some r)) | None \<Rightarrow> (NoEnd, NoEnd))));
          reader = (if bt_File t = None \<and> errForRead \<noteq> None \<and> pipeReader = None then failing None else snd ends)
      in \<lparr>st_ID = bt_ID t, st_writerAt = fst ends, st_readerAt = reader, st_isFinished = False\<rparr>)"

definition touch :: "int \<Rightarrow> ('fs, 'w) cstate \<Rightarrow> ('fs, 'w) cstate" where
  "touch now s = s\<lparr>cs_conn := UpdateLastActivity now (cs_conn s)\<rparr>"

definition fail_transfer :: "goerr \<Rightarrow> ('fs, 'w) BaseTransfer \<Rightarrow> ('fs, 'w) cstate \<Rightarrow> ('fs, 'w) cstate" where
  "fail_transfer err t s = (case TransferError err t (cs_world s) of (t, w) \<Rightarrow> put_transfer t (s\<lparr>cs_world := w\<rparr>))"

text \<open>The end of the data is the error text \<^verbatim>\<open>EOF\<close>.\<close>

definition io_EOF :: goerr where "io_EOF = OtherErr ''EOF''"

definition read_end ::
    "('fs, 'w) Fs \<Rightarrow> 'fs \<Rightarrow> io_end \<Rightarrow> int \<Rightarrow> int \<Rightarrow> 'w \<Rightarrow> ((string \<times> goerr option) \<times> 'w) option" where
  "read_end F fs reader len off w =
     (case reader of
        NoEnd \<Rightarrow> None
      | IOEnd name \<Rightarrow> Some (io_ReadAt F fs name len off w)
      | FailingEnd e _ \<Rightarrow> Some (('''', Some e), w))"

definition ReadAt ::
    "('fs, 'w) cenv \<Rightarrow> int \<Rightarrow> sftp_transfer \<Rightarrow> int \<Rightarrow> int \<Rightarrow> ('fs, 'w) cstate
       \<Rightarrow> ((string \<times> goerr option) \<times> ('fs, 'w) cstate) option" where
  "ReadAt E now st len off s =
     (let s = touch now s
      in case get_transfer (st_ID st) s of
           None \<Rightarrow> None
         | Some t \<Rightarrow>
             (case read_end (ce_F E) (bt_Fs t) (st_readerAt st) len off (cs_world s) of
                None \<Rightarrow> None
              | Some ((bytes, err), w) \<Rightarrow>
                  (let t = t\<lparr>bt_BytesSent := add64 (bt_BytesSent t) (int (length bytes))\<rparr>;
                       s = put_transfer t (s\<lparr>cs_world := w\<rparr>)
                   in Some ((bytes, err),
                        case err of
                          Some e \<Rightarrow> if e \<noteq> io_EOF \<and> bt_transferType t = TransferDownload then fail_transfer e t s else s
                        | None \<Rightarrow> s))))"

definition write_error :: "int \<Rightarrow> int \<Rightarrow> goerr" where
  "write_error off minimum =
     OtherErr (''invalid write offset: '' @ fmt_int off @ '' minimum valid value: '' @ fmt_int minimum)"

definition WriteAt ::
    "('fs, 'w) cenv \<Rightarrow> int \<Rightarrow> sftp_transfer \<Rightarrow> string \<Rightarrow> int \<Rightarrow> ('fs, 'w) cstate
       \<Rightarrow> ((int \<times> goerr option) \<times> ('fs, 'w) cstate) option" where
  "WriteAt E now st bytes off s =
     (let s = touch now s
      in case get_transfer (st_ID st) s of
           None \<Rightarrow> None
         | Some t \<Rightarrow>
             if off < bt_MinWriteOffset t then
               Some ((0, Some (write_error off (bt_MinWriteOffset t))),
                     fail_transfer (write_error off (bt_MinWriteOffset t)) t s)
             else
               (case st_writerAt st of
                  IOEnd name \<Rightarrow>
                    (case io_WriteAt (ce_F E) (bt_Fs t) name bytes off (cs_world s) of
                       ((n, err), w) \<Rightarrow>
                         (let t = t\<lparr>bt_BytesReceived := add64 (bt_BytesReceived t) n\<rparr>;
                              s = put_transfer t (s\<lparr>cs_world := w\<rparr>);
                              err = (if bt_MaxWriteSize t > 0 \<and> err = None \<and> bt_BytesReceived t > bt_MaxWriteSize t
                                     then Some ErrQuotaExceeded else err)
                          in Some ((n, err), case err of Some e \<Rightarrow> fail_transfer e t s | None \<Rightarrow> s)))
                | _ \<Rightarrow> None))"

text \<open>An error of the pipe of an upload is recorded, so that the quota is not updated.\<close>

definition closeIO ::
    "('fs, 'w) cenv \<Rightarrow> sftp_transfer \<Rightarrow> ('fs, 'w) BaseTransfer \<Rightarrow> 'w \<Rightarrow> goerr option \<times> ('fs, 'w) BaseTransfer \<times> 'w" where
  "closeIO E st t w =
     (case bt_File t of
        Some name \<Rightarrow> (case io_Close (ce_F E) (bt_Fs t) name w of (err, w) \<Rightarrow> (err, t, w))
      | None \<Rightarrow>
          (case st_writerAt st of
             IOEnd name \<Rightarrow>
               (case io_Close (ce_F E) (bt_Fs t) name w of
                  (err, w) \<Rightarrow>
                    (err, (if err \<noteq> None \<and> bt_ErrTransfer t = None then t\<lparr>bt_ErrTransfer := err\<rparr> else t), w))
           | _ \<Rightarrow>
               (case st_readerAt st of
                  IOEnd name \<Rightarrow> (case io_Close (ce_F E) (bt_Fs t) name w of (err, w) \<Rightarrow> (err, t, w))
                | FailingEnd _ (Some name) \<Rightarrow> (case io_Close (ce_F E) (bt_Fs t) name w of (err, w) \<Rightarrow> (err, t, w))
                | _ \<Rightarrow> (None, t, w))))"

definition sftp_Close ::
    "('fs, 'w) cenv \<Rightarrow> sftp_transfer \<Rightarrow> ('fs, 'w) cstate \<Rightarrow> (goerr option \<times> sftp_transfer \<times> ('fs, 'w) cstate) option" where
  "sftp_Close E st s =
     (if st_isFinished st then Some (Some ErrTransferClosed, st, s)
      else
        (case get_transfer (st_ID st) s of
           None \<Rightarrow> None
         | Some t \<Rightarrow>
             (case closeIO E st t (cs_world s) of
                (err, t, w) \<Rightarrow>
                  (case Close E t (put_transfer t (s\<lparr>cs_world := w\<rparr>)) of
                     (errBaseClose, s) \<Rightarrow>
                       (let err = (if errBaseClose \<noteq> None then errBaseClose else err)
                        in Some (map_option (fs_error E s (bt_Fs t)) err, st\<lparr>st_isFinished := True\<rparr>, s))))))"

subsection \<open>Opening files\<close>

record FileOpenFlags =
  ff_Read :: bool
  ff_Write :: bool
  ff_Append :: bool
  ff_Creat :: bool
  ff_Trunc :: bool
  ff_Excl :: bool

text \<open>The flags of the \<^verbatim>\<open>os\<close> package on Linux.\<close>

abbreviation (input) O_WRONLY :: int where "O_WRONLY \<equiv> 1"
abbreviation (input) O_RDWR :: int where "O_RDWR \<equiv> 2"
abbreviation (input) O_CREATE :: int where "O_CREATE \<equiv> 64"
abbreviation (input) O_EXCL :: int where "O_EXCL \<equiv> 128"
abbreviation (input) O_TRUNC :: int where "O_TRUNC \<equiv> 512"

definition getOSOpenFlags :: "FileOpenFlags \<Rightarrow> int" where
  "getOSOpenFlags f =
     (let osFlags = (if ff_Read f \<and> ff_Write f then O_RDWR else if ff_Write f then O_WRONLY else 0);
          osFlags = (if ff_Creat f then osFlags OR O_CREATE else osFlags);
          osFlags = (if ff_Trunc f then osFlags OR O_TRUNC else osFlags)
      in if ff_Excl f then osFlags OR O_EXCL else osFlags)"

definition IsAtomicUploadEnabled :: "('fs, 'w) cenv \<Rightarrow> bool" where
  "IsAtomicUploadEnabled E = (ce_UploadMode E = UploadModeAtomic \<or> ce_UploadMode E = UploadModeAtomicWithResume)"

definition pipe_of :: "'w opened \<Rightarrow> string \<Rightarrow> string option" where
  "pipe_of opened path = (case op_file opened of Some _ \<Rightarrow> None | None \<Rightarrow> Some path)"

definition Fileread ::
    "('fs, 'w) cenv \<Rightarrow> int \<Rightarrow> string \<Rightarrow> ('fs, 'w) cstate \<Rightarrow> (goerr + sftp_transfer) \<times> ('fs, 'w) cstate" where
  "Fileread E now filepath s =
     (let s = touch now s
      in if \<not> HasPerm (cs_user s) PermDownload (path_Dir filepath) then (Inl SSHFxPermissionDenied, s)
         else if \<not> IsFileAllowed (cs_user s) filepath then (Inl SSHFxPermissionDenied, s)
         else
           (case GetFsAndResolvedPath E filepath s of
              (Inl e, s) \<Rightarrow> (Inl e, s)
            | (Inr (fs, p), s) \<Rightarrow>
                (case fs_Open (ce_F E) fs p 0 (cs_world s) of
                   (Inl e, w) \<Rightarrow> (Inl (fs_error E s fs e), s\<lparr>cs_world := w\<rparr>)
                 | (Inr opened, w) \<Rightarrow>
                     (case NewBaseTransfer now opened p filepath TransferDownload 0 0 0 False fs (s\<lparr>cs_world := w\<rparr>) of
                        (t, s) \<Rightarrow> (Inr (newTransfer t None (pipe_of opened p) None), s)))))"

definition handleSFTPUploadToNewFile ::
    "('fs, 'w) cenv \<Rightarrow> int \<Rightarrow> 'fs \<Rightarrow> string \<Rightarrow> string \<Rightarrow> string \<Rightarrow> goerr option \<Rightarrow> ('fs, 'w) cstate
       \<Rightarrow> (goerr + sftp_transfer) \<times> ('fs, 'w) cstate" where
  "handleSFTPUploadToNewFile E now fs resolvedPath filePath requestPath errForRead s =
     (let quotaResult = HasSpace E True False requestPath s
      in if \<not> q_HasSpace quotaResult then (Inl SSHFxFailure, s)
         else
           (case fs_Create (ce_F E) fs filePath 0 (cs_world s) of
              (Inl e, w) \<Rightarrow> (Inl (fs_error E s fs e), s\<lparr>cs_world := w\<rparr>)
            | (Inr opened, w) \<Rightarrow>
                (let w = SetPathPermissions (ce_F E) (ce_windows E) fs filePath (User_GetUID (cs_user s)) (User_GetGID (cs_user s)) w;
                     maxWriteSize = (case GetMaxWriteSize (cs_protocol s) (fl_MaxUploadFileSize (u_Filters (cs_user s))) quotaResult
                                            False 0 (fs_IsUploadResumeSupported (ce_F E) fs) of
                                       Inl _ \<Rightarrow> 0 | Inr m \<Rightarrow> m)
                 in case NewBaseTransfer now opened resolvedPath requestPath TransferUpload 0 0 maxWriteSize True fs
                           (s\<lparr>cs_world := w\<rparr>) of
                      (t, s) \<Rightarrow> (Inr (newTransfer t (pipe_of opened filePath) None errForRead), s))))"

text \<open>The file is opened in place, or moved to the temporary path first.\<close>

definition open_existing ::
    "('fs, 'w) cenv \<Rightarrow> 'fs \<Rightarrow> int \<Rightarrow> string \<Rightarrow> string \<Rightarrow> 'w \<Rightarrow> (goerr + 'w opened) \<times> 'w" where
  "open_existing E fs osFlags resolvedPath filePath w =
     (if IsAtomicUploadEnabled E \<and> fs_IsAtomicUploadSupported (ce_F E) fs then
        (case fs_Rename (ce_F E) fs resolvedPath filePath w of
           (Some e, w) \<Rightarrow> (Inl e, w)
         | (None, w) \<Rightarrow> fs_Create (ce_F E) fs filePath osFlags w)
      else fs_Create (ce_F E) fs filePath osFlags w)"

definition handleSFTPUploadToExistingFile ::
    "('fs, 'w) cenv \<Rightarrow> int \<Rightarrow> 'fs \<Rightarrow> FileOpenFlags \<Rightarrow> string \<Rightarrow> string \<Rightarrow> int \<Rightarrow> string \<Rightarrow> goerr option \<Rightarrow> ('fs, 'w) cstate
       \<Rightarrow> (goerr + sftp_transfer) \<times> ('fs, 'w) cstate" where
  "handleSFTPUploadToExistingFile E now fs pflags resolvedPath filePath fileSize requestPath errForRead s =
     (let quotaResult = HasSpace E False False requestPath s;
          osFlags = getOSOpenFlags pflags;
          isTruncate = (osFlags AND O_TRUNC \<noteq> 0);
          isResume = (ff_Append pflags \<and> \<not> isTruncate)
      in if \<not> q_HasSpace quotaResult then (Inl SSHFxFailure, s)
         else
           (case GetMaxWriteSize (cs_protocol s) (fl_MaxUploadFileSize (u_Filters (cs_user s))) quotaResult isResume fileSize
                   (fs_IsUploadResumeSupported (ce_F E) fs) of
              Inl e \<Rightarrow> (Inl e, s)
            | Inr maxWriteSize \<Rightarrow>
                (case open_existing E fs osFlags resolvedPath filePath (cs_world s) of
                   (Inl e, w) \<Rightarrow> (Inl (fs_error E s fs e), s\<lparr>cs_world := w\<rparr>)
                 | (Inr opened, w) \<Rightarrow>
                     (let s = s\<lparr>cs_world := w\<rparr>;
                          truncated = (\<not> isResume \<and> IsLocalOrSFTPFs (ce_F E) fs \<and> isTruncate);
                          minWriteOffset = (if isResume then fileSize else 0);
                          initialSize = (if truncated then 0 else fileSize);
                          s = (if truncated then charge_path E requestPath 0 (neg64 fileSize) s else s);
                          s = s\<lparr>cs_world := SetPathPermissions (ce_F E) (ce_windows E) fs filePath
                                  (User_GetUID (cs_user s)) (User_GetGID (cs_user s)) (cs_world s)\<rparr>
                      in case NewBaseTransfer now opened resolvedPath requestPath TransferUpload minWriteOffset initialSize
                                maxWriteSize False fs s of
                           (t, s) \<Rightarrow> (Inr (newTransfer t (pipe_of opened filePath) None errForRead), s)))))"

definition handleFilewrite ::
    "('fs, 'w) cenv \<Rightarrow> int \<Rightarrow> string \<Rightarrow> FileOpenFlags \<Rightarrow> ('fs, 'w) cstate \<Rightarrow> (goerr + sftp_transfer) \<times> ('fs, 'w) cstate" where
  "handleFilewrite E now filepath pflags s =
     (let s = touch now s
      in if \<not> IsFileAllowed (cs_user s) filepath then (Inl SSHFxPermissionDenied, s)
         else
           (case GetFsAndResolvedPath E filepath s of
              (Inl e, s) \<Rightarrow> (Inl e, s)
            | (Inr (fs, p), s) \<Rightarrow>
                (let filePath = (if IsAtomicUploadEnabled E \<and> fs_IsAtomicUploadSupported (ce_F E) fs
                                 then fs_GetAtomicUploadPath (ce_F E) fs (cs_world s) p else p);
                     errForRead = (if \<not> HasPerm (cs_user s) PermDownload (path_Dir filepath) then Some os_ErrPermission
                                   else if \<not> HasOpenRWSupport (ce_F E) fs \<and> ff_Read pflags then Some SSHFxOpUnsupported
                                   else None);
                     stat = fs_Lstat (ce_F E) fs (cs_world s) p
                 in if (case stat of Inr fi \<Rightarrow> os_IsSymlink fi | Inl e \<Rightarrow> fs_IsNotExist (ce_F E) fs e) then
                      (if \<not> HasPerm (cs_user s) PermUpload (path_Dir filepath) then (Inl SSHFxPermissionDenied, s)
                       else handleSFTPUploadToNewFile E now fs p filePath filepath errForRead s)
                    else
                      (case stat of
                         Inl e \<Rightarrow> (Inl (fs_error E s fs e), s)
                       | Inr fi \<Rightarrow>
                           if os_IsDir fi then (Inl SSHFxOpUnsupported, s)
                           else if \<not> HasPerm (cs_user s) PermOverwrite (path_Dir filepath) then (Inl SSHFxPermissionDenied, s)
                           else handleSFTPUploadToExistingFile E now fs pflags p filePath (os_Size fi) filepath errForRead s))))"

subsection \<open>Commands\<close>

text \<open>The attributes of a request and which of them are set; times are in seconds.\<close>

record sftp_attrs =
  at_Permissions :: bool
  at_UidGid :: bool
  at_Acmodtime :: bool
  at_HasSize :: bool
  at_Mode :: FileMode
  at_UID :: "32 word"
  at_GID :: "32 word"
  at_Atime :: "32 word"
  at_Mtime :: "32 word"
  at_Size :: "64 word"

definition handleSFTPSetstat ::
    "('fs, 'w) cenv \<Rightarrow> string \<Rightarrow> sftp_attrs \<Rightarrow> ('fs, 'w) cstate \<Rightarrow> goerr option \<times> ('fs, 'w) cstate" where
  "handleSFTPSetstat E filepath a s =
     (let attrs = \<lparr>sa_Mode = 0, sa_Atime = 0, sa_Mtime = 0, sa_UID = 0, sa_GID = 0, sa_Flags = 0, sa_Size = 0\<rparr>;
          attrs = (if at_Permissions a
                   then attrs\<lparr>sa_Flags := sa_Flags attrs OR StatAttrPerms, sa_Mode := at_Mode a\<rparr> else attrs);
          attrs = (if at_UidGid a
                   then attrs\<lparr>sa_Flags := sa_Flags attrs OR StatAttrUIDGID, sa_UID := uint (at_UID a), sa_GID := uint (at_GID a)\<rparr>
                   else attrs);
          attrs = (if at_Acmodtime a
                   then attrs\<lparr>sa_Flags := sa_Flags attrs OR StatAttrTimes, sa_Atime := uint (at_Atime a) * 1000000000,
                              sa_Mtime := uint (at_Mtime a) * 1000000000\<rparr> else attrs);
          attrs = (if at_HasSize a
                   then attrs\<lparr>sa_Flags := sa_Flags attrs OR StatAttrSize, sa_Size := sint (at_Size a)\<rparr> else attrs)
      in SetStat E filepath attrs s)"

definition handleSFTPRemove ::
    "('fs, 'w) cenv \<Rightarrow> string \<Rightarrow> ('fs, 'w) cstate \<Rightarrow> goerr option \<times> ('fs, 'w) cstate" where
  "handleSFTPRemove E filepath s =
     (case GetFsAndResolvedPath E filepath s of
        (Inl e, s) \<Rightarrow> (Some e, s)
      | (Inr (fs, fsPath), s) \<Rightarrow>
          (case fs_Lstat (ce_F E) fs (cs_world s) fsPath of
             Inl e \<Rightarrow> (Some (fs_error E s fs e), s)
           | Inr fi \<Rightarrow>
               if os_IsDir fi \<and> \<not> os_IsSymlink fi then (Some SSHFxFailure, s)
               else RemoveFile E fs fsPath filepath fi s))"

datatype sftp_cmd =
    CmdSetstat string sftp_attrs
  | CmdRename string string
  | CmdRmdir string
  | CmdMkdir string
  | CmdSymlink string string
  | CmdRemove string
  | CmdOther

text \<open>\<open>None\<close> is success, for which some branches return nil and others the status of success.\<close>

definition Filecmd ::
    "('fs, 'w) cenv \<Rightarrow> int \<Rightarrow> sftp_cmd \<Rightarrow> ('fs, 'w) cstate \<Rightarrow> goerr option \<times> ('fs, 'w) cstate" where
  "Filecmd E now cmd s =
     (let s = touch now s
      in case cmd of
           CmdSetstat p a \<Rightarrow> handleSFTPSetstat E p a s
         | CmdRename p q \<Rightarrow> Rename E p q s
         | CmdRmdir p \<Rightarrow> RemoveDir E p s
         | CmdMkdir p \<Rightarrow> CreateDir E p s
         | CmdSymlink p q \<Rightarrow> CreateSymlink E p q s
         | CmdRemove p \<Rightarrow> handleSFTPRemove E p s
         | CmdOther \<Rightarrow> (Some SSHFxOpUnsupported, s))"

datatype sftp_list = ListOf "FileInfo list" | StatOf os_FileInfo

datatype list_method = MList | MStat | MReadlink | MOther

definition sftp_Readlink ::
    "('fs, 'w) cenv \<Rightarrow> string \<Rightarrow> ('fs, 'w) cstate \<Rightarrow> (goerr + sftp_list) \<times> ('fs, 'w) cstate" where
  "sftp_Readlink E filepath s =
     (if \<not> HasPerm (cs_user s) PermListItems (path_Dir filepath) then (Inl SSHFxPermissionDenied, s)
      else
        (case GetFsAndResolvedPath E filepath s of
           (Inl e, s) \<Rightarrow> (Inl e, s)
         | (Inr (fs, p), s) \<Rightarrow>
             (case fs_Readlink (ce_F E) fs (cs_world s) p of
                Inl e \<Rightarrow> (Inl (fs_error E s fs e), s)
              | Inr target \<Rightarrow>
                  if \<not> HasPerm (cs_user s) PermListItems (path_Dir target) then (Inl SSHFxPermissionDenied, s)
                  else (Inr (StatOf (info_of (NewFileInfo target False 0 (ce_now E) True))), s))))"

definition sftp_Stat ::
    "('fs, 'w) cenv \<Rightarrow> string \<Rightarrow> int \<Rightarrow> ('fs, 'w) cstate \<Rightarrow> (goerr + sftp_list) \<times> ('fs, 'w) cstate" where
  "sftp_Stat E filepath mode s =
     (if \<not> HasPerm (cs_user s) PermListItems (path_Dir filepath) then (Inl SSHFxPermissionDenied, s)
      else (case DoStat E filepath mode s of (Inl e, s) \<Rightarrow> (Inl e, s) | (Inr fi, s) \<Rightarrow> (Inr (StatOf fi), s)))"

definition Filelist ::
    "('fs, 'w) cenv \<Rightarrow> int \<Rightarrow> list_method \<Rightarrow> string \<Rightarrow> ('fs, 'w) cstate \<Rightarrow> (goerr + sftp_list) \<times> ('fs, 'w) cstate" where
  "Filelist E now method filepath s =
     (let s = touch now s
      in case method of
           MList \<Rightarrow> (case ListDir E filepath s of (Inl e, s) \<Rightarrow> (Inl e, s) | (Inr files, s) \<Rightarrow> (Inr (ListOf files), s))
         | MStat \<Rightarrow> sftp_Stat E filepath 0 s
         | MReadlink \<Rightarrow> sftp_Readlink E filepath s
         | MOther \<Rightarrow> (Inl SSHFxOpUnsupported, s))"

definition sftp_Lstat ::
    "('fs, 'w) cenv \<Rightarrow> int \<Rightarrow> string \<Rightarrow> ('fs, 'w) cstate \<Rightarrow> (goerr + sftp_list) \<times> ('fs, 'w) cstate" where
  "sftp_Lstat E now filepath s = sftp_Stat E filepath 1 (touch now s)"

subsection \<open>Space of a directory\<close>

text \<open>The block size is divided until it does not exceed the quota.\<close>

function block_size :: "64 word \<Rightarrow> 64 word \<Rightarrow> 64 word" where
  "block_size quota bsize = (if bsize > quota then block_size quota (bsize div 4) else bsize)"
  by pat_completeness auto

termination
proof (relation "measure (\<lambda>(quota, bsize). unat bsize)")
  fix quota bsize :: "64 word"
  assume "quota < bsize"
  then have "0 < unat bsize" by (metis gr_zeroI unat_eq_0 word_not_simps(1))
  then show "((quota, bsize div 4), quota, bsize) \<in> measure (\<lambda>(quota, bsize). unat bsize)"
    by (simp add: unat_div)
qed simp

declare block_size.simps [simp del]

text \<open>The space of a storage is \<^verbatim>\<open>Frsize * Blocks\<close>.\<close>

definition with_disk_size :: "goerr + StatVFS \<Rightarrow> QuotaCheckResult \<Rightarrow> QuotaCheckResult" where
  "with_disk_size disk q =
     (if q_QuotaSize q = 0 \<or> q_QuotaFiles q = 0 then
        (case disk of
           Inl _ \<Rightarrow> q
         | Inr d \<Rightarrow>
             q\<lparr>q_QuotaSize := (if q_QuotaSize q = 0 then sint (sv_Frsize d * sv_Blocks d) else q_QuotaSize q),
               q_QuotaFiles := (if q_QuotaFiles q = 0 then sint (sv_Files d) else q_QuotaFiles q)\<rparr>)
      else q)"

definition with_default_size :: "QuotaCheckResult \<Rightarrow> QuotaCheckResult" where
  "with_default_size q =
     q\<lparr>q_QuotaSize := (if q_QuotaSize q = 0 then add64 (q_UsedSize q) (8 * 1024 * 1024 * 1024 * 1024) else q_QuotaSize q),
       q_QuotaFiles := (if q_QuotaFiles q = 0 then add64 (q_UsedFiles q) 1000000 else q_QuotaFiles q)\<rparr>"

text \<open>\<open>None\<close> is the panic of a division by zero.\<close>

definition getStatVFSFromQuotaResult :: "goerr + StatVFS \<Rightarrow> QuotaCheckResult \<Rightarrow> StatVFS option" where
  "getStatVFSFromQuotaResult disk quotaResult =
     (let q = with_default_size (with_disk_size disk quotaResult);
          bsize = block_size (of_int (q_QuotaSize q)) 4096;
          bfree = (if q_HasSpace q then of_int (sub64 (q_QuotaSize q) (q_UsedSize q)) div bsize else 0);
          ffree = (if q_HasSpace q then of_int (sub64 (q_QuotaFiles q) (q_UsedFiles q)) else 0)
      in if bsize = 0 then None
         else Some \<lparr>sv_Bsize = bsize, sv_Frsize = bsize, sv_Blocks = of_int (q_QuotaSize q) div bsize, sv_Bfree = bfree,
                    sv_Bavail = bfree, sv_Files = of_int (q_QuotaFiles q), sv_Ffree = ffree, sv_Favail = ffree,
                    sv_Namemax = 255\<rparr>)"

definition sftp_StatVFS ::
    "('fs, 'w) cenv \<Rightarrow> int \<Rightarrow> string \<Rightarrow> ('fs, 'w) cstate \<Rightarrow> (goerr + StatVFS) option \<times> ('fs, 'w) cstate" where
  "sftp_StatVFS E now filepath s =
     (let s = touch now s;
          quotaResult = HasSpace E True True (path_Join [filepath, ''fakefile.txt'']) s
      in case GetFsAndResolvedPath E filepath s of
           (Inl e, s) \<Rightarrow> (Some (Inl e), s)
         | (Inr (fs, p), s) \<Rightarrow>
             (let disk = fs_GetAvailableDiskSize (ce_F E) fs (cs_world s) p;
                  fromQuota = map_option Inr (getStatVFSFromQuotaResult disk quotaResult)
              in if \<not> q_HasSpace quotaResult then (fromQuota, s)
                 else if q_QuotaSize quotaResult = 0 \<and> q_QuotaFiles quotaResult = 0 then
                   (if disk = Inl ErrStorageSizeUnavailable then fromQuota else Some disk, s)
                 else (fromQuota, s)))"

lemma block_size_4096:
  "block_size q 4096 = (if q \<ge> 4096 then 4096 else if q \<ge> 1024 then 1024 else if q \<ge> 256 then 256 else if q \<ge> 64 then 64
     else if q \<ge> 16 then 16 else if q \<ge> 4 then 4 else if q \<ge> 1 then 1 else 0)"
proof -
  have d: "(4096 :: 64 word) div 4 = 1024" "(1024 :: 64 word) div 4 = 256" "(256 :: 64 word) div 4 = 64"
    "(64 :: 64 word) div 4 = 16" "(16 :: 64 word) div 4 = 4" "(4 :: 64 word) div 4 = 1" "(1 :: 64 word) div 4 = 0"
    by simp_all
  have s: "block_size q b = (if q \<ge> b then b else block_size q (b div 4))" for b
    by (subst block_size.simps) (simp add: not_le [symmetric])
  show ?thesis
    by (subst s [of 4096], subst d(1), subst s [of 1024], subst d(2), subst s [of 256], subst d(3), subst s [of 64], subst d(4),
        subst s [of 16], subst d(5), subst s [of 4], subst d(6), subst s [of 1], subst d(7), subst s [of 0]) simp
qed

lemma word_ge_1: "q \<noteq> 0 \<Longrightarrow> 1 \<le> q" for q :: "64 word"
  by (simp add: word_le_nat_alt Suc_le_eq unat_gt_0)

lemma block_size_bounds:
  assumes "q \<noteq> 0"
  shows "block_size q 4096 \<noteq> 0 \<and> block_size q 4096 \<le> q \<and> block_size q 4096 \<le> 4096"
proof -
  have "1 \<le> q" using assms by (rule word_ge_1)
  then show ?thesis unfolding block_size_4096 by simp
qed

lemma of_int_word_eq_0: "(of_int x :: 64 word) = 0 \<Longrightarrow> take_bit 64 x = 0"
  using word_of_int_eq_iff [where ?'a = 64, of x 0] by simp

lemma of_int_nonzero: "in_i64 x \<Longrightarrow> x \<noteq> 0 \<Longrightarrow> (of_int x :: 64 word) \<noteq> 0"
proof
  assume x: "in_i64 x" "x \<noteq> 0" "(of_int x :: 64 word) = 0"
  then have "signed_take_bit 63 x = signed_take_bit 63 0"
    unfolding signed_take_bit_eq_iff_take_bit_eq using of_int_word_eq_0 [OF x(3)] by simp
  then show False using i64_id [OF x(1)] x(2) by (simp add: i64_def)
qed

lemma i64_nonzero: "0 < y \<Longrightarrow> y < 2 ^ 64 \<Longrightarrow> i64 y \<noteq> 0"
proof
  assume y: "0 < y" "y < 2 ^ 64" "i64 y = 0"
  then have "signed_take_bit 63 y = signed_take_bit 63 0" by (simp add: i64_def)
  then have "take_bit 64 y = 0" unfolding signed_take_bit_eq_iff_take_bit_eq by simp
  then show False using y(1,2) by (simp add: take_bit_int_eq_self)
qed

text \<open>
  C24: the loop that divides the block size ends, and the answer to a request for
  the free space never fails on a division by zero: it has a block size between 1
  and 4096, and its blocks do not exceed the quota it reports, whatever the limits
  and the size of the storage are.
\<close>

theorem statvfs_returns:
  assumes "in_i64 (q_QuotaSize quotaResult)" "in_i64 (q_UsedSize quotaResult)" "0 \<le> q_UsedSize quotaResult"
  shows "\<exists>st. getStatVFSFromQuotaResult disk quotaResult = Some st \<and> 1 \<le> sv_Bsize st \<and> sv_Bsize st \<le> 4096 \<and>
    unat (sv_Blocks st) * unat (sv_Bsize st) \<le> unat (of_int (q_QuotaSize (with_default_size (with_disk_size disk quotaResult))) :: 64 word)"
proof -
  let ?q = "with_default_size (with_disk_size disk quotaResult)" and ?d = "with_disk_size disk quotaResult"
  have "in_i64 (q_QuotaSize ?d)" "q_UsedSize ?d = q_UsedSize quotaResult"
    using assms(1) sint_range_size [of "sv_Frsize d * sv_Blocks d" for d :: StatVFS]
    by (auto simp: with_disk_size_def in_i64_def word_size split: sum.splits intro: order_le_less_trans)
  then have "in_i64 (q_QuotaSize ?q)" "q_QuotaSize ?q \<noteq> 0"
    using assms(2,3) i64_nonzero [of "q_UsedSize quotaResult + 8796093022208"]
    by (auto simp: with_default_size_def add64_def in_i64_def [of "q_UsedSize quotaResult"])
  then have "(of_int (q_QuotaSize ?q) :: 64 word) \<noteq> 0" by (rule of_int_nonzero)
  note b = block_size_bounds [OF this]
  then have "1 \<le> block_size (of_int (q_QuotaSize ?q)) 4096" by (intro word_ge_1) simp
  moreover have "unat (q div b) * unat b \<le> unat q" for q b :: "64 word" by (simp add: unat_div)
  ultimately show ?thesis using b by (simp add: getStatVFSFromQuotaResult_def Let_def)
qed

theorem statvfs_returns_witness:
  "\<exists>st. getStatVFSFromQuotaResult (Inl ErrStorageSizeUnavailable)
     \<lparr>q_HasSpace = True, q_AllowedSize = 0, q_AllowedFiles = 0, q_UsedSize = 1, q_UsedFiles = 0, q_QuotaSize = 3, q_QuotaFiles = 0\<rparr>
       = Some st \<and> 1 \<le> sv_Bsize st \<and> sv_Bsize st \<le> 4096"
  using statvfs_returns [of "\<lparr>q_HasSpace = True, q_AllowedSize = 0, q_AllowedFiles = 0, q_UsedSize = 1, q_UsedFiles = 0,
      q_QuotaSize = 3, q_QuotaFiles = 0\<rparr>" "Inl ErrStorageSizeUnavailable"]
  by (auto simp: in_i64_def)

end
