(* ===== verification/UploadAccounting.thy ===== *)
theory UploadAccounting
  imports SftpHandler
begin

text \<open>
  Uploads from the request to the end: what the writes and the close of a transfer
  do to the registered transfer, to the usage of the accounts and to the files
  that were denied for lack of space.
\<close>

subsection \<open>Registered transfers\<close>

lemma get_transfer_ID: "get_transfer tid s = Some t \<Longrightarrow> bt_ID t = tid"
  by (auto simp: get_transfer_def find_Some_iff)

lemma find_map_put:
  "find (\<lambda>t. bt_ID t = bt_ID t') ts \<noteq> None \<Longrightarrow>
     find (\<lambda>t. bt_ID t = bt_ID t') (map (\<lambda>t. if bt_ID t = bt_ID t' then t' else t) ts) = Some t'"
  by (induction ts) auto

lemma get_put_transfer: "get_transfer (bt_ID t') s = Some t \<Longrightarrow> get_transfer (bt_ID t') (put_transfer t' s) = Some t'"
  by (simp add: get_transfer_def put_transfer_def find_map_put)

lemma put_transfer_frame [simp]:
  "cs_quota (put_transfer t s) = cs_quota s" "cs_user (put_transfer t s) = cs_user s" "cs_world (put_transfer t s) = cs_world s"
  by (simp_all add: put_transfer_def)

lemma touch_frame [simp]:
  "cs_quota (touch now s) = cs_quota s" "cs_user (touch now s) = cs_user s" "cs_world (touch now s) = cs_world s"
  "get_transfer tid (touch now s) = get_transfer tid s"
  by (simp_all add: touch_def UpdateLastActivity_def get_transfer_def)

lemma get_transfer_world [simp]: "get_transfer tid (s\<lparr>cs_world := w\<rparr>) = get_transfer tid s"
  by (simp add: get_transfer_def)

lemma NewBaseTransfer_get:
  assumes "NewBaseTransfer now opened fsPath req ty m i mx new fs s = (t, s')"
    and "get_transfer (bt_ID t) s = None"
  shows "get_transfer (bt_ID t) s' = Some t" "cs_quota s' = cs_quota s" "cs_user s' = cs_user s" "cs_world s' = cs_world s"
proof -
  have "find P xs = None \<Longrightarrow> P x \<Longrightarrow> find P (xs @ [x]) = Some x" for P and xs :: "('a, 'b) BaseTransfer list" and x
    by (induction xs) (auto split: if_splits)
  then show "get_transfer (bt_ID t) s' = Some t" "cs_quota s' = cs_quota s" "cs_user s' = cs_user s" "cs_world s' = cs_world s"
    using assms by (auto simp: NewBaseTransfer_def GetTransferID_def AddTransfer_def Let_def get_transfer_def)
qed

subsection \<open>Writing\<close>

text \<open>A sequence of writes, all of which succeed.\<close>

fun sftp_writes ::
    "('fs, 'w) cenv \<Rightarrow> int \<Rightarrow> sftp_transfer \<Rightarrow> (string \<times> int) list \<Rightarrow> ('fs, 'w) cstate \<Rightarrow> ('fs, 'w) cstate option" where
  "sftp_writes E now st [] s = Some s"
| "sftp_writes E now st ((b, off) # ws) s =
     (case WriteAt E now st b off s of Some ((n, None), s) \<Rightarrow> sftp_writes E now st ws s | _ \<Rightarrow> None)"

lemma WriteAt_success:
  assumes "WriteAt E now st b off s = Some ((n, None), s')" and "get_transfer (st_ID st) s = Some t"
  shows "\<exists>r. get_transfer (st_ID st) s' = Some (t\<lparr>bt_BytesReceived := r\<rparr>) \<and> (bt_MaxWriteSize t > 0 \<longrightarrow> r \<le> bt_MaxWriteSize t)"
    and "cs_quota s' = cs_quota s" and "cs_user s' = cs_user s"
proof -
  have i: "bt_ID t = st_ID st" using assms(2) by (rule get_transfer_ID)
  obtain w where s': "s' = put_transfer (t\<lparr>bt_BytesReceived := add64 (bt_BytesReceived t) n\<rparr>) ((touch now s)\<lparr>cs_world := w\<rparr>)"
    and m: "bt_MaxWriteSize t > 0 \<longrightarrow> add64 (bt_BytesReceived t) n \<le> bt_MaxWriteSize t"
    using assms by (auto simp: WriteAt_def Let_def split: if_splits io_end.splits prod.splits)
  have "get_transfer (st_ID st) s' = Some (t\<lparr>bt_BytesReceived := add64 (bt_BytesReceived t) n\<rparr>)"
    using get_put_transfer [of "t\<lparr>bt_BytesReceived := add64 (bt_BytesReceived t) n\<rparr>"] assms(2) i s' by simp
  then show "\<exists>r. get_transfer (st_ID st) s' = Some (t\<lparr>bt_BytesReceived := r\<rparr>) \<and> (bt_MaxWriteSize t > 0 \<longrightarrow> r \<le> bt_MaxWriteSize t)"
    using m by blast
  show "cs_quota s' = cs_quota s" "cs_user s' = cs_user s" using s' by simp_all
qed

lemma sftp_writes_success:
  assumes "sftp_writes E now st ws s = Some s'" and "get_transfer (st_ID st) s = Some t"
  shows "(\<exists>r. get_transfer (st_ID st) s' = Some (t\<lparr>bt_BytesReceived := r\<rparr>)) \<and> cs_quota s' = cs_quota s \<and> cs_user s' = cs_user s"
  using assms
proof (induction ws arbitrary: s t)
  case Nil
  then show ?case by (auto intro!: exI [of _ "bt_BytesReceived t"])
next
  case (Cons w ws)
  obtain b off where w: "w = (b, off)" by fastforce
  obtain n s1 where s1: "WriteAt E now st b off s = Some ((n, None), s1)" "sftp_writes E now st ws s1 = Some s'"
    using Cons.prems(1) by (auto simp: w split: option.splits prod.splits)
  note a = WriteAt_success [OF s1(1) Cons.prems(2)]
  obtain r where "get_transfer (st_ID st) s1 = Some (t\<lparr>bt_BytesReceived := r\<rparr>)" using a(1) by blast
  from Cons.IH [OF s1(2) this] show ?case using a(2,3) by simp
qed

subsection \<open>Closing\<close>

lemma finish_upload_used:
  assumes "tracked E s" and "bt_ErrTransfer t = None" and "bt_transferType t = TransferUpload"
    and "fs_Stat (ce_F E) (bt_Fs t) (cs_world s) (bt_fsPath t) = Inr info"
  defines "d \<equiv> sub64 (os_Size info) (bt_InitialSize t)"
  shows "used_by E (finish_upload E numFiles t s) =
    (if numFiles \<noteq> 0 \<or> d > 0 then add_usage (charged (cs_user s) (bt_requestPath t)) (numFiles, d) (used_by E s)
     else used_by E s)"
    and "cs_world (finish_upload E numFiles t s) = cs_world s"
proof -
  have g: "getUploadFileSize (ce_F E) t (cs_world s) = (Inr (os_Size info), cs_world s)"
    using assms(2,4) by (simp add: getUploadFileSize_def)
  have "finish_upload E numFiles t s = notify (file_action (snd (transfer_updateQuota E numFiles (os_Size info) t s))
      ''upload'' (bt_fsPath t) '''' (os_Size info) None) (snd (transfer_updateQuota E numFiles (os_Size info) t s))"
    using assms(2) by (simp add: finish_upload_def g Let_def)
  then have "used_by E (finish_upload E numFiles t s) = used_by E (snd (transfer_updateQuota E numFiles (os_Size info) t s))"
    "cs_world (finish_upload E numFiles t s) = cs_world (snd (transfer_updateQuota E numFiles (os_Size info) t s))"
    by (auto simp: notify_def intro!: used_by_cong)
  moreover have "cs_world (charge_path E p n z s) = cs_world s" for p n z
    by (simp add: charge_path_def split: option.split)
  ultimately show "used_by E (finish_upload E numFiles t s) =
      (if numFiles \<noteq> 0 \<or> d > 0 then add_usage (charged (cs_user s) (bt_requestPath t)) (numFiles, d) (used_by E s)
       else used_by E s)" "cs_world (finish_upload E numFiles t s) = cs_world s"
    using assms(2,3) charge_path_used(2) [OF assms(1)] by (auto simp: transfer_updateQuota_def Let_def d_def)
qed

lemma settle_file_ok:
  assumes "bt_ErrTransfer t = None"
  shows "\<exists>err w'. settle_file E n t w = (err, n, t, w')"
  using assms by (auto simp: settle_file_def split: option.splits prod.splits)

lemma tracked_cong: "cs_quota s' = cs_quota s \<Longrightarrow> cs_user s' = cs_user s \<Longrightarrow> tracked E s' = tracked E s"
  by (simp add: tracked_def)

lemma world_accounts [simp]: "tracked E (s\<lparr>cs_world := w\<rparr>) = tracked E s" "used_by E (s\<lparr>cs_world := w\<rparr>) = used_by E s"
  by (simp add: tracked_def) (rule used_by_cong, simp_all)

lemma RemoveTransfer_user [simp]: "bc_User (RemoveTransfer tid c) = bc_User c"
  by (simp add: RemoveTransfer_def)

lemma Close_used:
  assumes "Close E t s = (None, s')" and "tracked E s" and "bt_transferType t = TransferUpload"
    and "fs_Stat (ce_F E) (bt_Fs t) (cs_world s') (bt_fsPath t) = Inr info"
  defines "d \<equiv> sub64 (os_Size info) (bt_InitialSize t)"
  shows "used_by E s' =
    (if bt_isNewFile t \<or> d > 0
     then add_usage (charged (cs_user s) (bt_requestPath t)) (if bt_isNewFile t then 1 else 0, d) (used_by E s)
     else used_by E s)"
proof -
  let ?n = "if bt_isNewFile t then 1 else 0 :: int"
  have e: "bt_ErrTransfer t = None"
    using assms(1) by (auto simp: Close_def settle_file_def dropped_def Let_def split: prod.splits option.splits if_splits)
  obtain err w where st: "settle_file E ?n t (cs_world s) = (err, ?n, t, w)" using settle_file_ok [OF e] by blast
  let ?s = "finish_upload E ?n t (s\<lparr>cs_world := w\<rparr>)"
  have s': "s' = ?s\<lparr>cs_conn := RemoveTransfer (bt_ID t) (cs_conn ?s)\<rparr>"
    using assms(1,3) st by (simp add: Close_def Let_def)
  have w: "tracked E (s\<lparr>cs_world := w\<rparr>)" "used_by E (s\<lparr>cs_world := w\<rparr>) = used_by E s"
    using assms(2) tracked_cong [of "s\<lparr>cs_world := w\<rparr>" s E] by (auto intro: used_by_cong)
  have "cs_world ?s = w"
    by (auto simp: finish_upload_def getUploadFileSize_def e Let_def notify_def transfer_updateQuota_def charge_path_def
        split: option.splits)
  then have "fs_Stat (ce_F E) (bt_Fs t) w (bt_fsPath t) = Inr info" using assms(4) s' by simp
  then have "used_by E ?s = (if ?n \<noteq> 0 \<or> d > 0 then add_usage (charged (cs_user s) (bt_requestPath t)) (?n, d) (used_by E s)
      else used_by E s)"
    using finish_upload_used(1) [OF w(1) e assms(3), of info ?n] w(2) by (simp add: d_def)
  moreover have "used_by E s' = used_by E ?s" using s' by (intro used_by_cong) simp_all
  ultimately show ?thesis by (simp split: if_splits)
qed

subsection \<open>A whole upload over an existing file\<close>

lemma sftp_Close_success:
  assumes "sftp_Close E st s = Some (None, st', s')" and "get_transfer (st_ID st) s = Some t"
  shows "\<exists>w. Close E t (put_transfer t (s\<lparr>cs_world := w\<rparr>)) = (None, s')"
proof -
  obtain err t' w where c: "closeIO E st t (cs_world s) = (err, t', w)" by (metis prod_cases3)
  then have "Close E t' (put_transfer t' (s\<lparr>cs_world := w\<rparr>)) = (None, s')" and "err = None"
    using assms by (auto simp: sftp_Close_def Let_def split: if_splits prod.splits)
  moreover have "t' = t" using c \<open>err = None\<close>
    by (auto simp: closeIO_def split: option.splits io_end.splits prod.splits)
  ultimately show ?thesis by blast
qed

text \<open>Whether the file is emptied when it is opened, so that its size leaves the quota at once.\<close>

definition truncates :: "('fs, 'w) cenv \<Rightarrow> 'fs \<Rightarrow> FileOpenFlags \<Rightarrow> bool" where
  "truncates E fs pflags \<longleftrightarrow> getOSOpenFlags pflags AND O_TRUNC \<noteq> 0 \<and> IsLocalOrSFTPFs (ce_F E) fs"

lemma open_existing_transfer:
  assumes "handleSFTPUploadToExistingFile E now fs pflags p filePath fileSize req errForRead s = (Inr st, s')"
    and "get_transfer (st_ID st) s = None" and "tracked E s"
  shows "\<exists>t. get_transfer (st_ID st) s' = Some t \<and> bt_Fs t = fs \<and> bt_fsPath t = p \<and> bt_requestPath t = req \<and>
      bt_transferType t = TransferUpload \<and> \<not> bt_isNewFile t \<and> bt_InitialSize t = (if truncates E fs pflags then 0 else fileSize)"
    and "cs_user s' = cs_user s" and "tracked E s'"
    and "used_by E s' = (if truncates E fs pflags then add_usage (charged (cs_user s) req) (0, neg64 fileSize) (used_by E s)
      else used_by E s)"
proof -
  let ?tr = "\<not> (ff_Append pflags \<and> \<not> (getOSOpenFlags pflags AND O_TRUNC \<noteq> 0)) \<and> IsLocalOrSFTPFs (ce_F E) fs \<and>
    getOSOpenFlags pflags AND O_TRUNC \<noteq> 0"
  have tr: "?tr \<longleftrightarrow> truncates E fs pflags" by (auto simp: truncates_def)
  obtain opened w w' m mx t where n: "NewBaseTransfer now opened p req TransferUpload m
      (if ?tr then 0 else fileSize) mx False fs
      ((if ?tr then charge_path E req 0 (neg64 fileSize) (s\<lparr>cs_world := w\<rparr>) else s\<lparr>cs_world := w\<rparr>)\<lparr>cs_world := w'\<rparr>) = (t, s')"
    "st = newTransfer t (pipe_of opened filePath) None errForRead"
    using assms(1) unfolding handleSFTPUploadToExistingFile_def Let_def
    by (auto split: if_splits sum.splits prod.splits)
  let ?s = "(if ?tr then charge_path E req 0 (neg64 fileSize) (s\<lparr>cs_world := w\<rparr>) else s\<lparr>cs_world := w\<rparr>)\<lparr>cs_world := w'\<rparr>"
  have conn: "cs_conn (charge_path E req k z s) = cs_conn s" for k z and s :: "('a, 'b) cstate"
    by (simp add: charge_path_def split: option.split)
  have i: "st_ID st = bt_ID t" using n(2) by (simp add: newTransfer_def Let_def)
  have g: "get_transfer (bt_ID t) ?s = None" using assms(2) i conn by (simp add: get_transfer_def)
  note a = NewBaseTransfer_get [OF n(1) g]
  have "bt_Fs t = fs \<and> bt_fsPath t = p \<and> bt_requestPath t = req \<and> bt_transferType t = TransferUpload \<and>
      \<not> bt_isNewFile t \<and> bt_InitialSize t = (if ?tr then 0 else fileSize)"
    using n(1) by (auto simp: NewBaseTransfer_def GetTransferID_def Let_def)
  then show "\<exists>t. get_transfer (st_ID st) s' = Some t \<and> bt_Fs t = fs \<and> bt_fsPath t = p \<and> bt_requestPath t = req \<and>
      bt_transferType t = TransferUpload \<and> \<not> bt_isNewFile t \<and> bt_InitialSize t = (if truncates E fs pflags then 0 else fileSize)"
    using a(1) i tr by auto
  have c: "cs_user ?s = cs_user s" using conn by simp
  show "cs_user s' = cs_user s" using a(3) c by simp
  have q: "tracked E ?s" "used_by E ?s = (if ?tr then add_usage (charged (cs_user s) req) (0, neg64 fileSize) (used_by E s)
      else used_by E s)"
    using charge_path_used [of E "s\<lparr>cs_world := w\<rparr>" req 0 "neg64 fileSize"] assms(3) by (cases ?tr, simp_all)
  show "tracked E s'" using tracked_cong [OF a(2,3)] q(1) by blast
  have "used_by E s' = used_by E ?s" using a(2,3) by (rule used_by_cong)
  then have "used_by E s' = (if ?tr then add_usage (charged (cs_user s) req) (0, neg64 fileSize) (used_by E s) else used_by E s)"
    using q(2) by (rule trans)
  then show "used_by E s' =
      (if truncates E fs pflags then add_usage (charged (cs_user s) req) (0, neg64 fileSize) (used_by E s) else used_by E s)"
    unfolding tr .
qed

lemma upload_existing_session:
  assumes "handleSFTPUploadToExistingFile E now fs pflags p filePath fileSize req errForRead s = (Inr st, s1)"
    and "sftp_writes E now st ws s1 = Some s2" and "sftp_Close E st s2 = Some (None, st', s3)"
    and "tracked E s" and "get_transfer (st_ID st) s = None"
    and "fs_Stat (ce_F E) fs (cs_world s3) p = Inr info"
  defines "A \<equiv> charged (cs_user s) req" and "d \<equiv> sub64 (os_Size info) (if truncates E fs pflags then 0 else fileSize)"
  shows "used_by E s3 =
    (let f = (if truncates E fs pflags then add_usage A (0, neg64 fileSize) (used_by E s) else used_by E s)
     in if d > 0 then add_usage A (0, d) f else f)"
proof -
  note o = open_existing_transfer [OF assms(1,5,4)]
  obtain t where t: "get_transfer (st_ID st) s1 = Some t" "bt_Fs t = fs" "bt_fsPath t = p" "bt_requestPath t = req"
    "bt_transferType t = TransferUpload" "\<not> bt_isNewFile t" "bt_InitialSize t = (if truncates E fs pflags then 0 else fileSize)"
    using o(1) by blast
  obtain r where r: "get_transfer (st_ID st) s2 = Some (t\<lparr>bt_BytesReceived := r\<rparr>)" "cs_quota s2 = cs_quota s1" "cs_user s2 = cs_user s1"
    using sftp_writes_success [OF assms(2) t(1)] by blast
  let ?t = "t\<lparr>bt_BytesReceived := r\<rparr>"
  obtain w where c: "Close E ?t (put_transfer ?t (s2\<lparr>cs_world := w\<rparr>)) = (None, s3)"
    using sftp_Close_success [OF assms(3) r(1)] by blast
  let ?s = "put_transfer ?t (s2\<lparr>cs_world := w\<rparr>)"
  have tk: "tracked E ?s" using o(3) r(2,3) tracked_cong [of ?s s1 E] by simp
  have ub: "used_by E ?s = used_by E s1" using r(2,3) by (intro used_by_cong) simp_all
  have "used_by E s3 = (if d > 0 then add_usage A (0, d) (used_by E ?s) else used_by E ?s)"
    using Close_used [OF c tk, of info] assms(6) t r(3) o(2) by (simp add: A_def d_def)
  then show ?thesis using o(4) unfolding ub by (simp add: A_def Let_def)
qed

text \<open>
  C11: overwriting a file changes the usage of the accounts of its directory by the
  difference of the sizes and no other account, from the request over any
  successful writes to the close, where the file is emptied at the start or does
  not become shorter.
\<close>

theorem upload_existing_accounting:
  assumes "handleSFTPUploadToExistingFile E now fs pflags p filePath fileSize req errForRead s = (Inr st, s1)"
    and "sftp_writes E now st ws s1 = Some s2" and "sftp_Close E st s2 = Some (None, st', s3)"
    and "tracked E s" and "get_transfer (st_ID st) s = None"
    and "fs_Stat (ce_F E) fs (cs_world s3) p = Inr info"
    and "0 \<le> fileSize" "in_i64 fileSize" "0 \<le> os_Size info" "in_i64 (os_Size info)"
    and "truncates E fs pflags \<or> fileSize \<le> os_Size info"
  shows "used_by E s3 = add_usage (charged (cs_user s) req) (0, os_Size info - fileSize) (used_by E s)"
proof -
  have z: "neg64 fileSize = - fileSize" "sub64 (os_Size info) fileSize = os_Size info - fileSize"
    "sub64 (os_Size info) 0 = os_Size info"
    using assms(7-10) by (auto simp: neg64_def sub64_def in_i64_def intro!: i64_id)
  have a: "add_pair (0, - fileSize) (0, os_Size info) = (0, os_Size info - fileSize)"
    using z(2) by (simp add: add_pair_def add64_def sub64_def i64_id in_i64_def)
  show ?thesis
    using upload_existing_session [OF assms(1-6)] assms(7,9,11) z a used_by_zero [OF assms(4)]
    by (cases "truncates E fs pflags"; cases "os_Size info = fileSize"; cases "os_Size info = 0")
       (simp_all add: Let_def add_usage_add)
qed

text \<open>
  C27: on a storage whose files are not emptied at the start, such as a cloud
  storage, overwriting a file with a shorter one leaves the usage of every account
  unchanged: the space that became free is never given back.
\<close>

theorem shorter_upload_keeps_usage:
  assumes "handleSFTPUploadToExistingFile E now fs pflags p filePath fileSize req errForRead s = (Inr st, s1)"
    and "sftp_writes E now st ws s1 = Some s2" and "sftp_Close E st s2 = Some (None, st', s3)"
    and "tracked E s" and "get_transfer (st_ID st) s = None"
    and "fs_Stat (ce_F E) fs (cs_world s3) p = Inr info"
    and "0 \<le> os_Size info" "os_Size info < fileSize" "in_i64 fileSize" and "\<not> truncates E fs pflags"
  shows "used_by E s3 = used_by E s"
proof -
  have "sub64 (os_Size info) fileSize = os_Size info - fileSize"
    using assms(7-9) by (intro sub64_id) (auto simp: in_i64_def)
  then show ?thesis using upload_existing_session [OF assms(1-6)] assms(8,10) by (simp add: Let_def)
qed

subsection \<open>Examples\<close>

definition truncate_flags :: FileOpenFlags where
  "truncate_flags = \<lparr>ff_Read = False, ff_Write = True, ff_Append = False, ff_Creat = True, ff_Trunc = True, ff_Excl = False\<rparr>"

text \<open>The same storage, presented as a cloud storage that receives uploads through a pipe.\<close>

definition cloud_env :: "quota_config \<Rightarrow> (unit, mem_files) cenv" where
  "cloud_env C =
     (mem_env C)\<lparr>ce_F := mem_F\<lparr>fs_Name := (\<lambda>_. ''S3Fs''), fs_Create := (\<lambda>_ p _ w. (Inr \<lparr>op_file = None, op_cancel = None\<rparr>, w))\<rparr>\<rparr>"

definition overwrite :: "(unit, mem_files) cenv \<Rightarrow> (goerr + sftp_transfer) \<times> (unit, mem_files) cstate" where
  "overwrite E = handleSFTPUploadToExistingFile E 0 () truncate_flags ''/r/y'' ''/r/y'' 20 ''/y'' None sample_state"

definition written :: "(unit, mem_files) cenv \<Rightarrow> (unit, mem_files) cstate" where
  "written E = the (sftp_writes E 0 (projr (fst (overwrite E))) [(''hello'', 0)] (snd (overwrite E)))"

definition closed :: "(unit, mem_files) cenv \<Rightarrow> goerr option \<times> sftp_transfer \<times> (unit, mem_files) cstate" where
  "closed E = the (sftp_Close E (projr (fst (overwrite E))) (written E))"

abbreviation "overwritten E \<equiv> snd (snd (closed E))"

lemma overwrite_steps:
  assumes "\<not> isl (fst (overwrite E))"
    and "sftp_writes E 0 (projr (fst (overwrite E))) [(''hello'', 0)] (snd (overwrite E)) \<noteq> None"
    and "sftp_Close E (projr (fst (overwrite E))) (written E) \<noteq> None" and "fst (closed E) = None"
  shows "handleSFTPUploadToExistingFile E 0 () truncate_flags ''/r/y'' ''/r/y'' 20 ''/y'' None sample_state
      = (Inr (projr (fst (overwrite E))), snd (overwrite E))"
    and "sftp_writes E 0 (projr (fst (overwrite E))) [(''hello'', 0)] (snd (overwrite E)) = Some (written E)"
    and "sftp_Close E (projr (fst (overwrite E))) (written E) = Some (None, fst (snd (closed E)), overwritten E)"
proof -
  show "handleSFTPUploadToExistingFile E 0 () truncate_flags ''/r/y'' ''/r/y'' 20 ''/y'' None sample_state
      = (Inr (projr (fst (overwrite E))), snd (overwrite E))"
    using assms(1) by (simp add: overwrite_def prod_eq_iff)
  show "sftp_writes E 0 (projr (fst (overwrite E))) [(''hello'', 0)] (snd (overwrite E)) = Some (written E)"
    using assms(2) by (auto simp: written_def)
  show "sftp_Close E (projr (fst (overwrite E))) (written E) = Some (None, fst (snd (closed E)), overwritten E)"
    using assms(3,4) by (auto simp: closed_def prod_eq_iff)
qed

lemma local_steps:
  "\<not> isl (fst (overwrite (mem_env tracking)))"
  "sftp_writes (mem_env tracking) 0 (projr (fst (overwrite (mem_env tracking)))) [(''hello'', 0)] (snd (overwrite (mem_env tracking))) \<noteq> None"
  "sftp_Close (mem_env tracking) (projr (fst (overwrite (mem_env tracking)))) (written (mem_env tracking)) \<noteq> None"
  "fst (closed (mem_env tracking)) = None" "get_transfer (st_ID (projr (fst (overwrite (mem_env tracking))))) sample_state = None"
  "mem_stat (cs_world (overwritten (mem_env tracking))) ''/r/y'' = Inr (a_file 5)"
  by code_simp+

lemma cloud_steps:
  "\<not> isl (fst (overwrite (cloud_env tracking)))"
  "sftp_writes (cloud_env tracking) 0 (projr (fst (overwrite (cloud_env tracking)))) [(''hello'', 0)] (snd (overwrite (cloud_env tracking))) \<noteq> None"
  "sftp_Close (cloud_env tracking) (projr (fst (overwrite (cloud_env tracking)))) (written (cloud_env tracking)) \<noteq> None"
  "fst (closed (cloud_env tracking)) = None" "get_transfer (st_ID (projr (fst (overwrite (cloud_env tracking))))) sample_state = None"
  "mem_stat (cs_world (overwritten (cloud_env tracking))) ''/r/y'' = Inr (a_file 5)"
  by code_simp+

theorem upload_existing_accounting_witness:
  "used_by (mem_env tracking) (overwritten (mem_env tracking)) UserAccount = Some (3, 35)"
proof -
  note st = overwrite_steps [OF local_steps(1-4)]
  have "truncates (mem_env tracking) () truncate_flags" by code_simp
  moreover have "fs_Stat (ce_F (mem_env tracking)) () (cs_world (overwritten (mem_env tracking))) ''/r/y'' = Inr (a_file 5)"
    using local_steps(6) by (simp add: mem_env_def mem_F_def)
  ultimately have "used_by (mem_env tracking) (overwritten (mem_env tracking))
      = add_usage (charged (cs_user sample_state) ''/y'') (0, 5 - 20) (used_by (mem_env tracking) sample_state)"
    using upload_existing_accounting [OF st sample_tracked(1) local_steps(5), of "a_file 5"]
    by (simp add: a_file_def in_i64_def)
  moreover have "GetVirtualFolderForPath (cs_user sample_state) (path_Dir ''/y'') = None" by code_simp
  ultimately show ?thesis
    using sample_used(1) by (simp add: add_usage_def charged_def add_pair_def add64_def i64_id in_i64_def)
qed

lemma cloud_tracked: "tracked (cloud_env tracking) sample_state"
  using sample_tracked(1) by (simp add: tracked_def cloud_env_def)

theorem shorter_upload_keeps_usage_witness:
  "gm_get (cs_world (overwritten (cloud_env tracking))) ''/r/y'' = Some (a_file 5) \<and>
   used_by (cloud_env tracking) (overwritten (cloud_env tracking)) = used_by (cloud_env tracking) sample_state"
proof -
  note st = overwrite_steps [OF cloud_steps(1-4)]
  have "\<not> truncates (cloud_env tracking) () truncate_flags" by code_simp
  moreover have "fs_Stat (ce_F (cloud_env tracking)) () (cs_world (overwritten (cloud_env tracking))) ''/r/y'' = Inr (a_file 5)"
    using cloud_steps(6) by (simp add: cloud_env_def mem_env_def mem_F_def)
  ultimately have "used_by (cloud_env tracking) (overwritten (cloud_env tracking)) = used_by (cloud_env tracking) sample_state"
    using shorter_upload_keeps_usage [OF st cloud_tracked cloud_steps(5), of "a_file 5"]
    by (simp add: a_file_def in_i64_def)
  then show ?thesis using cloud_steps(6) by (auto simp: mem_stat_def split: option.splits)
qed

end
