(* ===== verification/Defender.thy ===== *)
theory Defender
  imports Utils GoNet
begin

text \<open>
  The defender of \<^verbatim>\<open>common/defender.go\<close>, which scores the failures of a host and bans it
  once the score of the observation time reaches a threshold. A call reads the
  clock once here; \<open>now\<close> is in nanoseconds since the epoch. The prefix tree of the
  address lists (\<^verbatim>\<open>cidranger\<close>) is a parameter.
\<close>

subsection \<open>Configuration and state\<close>

datatype HostEvent = HostEventLoginFailed | HostEventUserNotFound | HostEventNoLoginTried | HostEventRateExceeded

record DefenderConfig =
  df_Enabled :: bool
  df_BanTime :: int
  df_BanTimeIncrement :: int
  df_Threshold :: int
  df_ScoreInvalid :: int
  df_ScoreValid :: int
  df_ScoreRateExceeded :: int
  df_ObservationTime :: int
  df_EntriesSoftLimit :: int
  df_EntriesHardLimit :: int
  df_SafeListFile :: string
  df_BlockListFile :: string

record hostEvent =
  he_dateTime :: int
  he_score :: int

record hostScore =
  hs_TotalScore :: int
  hs_Events :: "hostEvent list"

text \<open>The operations of the prefix tree: \<open>rg_contains\<close> is \<open>None\<close> for its error.\<close>

record 'r ranger =
  rg_empty :: 'r
  rg_insert :: "IPNet \<Rightarrow> 'r \<Rightarrow> 'r option"
  rg_contains :: "'r \<Rightarrow> IP option \<Rightarrow> bool option"

record 'r HostList =
  hl_IPAddresses :: "(string, bool) gomap"
  hl_Ranges :: 'r

record 'r memoryDefender =
  md_config :: DefenderConfig
  md_hosts :: "(string, hostScore) gomap"
  md_banned :: "(string, int) gomap"
  md_safeList :: "'r HostList option"
  md_blockList :: "'r HostList option"

definition HostList_isListed :: "'r ranger \<Rightarrow> 'r HostList \<Rightarrow> string \<Rightarrow> bool" where
  "HostList_isListed R h ip =
     (case gm_get (hl_IPAddresses h) ip of
        Some _ \<Rightarrow> True
      | None \<Rightarrow> (case rg_contains R (hl_Ranges h) (net_ParseIP ip) of None \<Rightarrow> False | Some ok \<Rightarrow> ok))"

definition listed :: "'r ranger \<Rightarrow> 'r HostList option \<Rightarrow> string \<Rightarrow> bool" where
  "listed R l ip = (case l of None \<Rightarrow> False | Some h \<Rightarrow> HostList_isListed R h ip)"

definition DefenderConfig_validate :: "DefenderConfig \<Rightarrow> string option" where
  "DefenderConfig_validate c =
     (if \<not> df_Enabled c then None
      else if df_ScoreInvalid c \<ge> df_Threshold c then Some ''score_invalid''
      else if df_ScoreValid c \<ge> df_Threshold c then Some ''score_valid''
      else if df_ScoreRateExceeded c \<ge> df_Threshold c then Some ''score_rate_exceeded''
      else if df_BanTime c \<le> 0 then Some ''invalid ban_time''
      else if df_BanTimeIncrement c \<le> 0 then Some ''invalid ban_time_increment''
      else if df_ObservationTime c \<le> 0 then Some ''invalid observation_time''
      else if df_EntriesSoftLimit c \<le> 0 then Some ''invalid entries_soft_limit''
      else if df_EntriesHardLimit c \<le> df_EntriesSoftLimit c then Some ''invalid entries_hard_limit''
      else None)"

subsection \<open>The safe and block lists\<close>

text \<open>
  A list file: its size, \<open>None\<close> if it cannot be examined, and the decoded addresses and
  networks, \<open>None\<close> if it cannot be read or decoded.
\<close>

record HostListFile =
  lf_IPAddresses :: "string list"
  lf_CIDRNetworks :: "string list"

type_synonym list_files = "string \<Rightarrow> int option \<times> HostListFile option"

definition load_addresses :: "string list \<Rightarrow> (string, bool) gomap" where
  "load_addresses ips =
     foldl (\<lambda>m ip. if net_ParseIP ip = None then m else gm_put m ip True) [] ips"

definition load_networks :: "'r ranger \<Rightarrow> string list \<Rightarrow> 'r" where
  "load_networks R nets =
     foldl (\<lambda>r n. case net_ParseCIDR n of
                     None \<Rightarrow> r
                   | Some net \<Rightarrow> (case rg_insert R net r of None \<Rightarrow> r | Some r' \<Rightarrow> r')) (rg_empty R) nets"

definition loadHostListFromFile :: "'r ranger \<Rightarrow> list_files \<Rightarrow> string \<Rightarrow> string + 'r HostList option" where
  "loadHostListFromFile R F name =
     (if name = '''' then Inr None
      else if \<not> IsFileInputValid name then Inl ''invalid host list file name''
      else
        (case F name of
           (None, _) \<Rightarrow> Inl ''stat''
         | (Some sz, content) \<Rightarrow>
             if sz > 5242880 then Inl ''host list file is too big''
             else
               (case content of
                  None \<Rightarrow> Inl ''unable to read or decode''
                | Some l \<Rightarrow>
                    if length (lf_CIDRNetworks l) > 0 \<or> length (lf_IPAddresses l) > 0 then
                      Inr (Some \<lparr>hl_IPAddresses = load_addresses (lf_IPAddresses l),
                                 hl_Ranges = load_networks R (lf_CIDRNetworks l)\<rparr>)
                    else Inr None)))"

definition Defender_Reload :: "'r ranger \<Rightarrow> list_files \<Rightarrow> 'r memoryDefender \<Rightarrow> string option \<times> 'r memoryDefender" where
  "Defender_Reload R F d =
     (case loadHostListFromFile R F (df_BlockListFile (md_config d)) of
        Inl e \<Rightarrow> (Some e, d)
      | Inr blockList \<Rightarrow>
          (let d = d\<lparr>md_blockList := blockList\<rparr>
           in case loadHostListFromFile R F (df_SafeListFile (md_config d)) of
                Inl e \<Rightarrow> (Some e, d)
              | Inr safeList \<Rightarrow> (None, d\<lparr>md_safeList := safeList\<rparr>)))"

definition newInMemoryDefender :: "'r ranger \<Rightarrow> list_files \<Rightarrow> DefenderConfig \<Rightarrow> string + 'r memoryDefender" where
  "newInMemoryDefender R F c =
     (case DefenderConfig_validate c of
        Some e \<Rightarrow> Inl e
      | None \<Rightarrow>
          (case Defender_Reload R F \<lparr>md_config = c, md_hosts = [], md_banned = [], md_safeList = None, md_blockList = None\<rparr> of
             (Some e, _) \<Rightarrow> Inl e
           | (None, d) \<Rightarrow> Inr d))"

subsection \<open>Eviction of the oldest entries\<close>

text \<open>
  The sort by value need not be stable in Go; the order of equal values does not
  matter to the theorems.
\<close>

record kv =
  kv_Key :: string
  kv_Value :: int

definition kvs :: "('v \<Rightarrow> int) \<Rightarrow> (string, 'v) gomap \<Rightarrow> kv list" where
  "kvs val m = map (\<lambda>(k, v). \<lparr>kv_Key = k, kv_Value = val v\<rparr>) m"

definition delete_first :: "int \<Rightarrow> kv list \<Rightarrow> (string, 'v) gomap \<Rightarrow> (string, 'v) gomap" where
  "delete_first numToRemove l m = foldl (\<lambda>m k. gm_del m (kv_Key k)) m (take (nat numToRemove) l)"

definition delete_expired :: "int \<Rightarrow> (string, int) gomap \<Rightarrow> (string, int) gomap" where
  "delete_expired now m = foldl (\<lambda>b (k, v). if v < now then gm_del b k else b) m m"

definition cleanupBanned :: "int \<Rightarrow> 'r memoryDefender \<Rightarrow> 'r memoryDefender" where
  "cleanupBanned now d =
     (let banned = md_banned d in
      if gm_len banned > df_EntriesHardLimit (md_config d) then
        (let kvList = kvs i64 banned;
             banned = delete_expired now banned;
             numToRemove = sub64 (gm_len banned) (df_EntriesSoftLimit (md_config d))
         in if numToRemove \<le> 0 then d\<lparr>md_banned := banned\<rparr>
            else d\<lparr>md_banned := delete_first numToRemove (sort_key kv_Value kvList) banned\<rparr>)
      else d)"

definition host_value :: "hostScore \<Rightarrow> int" where
  "host_value v = (if length (hs_Events v) > 0 then i64 (he_dateTime (last (hs_Events v))) else 0)"

definition cleanupHosts :: "'r memoryDefender \<Rightarrow> 'r memoryDefender" where
  "cleanupHosts d =
     (if gm_len (md_hosts d) > df_EntriesHardLimit (md_config d) then
        (let kvList = kvs host_value (md_hosts d);
             numToRemove = sub64 (gm_len (md_hosts d)) (df_EntriesSoftLimit (md_config d))
         in d\<lparr>md_hosts := delete_first numToRemove (sort_key kv_Value kvList) (md_hosts d)\<rparr>)
      else d)"

subsection \<open>The operations\<close>

abbreviation time_Minute :: int where "time_Minute \<equiv> 60000000000"

text \<open>
  \<open>IsBanned\<close> reads the ban time under the read lock and writes the longer one after
  taking the write lock: the two halves, and the call without anything in between.
\<close>

definition ban_increment :: "DefenderConfig \<Rightarrow> int" where
  "ban_increment c =
     (let increment = quot64 (mul64 (df_BanTime c) (df_BanTimeIncrement c)) 100
      in if increment = 0 then increment + 1 else increment)"

definition IsBanned_read :: "'r ranger \<Rightarrow> int \<Rightarrow> string \<Rightarrow> 'r memoryDefender \<Rightarrow> bool \<times> int option" where
  "IsBanned_read R now ip d =
     (case gm_get (md_banned d) ip of
        Some banTime \<Rightarrow>
          if banTime > now then (True, Some (banTime + mul64 (ban_increment (md_config d)) time_Minute))
          else (listed R (md_blockList d) ip, None)
      | None \<Rightarrow> (listed R (md_blockList d) ip, None))"

definition IsBanned_write :: "string \<Rightarrow> int option \<Rightarrow> 'r memoryDefender \<Rightarrow> 'r memoryDefender" where
  "IsBanned_write ip w d = (case w of None \<Rightarrow> d | Some t \<Rightarrow> d\<lparr>md_banned := gm_put (md_banned d) ip t\<rparr>)"

definition IsBanned :: "'r ranger \<Rightarrow> int \<Rightarrow> string \<Rightarrow> 'r memoryDefender \<Rightarrow> bool \<times> 'r memoryDefender" where
  "IsBanned R now ip d = (case IsBanned_read R now ip d of (b, w) \<Rightarrow> (b, IsBanned_write ip w d))"

definition Unban :: "string \<Rightarrow> 'r memoryDefender \<Rightarrow> bool \<times> 'r memoryDefender" where
  "Unban ip d =
     (case gm_get (md_banned d) ip of
        Some _ \<Rightarrow> (True, d\<lparr>md_banned := gm_del (md_banned d) ip\<rparr>)
      | None \<Rightarrow> (False, d))"

fun event_score :: "DefenderConfig \<Rightarrow> HostEvent \<Rightarrow> int" where
  "event_score c HostEventLoginFailed = df_ScoreValid c"
| "event_score c HostEventRateExceeded = df_ScoreRateExceeded c"
| "event_score c HostEventUserNotFound = df_ScoreInvalid c"
| "event_score c HostEventNoLoginTried = df_ScoreInvalid c"

definition in_window :: "DefenderConfig \<Rightarrow> int \<Rightarrow> hostEvent \<Rightarrow> bool" where
  "in_window c now e = (he_dateTime e + mul64 (df_ObservationTime c) time_Minute > now)"

fun window_loop :: "DefenderConfig \<Rightarrow> int \<Rightarrow> int \<Rightarrow> hostEvent list \<Rightarrow> hostEvent list \<Rightarrow> int \<times> hostEvent list" where
  "window_loop c now totalScore kept [] = (totalScore, kept)"
| "window_loop c now totalScore kept (e # es) =
     (if in_window c now e then window_loop c now (add64 totalScore (he_score e)) (kept @ [e]) es
      else window_loop c now totalScore kept es)"

definition Defender_AddEvent :: "'r ranger \<Rightarrow> int \<Rightarrow> string \<Rightarrow> HostEvent \<Rightarrow> 'r memoryDefender \<Rightarrow> 'r memoryDefender" where
  "Defender_AddEvent R now ip event d =
     (if listed R (md_safeList d) ip then d
      else
        (let c = md_config d; ev = \<lparr>he_dateTime = now, he_score = event_score c event\<rparr> in
         case gm_get (md_hosts d) ip of
           Some hs \<Rightarrow>
             (let (totalScore, kept) = window_loop c now 0 [] (hs_Events hs @ [ev]) in
              if totalScore \<ge> df_Threshold c then
                cleanupBanned now
                  (d\<lparr>md_banned := gm_put (md_banned d) ip (now + mul64 (df_BanTime c) time_Minute),
                     md_hosts := gm_del (md_hosts d) ip\<rparr>)
              else d\<lparr>md_hosts := gm_put (md_hosts d) ip \<lparr>hs_TotalScore = totalScore, hs_Events = kept\<rparr>\<rparr>)
         | None \<Rightarrow>
             cleanupHosts (d\<lparr>md_hosts := gm_put (md_hosts d) ip \<lparr>hs_TotalScore = he_score ev, hs_Events = [ev]\<rparr>\<rparr>)))"

definition countBanned :: "'r memoryDefender \<Rightarrow> int" where
  "countBanned d = gm_len (md_banned d)"

definition countHosts :: "'r memoryDefender \<Rightarrow> int" where
  "countHosts d = gm_len (md_hosts d)"

definition GetBanTime :: "string \<Rightarrow> 'r memoryDefender \<Rightarrow> int option" where
  "GetBanTime ip d = gm_get (md_banned d) ip"

definition Defender_GetScore :: "int \<Rightarrow> string \<Rightarrow> 'r memoryDefender \<Rightarrow> int" where
  "Defender_GetScore now ip d =
     (case gm_get (md_hosts d) ip of
        None \<Rightarrow> 0
      | Some hs \<Rightarrow> foldl (\<lambda>score e. if in_window (md_config d) now e then add64 score (he_score e) else score) 0 (hs_Events hs))"

subsection \<open>The number of entries\<close>

definition config_ok :: "DefenderConfig \<Rightarrow> bool" where
  "config_ok c \<longleftrightarrow> df_Enabled c \<and> DefenderConfig_validate c = None \<and> df_EntriesHardLimit c < 2 ^ 62 \<and> df_Threshold c < 2 ^ 62 \<and>
     0 \<le> df_ScoreInvalid c \<and> 0 \<le> df_ScoreValid c \<and> 0 \<le> df_ScoreRateExceeded c \<and>
     df_ObservationTime c * time_Minute < 2 ^ 63 \<and> df_BanTime c * time_Minute < 2 ^ 63 \<and>
     df_BanTime c * df_BanTimeIncrement c < 2 ^ 63 \<and> max 1 (df_BanTime c * df_BanTimeIncrement c div 100) * time_Minute < 2 ^ 63"

lemma config_okD:
  assumes "config_ok c"
  shows "0 < df_EntriesSoftLimit c" "df_EntriesSoftLimit c < df_EntriesHardLimit c" "event_score c e < df_Threshold c"
    "0 \<le> event_score c e" "mul64 (df_ObservationTime c) time_Minute = df_ObservationTime c * time_Minute" "0 < df_ObservationTime c"
    "mul64 (df_BanTime c) time_Minute = df_BanTime c * time_Minute"
proof -
  from assms have v: "df_ScoreInvalid c < df_Threshold c" "df_ScoreValid c < df_Threshold c" "df_ScoreRateExceeded c < df_Threshold c"
    "0 < df_BanTime c" "0 < df_ObservationTime c" "0 < df_EntriesSoftLimit c" "df_EntriesSoftLimit c < df_EntriesHardLimit c"
    by (simp_all add: config_ok_def DefenderConfig_validate_def split: if_split_asm)
  then show "0 < df_EntriesSoftLimit c" "df_EntriesSoftLimit c < df_EntriesHardLimit c" "0 < df_ObservationTime c" by simp_all
  show "event_score c e < df_Threshold c" using v by (cases e) simp_all
  show "0 \<le> event_score c e" using assms by (cases e) (simp_all add: config_ok_def)
  show "mul64 (df_ObservationTime c) time_Minute = df_ObservationTime c * time_Minute"
    "mul64 (df_BanTime c) time_Minute = df_BanTime c * time_Minute"
    using assms v by (simp_all add: config_ok_def mul64_def i64_id in_i64_def)
qed

lemma ban_increment_eq:
  assumes "config_ok c"
  shows "mul64 (ban_increment c) time_Minute = max 1 (df_BanTime c * df_BanTimeIncrement c div 100) * time_Minute"
proof -
  let ?a = "df_BanTime c * df_BanTimeIncrement c"
  have pos: "0 < df_BanTime c" "0 < df_BanTimeIncrement c"
    using assms by (auto simp: config_ok_def DefenderConfig_validate_def split: if_splits)
  then have a: "0 < ?a" "?a < 2 ^ 63" using assms by (simp_all add: config_ok_def)
  then have "mul64 (df_BanTime c) (df_BanTimeIncrement c) = ?a" by (simp add: mul64_def i64_id in_i64_def)
  moreover have "?a div 100 \<le> ?a" "0 \<le> ?a div 100" using a by (simp_all add: div_le_dividend int_div_less_self order_less_imp_le pos_imp_zdiv_nonneg_iff)
  then have "quot64 ?a 100 = ?a div 100" using a by (simp add: quot64_def i64_id in_i64_def)
  ultimately have "ban_increment c = max 1 (?a div 100)" using \<open>0 \<le> ?a div 100\<close> by (auto simp: ban_increment_def Let_def)
  then show ?thesis using assms by (simp add: config_ok_def mul64_def i64_id in_i64_def max_def)
qed

lemma delete_first_get:
  "gm_get (delete_first n l m) = (\<lambda>k. if k \<in> kv_Key ` set (take (nat n) l) then None else gm_get m k)"
  unfolding delete_first_def using gm.get_foldl_del [of m "map kv_Key (take (nat n) l)"]
  by (simp add: foldl_map)

lemma delete_first_wf: "wf_gm m \<Longrightarrow> wf_gm (delete_first n l m)"
  unfolding delete_first_def using gm.wf_foldl_del [of m "map kv_Key (take (nat n) l)"] by (simp add: foldl_map)

lemma delete_expired_get:
  assumes "wf_gm m"
  shows "gm_get (delete_expired now m) k = (case gm_get m k of None \<Rightarrow> None | Some v \<Rightarrow> if v < now then None else Some v)"
proof -
  have loop: "gm_get (foldl (\<lambda>b (k, v). if v < now then gm_del b k else b) b l) k =
      (if \<exists>v. (k, v) \<in> set l \<and> v < now then None else gm_get b k)" for b l :: "(string, int) gomap"
    by (induction l arbitrary: b) (auto simp: gm.get_del)
  have "gm_get (delete_expired now m) k = (if \<exists>v. (k, v) \<in> set m \<and> v < now then None else gm_get m k)"
    unfolding delete_expired_def by (rule loop)
  then show ?thesis by (cases "gm_get m k") (auto simp: gm_get_Some_iff [OF assms, symmetric])
qed

lemma delete_expired_wf: "wf_gm m \<Longrightarrow> wf_gm (delete_expired now m)"
proof -
  have "wf_gm (foldl (\<lambda>b (k, v). if v < now then gm_del b k else b) b l)" if "wf_gm b" for b l
    using that by (induction l arbitrary: b) (auto simp: gm.wf_del)
  then show "wf_gm m \<Longrightarrow> wf_gm (delete_expired now m)" by (simp add: delete_expired_def)
qed

lemma gm_len_less:
  assumes "wf_gm m" "wf_gm m'" "dom (gm_get m') \<subseteq> dom (gm_get m) - {k}" "gm_get m k \<noteq> None"
  shows "gm_len m' < gm_len m"
proof -
  have "dom (gm_get m') \<subset> dom (gm_get m)" using assms(3,4) by blast
  then have "card (dom (gm_get m')) < card (dom (gm_get m))" by (intro psubset_card_mono gm.finite_dom_get)
  then show ?thesis using assms(1,2) by (simp add: gm_len_entries gm.entries_def)
qed

lemma cleanupBanned_get:
  assumes "wf_gm (md_banned d)"
  shows "wf_gm (md_banned (cleanupBanned now d))" "md_hosts (cleanupBanned now d) = md_hosts d"
    "md_config (cleanupBanned now d) = md_config d" "md_safeList (cleanupBanned now d) = md_safeList d"
    "md_blockList (cleanupBanned now d) = md_blockList d"
    "gm_len (md_banned d) \<le> df_EntriesHardLimit (md_config d) \<Longrightarrow> cleanupBanned now d = d"
  using assms by (simp_all add: cleanupBanned_def Let_def delete_expired_wf delete_first_wf)

lemma cleanupBanned_shrinks:
  assumes "wf_gm (md_banned d)" "config_ok (md_config d)" "gm_len (md_banned d) = df_EntriesHardLimit (md_config d) + 1"
  shows "gm_len (md_banned (cleanupBanned now d)) \<le> df_EntriesHardLimit (md_config d)"
proof -
  let ?b = "md_banned d" and ?c = "md_config d"
  let ?x = "delete_expired now ?b" and ?b' = "md_banned (cleanupBanned now d)"
  let ?r = "gm_len ?x - df_EntriesSoftLimit ?c"
  have lim: "0 < df_EntriesSoftLimit ?c" "df_EntriesSoftLimit ?c < df_EntriesHardLimit ?c" "df_EntriesHardLimit ?c < 2 ^ 62"
    using config_okD(1,2) [OF assms(2)] assms(2) by (simp_all add: config_ok_def)
  have sub: "dom (gm_get ?x) \<subseteq> dom (gm_get ?b)" by (auto simp: delete_expired_get [OF assms(1)] split: option.splits)
  then have "gm_len ?x \<le> gm_len ?b"
    using card_mono [OF gm.finite_dom_get sub] by (simp add: gm_len_entries gm.entries_def assms(1) delete_expired_wf)
  then have sub64: "sub64 (gm_len ?x) (df_EntriesSoftLimit ?c) = ?r"
    using lim assms(3) by (simp add: sub64_def i64_id in_i64_def gm_len_def)
  have b': "?b' = (if ?r \<le> 0 then ?x else delete_first ?r (sort_key kv_Value (kvs i64 ?b)) ?x)"
    using assms(3) sub64 by (simp add: cleanupBanned_def Let_def)
  show ?thesis
  proof (cases "dom (gm_get ?x) = dom (gm_get ?b)")
    case False
    then obtain k where "gm_get ?b k \<noteq> None" "gm_get ?x k = None" using sub by blast
    moreover have "dom (gm_get ?b') \<subseteq> dom (gm_get ?x)" by (auto simp: b' delete_first_get split: if_splits)
    ultimately have "gm_len ?b' < gm_len ?b" using sub
      by (intro gm_len_less [OF assms(1) cleanupBanned_get(1) [OF assms(1)], of _ k]) auto
    then show ?thesis using assms(3) by simp
  next
    case True
    then have "gm_len ?x = gm_len ?b" by (simp add: gm_len_entries gm.entries_def assms(1) delete_expired_wf)
    then have r: "0 < ?r" using assms(3) lim by simp
    let ?l = "sort_key kv_Value (kvs i64 ?b)"
    have "length ?l > 0" using assms(3) lim by (simp add: kvs_def) (auto simp: gm_len_def)
    moreover obtain n where n: "nat ?r = Suc n" using r by (cases "nat ?r") auto
    ultimately obtain e where e: "e \<in> set (take (nat ?r) ?l)" unfolding n by (cases ?l) auto
    then have "e \<in> set (kvs i64 ?b)" using in_set_takeD [OF e] by simp
    then have "kv_Key e \<in> fst ` set ?b" by (auto simp: kvs_def intro!: image_eqI)
    then have "gm_get ?b (kv_Key e) \<noteq> None" by (simp add: gm_get_def map_of_eq_None_iff)
    moreover have "dom (gm_get ?b') \<subseteq> dom (gm_get ?x) - {kv_Key e}"
      using r e by (auto simp: b' delete_first_get split: if_splits)
    then have "dom (gm_get ?b') \<subseteq> dom (gm_get ?b) - {kv_Key e}" using sub by blast
    ultimately have "gm_len ?b' < gm_len ?b" by (intro gm_len_less [OF assms(1) cleanupBanned_get(1) [OF assms(1)]])
    then show ?thesis using assms(3) by simp
  qed
qed

lemma distinct_sorted_keys:
  assumes "wf_gm m"
  shows "distinct (map kv_Key (sort_key kv_Value (kvs val m)))" "kv_Key ` set (kvs val m) = dom (gm_get m)"
proof -
  have "map kv_Key (kvs val m) = map fst m" by (simp add: kvs_def comp_def case_prod_unfold)
  then have d: "distinct (map kv_Key (kvs val m))" using assms by (simp add: wf_gm_def)
  then show "distinct (map kv_Key (sort_key kv_Value (kvs val m)))" by (simp add: distinct_map)
  show "kv_Key ` set (kvs val m) = dom (gm_get m)"
    using \<open>map kv_Key (kvs val m) = map fst m\<close> by (metis list.set_map gm.set_keys gm_keys_def)
qed

lemma evict_oldest:
  fixes m :: "(string, 'v) gomap" and val :: "'v \<Rightarrow> int"
  assumes "wf_gm m" "0 \<le> s" "s \<le> gm_len m"
  defines "m' \<equiv> delete_first (gm_len m - s) (sort_key kv_Value (kvs val m)) m"
  shows "gm_len m' = s" "gm_get m' k = Some v \<Longrightarrow> gm_get m k = Some v"
    "gm_get m' k = Some v \<Longrightarrow> gm_get m k' = Some w \<Longrightarrow> gm_get m' k' = None \<Longrightarrow> val w \<le> val v"
proof -
  let ?l = "sort_key kv_Value (kvs val m)" and ?n = "nat (gm_len m - s)"
  note keys = distinct_sorted_keys [OF assms(1), of val]
  have get: "gm_get m' x = (if x \<in> kv_Key ` set (take ?n ?l) then None else gm_get m x)" for x
    by (simp add: m'_def delete_first_get)
  have len: "?n \<le> length ?l" using assms(2,3) by (simp add: kvs_def gm_len_def)
  have "distinct (map kv_Key (take ?n ?l))" using keys(1) by (metis distinct_take take_map)
  moreover have "set (map kv_Key (take ?n ?l)) \<subseteq> dom (gm_get m)"
    unfolding set_map keys(2) [symmetric] using set_take_subset [of ?n ?l] by (simp only: set_sort) blast
  ultimately have "gm.entries (foldl gm_del m (map kv_Key (take ?n ?l))) = gm.entries m - ?n"
    using gm.entries_foldl_del [of "map kv_Key (take ?n ?l)" m] len by simp
  moreover have "m' = foldl gm_del m (map kv_Key (take ?n ?l))" by (simp add: m'_def delete_first_def foldl_map)
  ultimately have "gm.entries m' = gm.entries m - ?n" by simp
  then show "gm_len m' = s"
    using assms(2,3) gm_len_entries [OF assms(1)] gm_len_entries [of m'] delete_first_wf [OF assms(1)] by (simp add: m'_def)
  show "gm_get m' k = Some v \<Longrightarrow> gm_get m k = Some v" by (simp add: get split: if_splits)
  assume k: "gm_get m' k = Some v" and k': "gm_get m k' = Some w" "gm_get m' k' = None"
  have entry: "\<exists>e \<in> set ?l. kv_Key e = x \<and> kv_Value e = val y" if "gm_get m x = Some y" for x y
  proof -
    have "(x, y) \<in> set m" using that gm_get_Some_iff [OF assms(1)] by blast
    then show ?thesis by (intro bexI [of _ "\<lparr>kv_Key = x, kv_Value = val y\<rparr>"]) (auto simp: kvs_def)
  qed
  have uniq: "kv_Value e = val y" if l: "e \<in> set ?l" "gm_get m (kv_Key e) = Some y" for e y
  proof -
    obtain x z where z: "e = \<lparr>kv_Key = x, kv_Value = val z\<rparr>" "(x, z) \<in> set m"
      using l(1) by (auto simp: kvs_def)
    then have "gm_get m x = Some z" using gm_get_Some_iff [OF assms(1)] by blast
    then show ?thesis using l(2) z(1) by simp
  qed
  obtain e' where e': "e' \<in> set (take ?n ?l)" "kv_Key e' = k'" using k' by (auto simp: get split: if_splits)
  obtain e where e: "e \<in> set ?l" "kv_Key e = k" "kv_Value e = val v"
    using entry [of k v] k by (auto simp: get split: if_splits)
  then have "e \<notin> set (take ?n ?l)" using k by (auto simp: get split: if_splits)
  then have "e \<in> set (drop ?n ?l)" using e(1) by (metis UnE append_take_drop_id set_append)
  moreover have "sorted (map kv_Value (take ?n ?l @ drop ?n ?l))" by simp
  then have "\<forall>x \<in> set (map kv_Value (take ?n ?l)). \<forall>y \<in> set (map kv_Value (drop ?n ?l)). x \<le> y"
    unfolding map_append sorted_append by blast
  ultimately have "kv_Value e' \<le> kv_Value e" using e'(1) by (metis image_eqI set_map)
  moreover have "kv_Value e' = val w" using uniq [of e' w] e' k'(1) in_set_takeD [OF e'(1)] by simp
  ultimately show "val w \<le> val v" using e(3) by simp
qed

lemma cleanupHosts_simps:
  assumes "wf_gm (md_hosts d)"
  shows "wf_gm (md_hosts (cleanupHosts d))" "md_banned (cleanupHosts d) = md_banned d" "md_config (cleanupHosts d) = md_config d"
    "md_safeList (cleanupHosts d) = md_safeList d" "md_blockList (cleanupHosts d) = md_blockList d"
    "gm_len (md_hosts d) \<le> df_EntriesHardLimit (md_config d) \<Longrightarrow> cleanupHosts d = d"
  using assms by (simp_all add: cleanupHosts_def Let_def delete_first_wf)

lemma cleanupHosts_result:
  assumes "wf_gm (md_hosts d)" "config_ok (md_config d)" "gm_len (md_hosts d) > df_EntriesHardLimit (md_config d)"
    and "gm_len (md_hosts d) < 2 ^ 63"
  shows "gm_len (md_hosts (cleanupHosts d)) = df_EntriesSoftLimit (md_config d)"
    "gm_get (md_hosts (cleanupHosts d)) k = Some v \<Longrightarrow> gm_get (md_hosts d) k = Some v"
    "gm_get (md_hosts (cleanupHosts d)) k = Some v \<Longrightarrow> gm_get (md_hosts d) k' = Some w \<Longrightarrow>
       gm_get (md_hosts (cleanupHosts d)) k' = None \<Longrightarrow> host_value w \<le> host_value v"
proof -
  let ?m = "md_hosts d" and ?s = "df_EntriesSoftLimit (md_config d)"
  have lim: "0 < ?s" "?s < df_EntriesHardLimit (md_config d)" using config_okD [OF assms(2)] by simp_all
  then have "sub64 (gm_len ?m) ?s = gm_len ?m - ?s" using assms(3,4) by (simp add: sub64_def i64_id in_i64_def gm_len_def)
  then have m': "md_hosts (cleanupHosts d) = delete_first (gm_len ?m - ?s) (sort_key kv_Value (kvs host_value ?m)) ?m"
    using assms(3) by (simp add: cleanupHosts_def Let_def)
  note r = evict_oldest [OF assms(1), of ?s host_value, folded m']
  show "gm_len (md_hosts (cleanupHosts d)) = ?s" using r(1) lim assms(3) by simp
  show "gm_get (md_hosts (cleanupHosts d)) k = Some v \<Longrightarrow> gm_get (md_hosts d) k = Some v" using r(2) lim assms(3) by simp
  show "gm_get (md_hosts (cleanupHosts d)) k = Some v \<Longrightarrow> gm_get (md_hosts d) k' = Some w \<Longrightarrow>
       gm_get (md_hosts (cleanupHosts d)) k' = None \<Longrightarrow> host_value w \<le> host_value v" using r(3) lim assms(3) by simp
qed

text \<open>The bounds on the tables that every operation keeps.\<close>

definition defender_inv :: "'r memoryDefender \<Rightarrow> bool" where
  "defender_inv d \<longleftrightarrow> config_ok (md_config d) \<and> wf_gm (md_hosts d) \<and> wf_gm (md_banned d) \<and>
     countHosts d \<le> df_EntriesHardLimit (md_config d) \<and> countBanned d \<le> df_EntriesHardLimit (md_config d)"

lemma gm_len_put: "wf_gm m \<Longrightarrow> gm_len (gm_put m k v) = (if gm_get m k = None then gm_len m + 1 else gm_len m)"
  by (simp add: gm_len_entries gm.wf_put gm.entries_put)

lemma gm_len_del: "wf_gm m \<Longrightarrow> gm_len (gm_del m k) \<le> gm_len m"
  by (simp add: gm_len_entries gm.wf_del gm.entries_del_le)

lemma AddEvent_inv:
  assumes "defender_inv d"
  shows "defender_inv (Defender_AddEvent R now ip event d)"
proof -
  let ?c = "md_config d"
  have c: "config_ok ?c" "wf_gm (md_hosts d)" "wf_gm (md_banned d)" "gm_len (md_hosts d) \<le> df_EntriesHardLimit ?c"
    "gm_len (md_banned d) \<le> df_EntriesHardLimit ?c" using assms by (simp_all add: defender_inv_def countHosts_def countBanned_def)
  have lim: "0 < df_EntriesSoftLimit ?c" "df_EntriesSoftLimit ?c < df_EntriesHardLimit ?c" "df_EntriesHardLimit ?c < 2 ^ 62"
    using config_okD [OF c(1)] c(1) by (simp_all add: config_ok_def)
  have hosts: "defender_inv (cleanupHosts (d\<lparr>md_hosts := gm_put (md_hosts d) ip h\<rparr>))" for h
  proof -
    let ?d = "d\<lparr>md_hosts := gm_put (md_hosts d) ip h\<rparr>"
    have w: "wf_gm (md_hosts ?d)" "config_ok (md_config ?d)" using c by (simp_all add: gm.wf_put)
    have "gm_len (md_hosts (cleanupHosts ?d)) \<le> df_EntriesHardLimit ?c"
    proof (cases "gm_len (md_hosts ?d) \<le> df_EntriesHardLimit ?c")
      case True
      then show ?thesis using cleanupHosts_simps(6) [OF w(1)] by simp
    next
      case False
      then have "gm_len (md_hosts ?d) < 2 ^ 63" using c(2,4) lim by (simp add: gm_len_put)
      then show ?thesis using cleanupHosts_result(1) [OF w] False lim by simp
    qed
    then show ?thesis using cleanupHosts_simps [OF w(1)] c by (simp add: defender_inv_def countHosts_def countBanned_def)
  qed
  have bans: "defender_inv (cleanupBanned now (d\<lparr>md_banned := gm_put (md_banned d) ip t, md_hosts := gm_del (md_hosts d) ip\<rparr>))" for t
  proof -
    let ?d = "d\<lparr>md_banned := gm_put (md_banned d) ip t, md_hosts := gm_del (md_hosts d) ip\<rparr>"
    have w: "wf_gm (md_banned ?d)" "config_ok (md_config ?d)" using c by (simp_all add: gm.wf_put)
    have "gm_len (md_banned (cleanupBanned now ?d)) \<le> df_EntriesHardLimit ?c"
    proof (cases "gm_len (md_banned ?d) \<le> df_EntriesHardLimit ?c")
      case True
      then show ?thesis using cleanupBanned_get(6) [OF w(1)] by simp
    next
      case False
      then have "gm_len (md_banned ?d) = df_EntriesHardLimit ?c + 1" using c(3,5) by (simp add: gm_len_put split: if_splits)
      then show ?thesis using cleanupBanned_shrinks [OF w] by simp
    qed
    then show ?thesis using cleanupBanned_get(1-5) [OF w(1)] c gm_len_del [OF c(2), of ip]
      by (simp add: defender_inv_def countHosts_def countBanned_def gm.wf_del)
  qed
  have same: "defender_inv (d\<lparr>md_hosts := gm_put (md_hosts d) ip h\<rparr>)" if "gm_get (md_hosts d) ip \<noteq> None" for h
    using that c by (auto simp: defender_inv_def countHosts_def countBanned_def gm.wf_put gm_len_put)
  show ?thesis
    using assms hosts bans same by (auto simp: Defender_AddEvent_def Let_def split: option.split prod.split)
qed

inductive defender_step :: "'r ranger \<Rightarrow> 'r memoryDefender \<Rightarrow> 'r memoryDefender \<Rightarrow> bool" for R where
  step_event: "defender_step R d (Defender_AddEvent R now ip event d)"
| step_check: "defender_step R d (snd (IsBanned R now ip d))"
| step_unban: "defender_step R d (snd (Unban ip d))"
| step_reload: "defender_step R d (snd (Defender_Reload R F d))"

inductive defender_reachable :: "'r ranger \<Rightarrow> DefenderConfig \<Rightarrow> 'r memoryDefender \<Rightarrow> bool" for R c where
  defender_new: "newInMemoryDefender R F c = Inr d \<Longrightarrow> defender_reachable R c d"
| defender_run: "defender_reachable R c d \<Longrightarrow> defender_step R d d' \<Longrightarrow> defender_reachable R c d'"

lemma Reload_simps:
  "md_config (snd (Defender_Reload R F d)) = md_config d" "md_hosts (snd (Defender_Reload R F d)) = md_hosts d"
  "md_banned (snd (Defender_Reload R F d)) = md_banned d"
  by (simp_all add: Defender_Reload_def Let_def split: sum.split)

lemma defender_step_inv:
  assumes "defender_step R d d'" "defender_inv d"
  shows "defender_inv d' \<and> md_config d' = md_config d"
  using assms(1)
proof cases
  case step_event
  then show ?thesis using AddEvent_inv [OF assms(2)] assms(2) cleanupHosts_simps(3) cleanupBanned_get(3)
    by (auto simp: Defender_AddEvent_def Let_def cleanupHosts_def cleanupBanned_def split: option.split prod.split)
next
  case (step_check now ip)
  then show ?thesis using assms(2)
    by (auto simp: IsBanned_def IsBanned_read_def IsBanned_write_def defender_inv_def countHosts_def countBanned_def
        gm.wf_put gm_len_put split: option.split)
next
  case (step_unban ip)
  then show ?thesis using assms(2) gm_len_del [of "md_banned d" ip]
    by (auto simp: Unban_def defender_inv_def countHosts_def countBanned_def gm.wf_del split: option.split)
next
  case step_reload
  then show ?thesis using assms(2) by (simp add: defender_inv_def countHosts_def countBanned_def Reload_simps)
qed


subsection \<open>The defender as a log of events\<close>

text \<open>
  The specification keeps every event of a host since its last ban and every ban, and
  looks at the events of the observation time only.
\<close>

datatype defender_op = Event string HostEvent | Check string | Release string

type_synonym event_log = "string \<Rightarrow> hostEvent list"

definition window_score :: "DefenderConfig \<Rightarrow> int \<Rightarrow> hostEvent list \<Rightarrow> int" where
  "window_score c now es = (\<Sum>e \<leftarrow> filter (\<lambda>e. he_dateTime e + df_ObservationTime c * time_Minute > now) es. he_score e)"

definition spec_do :: "DefenderConfig \<Rightarrow> int \<times> defender_op \<Rightarrow> event_log \<times> (string \<rightharpoonup> int) \<Rightarrow> event_log \<times> (string \<rightharpoonup> int)" where
  "spec_do c act s =
     (case (act, s) of ((now, op), (log, ban)) \<Rightarrow>
        (case op of
           Event ip event \<Rightarrow>
             (let es = log ip @ [\<lparr>he_dateTime = now, he_score = event_score c event\<rparr>] in
              if log ip \<noteq> [] \<and> window_score c now es \<ge> df_Threshold c
              then (log(ip := []), ban(ip \<mapsto> now + df_BanTime c * time_Minute))
              else (log(ip := es), ban))
         | Check ip \<Rightarrow>
             (case ban ip of
                Some t \<Rightarrow>
                  if t > now then (log, ban(ip \<mapsto> t + max 1 (df_BanTime c * df_BanTimeIncrement c div 100) * time_Minute)) else s
              | None \<Rightarrow> s)
         | Release ip \<Rightarrow> (log, ban(ip := None))))"

definition defender_do :: "'r ranger \<Rightarrow> int \<times> defender_op \<Rightarrow> 'r memoryDefender \<Rightarrow> 'r memoryDefender" where
  "defender_do R act d =
     (case act of (now, op) \<Rightarrow>
        (case op of
           Event ip event \<Rightarrow> Defender_AddEvent R now ip event d
         | Check ip \<Rightarrow> snd (IsBanned R now ip d)
         | Release ip \<Rightarrow> snd (Unban ip d)))"

text \<open>
  A stored score has the events of the log that were in the window at some earlier time
  \<open>t\<close>, with a total below the threshold.
\<close>

definition score_of :: "DefenderConfig \<Rightarrow> int \<Rightarrow> hostEvent list \<Rightarrow> hostScore option \<Rightarrow> bool" where
  "score_of c now es hs \<longleftrightarrow>
     (case hs of
        None \<Rightarrow> es = []
      | Some hs \<Rightarrow> es \<noteq> [] \<and> (\<forall>e \<in> set es. 0 \<le> he_score e) \<and>
          (\<exists>t \<le> now. hs_Events hs = filter (in_window c t) es) \<and> (\<Sum>e \<leftarrow> hs_Events hs. he_score e) < df_Threshold c)"

definition log_rel :: "DefenderConfig \<Rightarrow> int \<Rightarrow> string set \<Rightarrow> 'r memoryDefender \<Rightarrow> event_log \<times> (string \<rightharpoonup> int) \<Rightarrow> bool" where
  "log_rel c now ips d s \<longleftrightarrow> md_config d = c \<and> wf_gm (md_hosts d) \<and> wf_gm (md_banned d) \<and> gm_get (md_banned d) = snd s \<and>
     dom (gm_get (md_hosts d)) \<subseteq> ips \<and> dom (snd s) \<subseteq> ips \<and> (\<forall>ip. score_of c now (fst s ip) (gm_get (md_hosts d) ip))"

lemma in_window_eq: "config_ok c \<Longrightarrow> in_window c now e \<longleftrightarrow> he_dateTime e + df_ObservationTime c * time_Minute > now"
  by (simp add: in_window_def config_okD(5))

lemma in_window_mono: "in_window c now e \<Longrightarrow> t \<le> now \<Longrightarrow> in_window c t e"
  by (simp add: in_window_def)

lemma window_score_eq: "config_ok c \<Longrightarrow> window_score c now es = (\<Sum>e \<leftarrow> filter (in_window c now) es. he_score e)"
proof -
  assume "config_ok c"
  then have "in_window c now = (\<lambda>e. he_dateTime e + df_ObservationTime c * time_Minute > now)" by (simp add: in_window_eq fun_eq_iff)
  then show ?thesis by (simp add: window_score_def)
qed

lemma window_loop_eq:
  assumes "\<forall>e \<in> set es. 0 \<le> he_score e" "0 \<le> n" "n + (\<Sum>e \<leftarrow> filter (in_window c now) es. he_score e) < 2 ^ 63"
  shows "window_loop c now n kept es =
    (n + (\<Sum>e \<leftarrow> filter (in_window c now) es. he_score e), kept @ filter (in_window c now) es)"
  using assms
proof (induction es arbitrary: n kept)
  case (Cons e es)
  have "0 \<le> (\<Sum>e \<leftarrow> filter (in_window c now) es. he_score e)" using Cons.prems(1) by (intro sum_list_nonneg) auto
  with Cons show ?case by (auto simp: add64_def i64_id in_i64_def add.assoc)
qed simp

lemma filter_window: "t \<le> now \<Longrightarrow> filter (in_window c now) (filter (in_window c t) es) = filter (in_window c now) es"
  using in_window_mono [of c now _ t] by (auto simp: filter_filter intro: filter_cong)

lemma sum_filter_le:
  assumes "\<forall>e \<in> set es. 0 \<le> he_score e"
  shows "(\<Sum>e \<leftarrow> filter P es. he_score e) \<le> (\<Sum>e \<leftarrow> es. he_score e)"
  using assms by (induction es) auto

lemma score_of_mono: "score_of c now es hs \<Longrightarrow> now \<le> now' \<Longrightarrow> score_of c now' es hs"
proof (cases hs)
  case (Some h)
  moreover assume "score_of c now es hs" "now \<le> now'"
  ultimately show ?thesis unfolding score_of_def Some option.case by (meson order_trans)
qed (simp add: score_of_def)

lemma small_table:
  assumes "wf_gm m" "dom (gm_get m) \<subseteq> ips" "finite ips" "int (card ips) \<le> n"
  shows "gm_len m \<le> n"
  using card_mono [OF assms(3,2)] assms(1,4) by (simp add: gm_len_entries gm.entries_def)

lemma window_step:
  assumes "config_ok c" "score_of c t es (Some hs)" "t \<le> now"
    and "e = \<lparr>he_dateTime = now, he_score = event_score c event\<rparr>"
  shows "window_loop c now 0 [] (hs_Events hs @ [e]) = (window_score c now (es @ [e]), filter (in_window c now) (es @ [e]))"
proof -
  obtain t0 where t0: "t0 \<le> t" "hs_Events hs = filter (in_window c t0) es" and nn: "\<forall>e \<in> set es. 0 \<le> he_score e"
    and thr: "(\<Sum>e \<leftarrow> hs_Events hs. he_score e) < df_Threshold c"
    using assms(2) by (auto simp: score_of_def)
  have f: "filter (in_window c now) (hs_Events hs @ [e]) = filter (in_window c now) (es @ [e])"
    using filter_window [of t0 now c es] t0 assms(3) by simp
  have nn': "\<forall>x \<in> set (hs_Events hs @ [e]). 0 \<le> he_score x" using nn t0(2) assms(4) config_okD(4) [OF assms(1)] by auto
  have "(\<Sum>x \<leftarrow> filter (in_window c now) (hs_Events hs @ [e]). he_score x) \<le> (\<Sum>x \<leftarrow> hs_Events hs @ [e]. he_score x)"
    by (rule sum_filter_le [OF nn'])
  also have "\<dots> < 2 ^ 63"
    using thr config_okD(3) [OF assms(1), of event] assms(1,4) by (simp add: config_ok_def)
  finally show ?thesis using window_loop_eq [OF nn', of 0 c now "[]"] window_score_eq [OF assms(1)] f by simp
qed

lemma log_rel_event:
  assumes "config_ok c" "log_rel c t ips d (log, ban)" "t \<le> now" "ip \<in> ips" "finite ips"
    and "int (card ips) \<le> df_EntriesHardLimit c" "\<not> listed R (md_safeList d) ip"
  shows "log_rel c now ips (Defender_AddEvent R now ip event d) (spec_do c (now, Event ip event) (log, ban)) \<and>
    md_safeList (Defender_AddEvent R now ip event d) = md_safeList d"
proof -
  let ?e = "\<lparr>he_dateTime = now, he_score = event_score c event\<rparr>"
  have r: "md_config d = c" "wf_gm (md_hosts d)" "wf_gm (md_banned d)" "gm_get (md_banned d) = ban"
    "dom (gm_get (md_hosts d)) \<subseteq> ips" "dom ban \<subseteq> ips" using assms(2) by (simp_all add: log_rel_def)
  have sc: "score_of c t (log x) (gm_get (md_hosts d) x)" "score_of c now (log x) (gm_get (md_hosts d) x)" for x
    using assms(2) score_of_mono [OF _ assms(3), of c "log x"] by (simp_all add: log_rel_def)
  have win: "in_window c now ?e" using config_okD(6) [OF assms(1)] by (simp add: in_window_eq [OF assms(1)])
  show ?thesis
  proof (cases "gm_get (md_hosts d) ip")
    case None
    let ?m = "gm_put (md_hosts d) ip \<lparr>hs_TotalScore = he_score ?e, hs_Events = [?e]\<rparr>"
    have m: "wf_gm ?m" "dom (gm_get ?m) \<subseteq> ips" using r assms(4) by (auto simp: gm.wf_put gm.get_put)
    have log: "log ip = []" using sc(1) [of ip] None by (simp add: score_of_def)
    have a: "Defender_AddEvent R now ip event d = d\<lparr>md_hosts := ?m\<rparr>"
      using None assms(7) r(1) cleanupHosts_simps(6) [of "d\<lparr>md_hosts := ?m\<rparr>"] small_table [OF m assms(5,6)] m(1)
      by (simp add: Defender_AddEvent_def Let_def)
    have "score_of c now [?e] (Some \<lparr>hs_TotalScore = he_score ?e, hs_Events = [?e]\<rparr>)"
      using config_okD(3,4) [OF assms(1), of event] win by (auto simp: score_of_def intro!: exI [of _ now])
    then show ?thesis using r sc(2) m log by (auto simp: a spec_do_def log_rel_def gm.get_put)
  next
    case (Some hs)
    let ?es = "log ip @ [?e]"
    have log: "log ip \<noteq> []" "\<forall>e \<in> set (log ip). 0 \<le> he_score e" using sc(1) [of ip] Some by (auto simp: score_of_def)
    have w: "window_loop c now 0 [] (hs_Events hs @ [?e]) = (window_score c now ?es, filter (in_window c now) ?es)"
      using window_step [OF assms(1) _ assms(3) refl] sc(1) [of ip] Some by simp
    show ?thesis
    proof (cases "window_score c now ?es \<ge> df_Threshold c")
      case True
      let ?b = "gm_put (md_banned d) ip (now + df_BanTime c * time_Minute)"
      let ?d = "d\<lparr>md_banned := ?b, md_hosts := gm_del (md_hosts d) ip\<rparr>"
      have b: "wf_gm ?b" "dom (gm_get ?b) \<subseteq> ips" using r assms(4) by (auto simp: gm.wf_put gm.get_put)
      have "Defender_AddEvent R now ip event d = ?d"
        using Some assms(7) r(1) w True cleanupBanned_get(6) [of ?d] small_table [OF b assms(5,6)] b(1) config_okD(7) [OF assms(1)]
        by (simp add: Defender_AddEvent_def Let_def)
      then show ?thesis using r sc(2) b log True
        by (auto simp: spec_do_def log_rel_def gm.get_put gm.get_del gm.wf_del score_of_def Let_def)
    next
      case False
      let ?h = "\<lparr>hs_TotalScore = window_score c now ?es, hs_Events = filter (in_window c now) ?es\<rparr>"
      have a: "Defender_AddEvent R now ip event d = d\<lparr>md_hosts := gm_put (md_hosts d) ip ?h\<rparr>"
        using Some assms(7) r(1) w False by (simp add: Defender_AddEvent_def Let_def)
      have "score_of c now ?es (Some ?h)"
        using log(2) config_okD(4) [OF assms(1), of event] False window_score_eq [OF assms(1), of now ?es]
        by (auto simp: score_of_def intro!: exI [of _ now])
      then show ?thesis using r sc(2) log False assms(4) by (auto simp: a spec_do_def log_rel_def gm.get_put gm.wf_put Let_def)
    qed
  qed
qed

fun op_host :: "defender_op \<Rightarrow> string" where
  "op_host (Event ip _) = ip"
| "op_host (Check ip) = ip"
| "op_host (Release ip) = ip"

lemma log_rel_step:
  assumes "config_ok c" "log_rel c t ips d s" "t \<le> now" "op_host op \<in> ips" "finite ips"
    and "int (card ips) \<le> df_EntriesHardLimit c" "\<not> listed R (md_safeList d) (op_host op)"
  shows "log_rel c now ips (defender_do R (now, op) d) (spec_do c (now, op) s) \<and> md_safeList (defender_do R (now, op) d) = md_safeList d"
proof -
  obtain log ban where s: "s = (log, ban)" by fastforce
  have r: "md_config d = c" "wf_gm (md_hosts d)" "wf_gm (md_banned d)" "gm_get (md_banned d) = ban"
    "dom (gm_get (md_hosts d)) \<subseteq> ips" "dom ban \<subseteq> ips" using assms(2) by (simp_all add: log_rel_def s)
  have sc: "score_of c now (log x) (gm_get (md_hosts d) x)" for x
    using assms(2) score_of_mono [OF _ assms(3), of c "log x"] by (simp add: log_rel_def s)
  show ?thesis
  proof (cases op)
    case (Event ip event)
    then show ?thesis
      using log_rel_event [OF assms(1) assms(2) [unfolded s] assms(3), of ip R event] assms(4-7) by (simp add: defender_do_def s)
  next
    case (Check ip)
    then show ?thesis using r sc assms(4) ban_increment_eq [OF assms(1)]
      by (auto simp: s defender_do_def spec_do_def log_rel_def IsBanned_def IsBanned_read_def IsBanned_write_def gm.get_put
          gm.wf_put split: option.split)
  next
    case (Release ip)
    then show ?thesis using r sc
      by (auto simp: s defender_do_def spec_do_def log_rel_def Unban_def gm.get_del gm.wf_del fun_eq_iff split: option.split)
  qed
qed

lemma log_rel_run:
  assumes "config_ok c" "log_rel c t ips d s" "finite ips" "int (card ips) \<le> df_EntriesHardLimit c"
    and "sorted (t # map fst acts)" "\<forall>a \<in> set acts. op_host (snd a) \<in> ips \<and> \<not> listed R (md_safeList d) (op_host (snd a))"
  shows "log_rel c (last (t # map fst acts)) ips (fold (defender_do R) acts d) (fold (spec_do c) acts s)"
  using assms(2,5,6)
proof (induction acts arbitrary: t d s)
  case (Cons a acts)
  obtain now op where a: "a = (now, op)" by fastforce
  have "t \<le> now" "op_host op \<in> ips" "\<not> listed R (md_safeList d) (op_host op)" using Cons.prems a by simp_all
  from log_rel_step [OF assms(1) Cons.prems(1) this(1,2) assms(3,4) this(3)]
  have "log_rel c now ips (defender_do R a d) (spec_do c a s)" "md_safeList (defender_do R a d) = md_safeList d" by (simp_all add: a)
  then show ?case using Cons.IH [of now "defender_do R a d" "spec_do c a s"] Cons.prems a by simp
qed simp

text \<open>
  C5: The defender implements its specification. As long as the hosts fit into the hard
  limit and are not on the safe list, after any sequence of events, checks and
  releases at increasing times it holds exactly the bans of the specification and
  reports its scores: discarding the events that left the observation time, and
  keeping running totals of machine integers, loses nothing.
\<close>

theorem defender_refines_log:
  assumes "config_ok c" "newInMemoryDefender R F c = Inr d" "finite ips" "int (card ips) \<le> df_EntriesHardLimit c"
    and "sorted (map fst acts @ [now])" "\<forall>a \<in> set acts. op_host (snd a) \<in> ips \<and> \<not> listed R (md_safeList d) (op_host (snd a))"
    and "fold (spec_do c) acts (\<lambda>_. [], \<lambda>_. None) = (log, ban)"
  shows "GetBanTime ip (fold (defender_do R) acts d) = ban ip \<and>
    Defender_GetScore now ip (fold (defender_do R) acts d) = window_score c now (log ip)"
proof -
  let ?d = "fold (defender_do R) acts d" and ?t = "fst (hd (acts @ [(now, Check '''')]))"
  obtain bl sl where d: "d = \<lparr>md_config = c, md_hosts = [], md_banned = [], md_safeList = sl, md_blockList = bl\<rparr>"
    using assms(2) by (auto simp: newInMemoryDefender_def Defender_Reload_def Let_def split: option.splits sum.splits prod.splits)
  have s: "sorted (?t # map fst acts)" "last (?t # map fst acts) \<le> now"
  proof -
    have sorted: "sorted (map fst acts)" and le: "\<And>x. x \<in> set (map fst acts) \<Longrightarrow> x \<le> now"
      using assms(5) by (auto simp: sorted_append)
    show "sorted (?t # map fst acts)"
    proof (cases acts)
      case (Cons a as)
      then show ?thesis using sorted by simp
    qed simp
    show "last (?t # map fst acts) \<le> now"
    proof (cases "acts = []")
      case False
      then show ?thesis using le last_in_set [of "map fst acts"] by simp
    qed simp
  qed
  have "log_rel c ?t ips d (\<lambda>_. [], \<lambda>_. None)" by (simp add: d log_rel_def score_of_def gm_get_def)
  from log_rel_run [OF assms(1) this assms(3,4) s(1)] assms(6,7)
  have rel: "log_rel c (last (?t # map fst acts)) ips ?d (log, ban)" by simp
  then have "md_config ?d = c" "score_of c now (log ip) (gm_get (md_hosts ?d) ip)"
    using score_of_mono [OF _ s(2), of c "log ip"] by (simp_all add: log_rel_def)
  moreover have "foldl (\<lambda>n e. if in_window c now e then add64 n (he_score e) else n) n es =
      fst (window_loop c now n kept es)" for n es kept
    by (induction es arbitrary: n kept) auto
  moreover have "fst (window_loop c now 0 [] (hs_Events hs)) = window_score c now es" if sc: "score_of c now es (Some hs)" for hs es
  proof -
    obtain t where t: "t \<le> now" "hs_Events hs = filter (in_window c t) es" "\<forall>e \<in> set es. 0 \<le> he_score e"
      "(\<Sum>e \<leftarrow> hs_Events hs. he_score e) < df_Threshold c" using sc by (auto simp: score_of_def)
    then have nn: "\<forall>e \<in> set (hs_Events hs). 0 \<le> he_score e" by simp
    have "(\<Sum>e \<leftarrow> filter (in_window c now) (hs_Events hs). he_score e) < 2 ^ 63"
      using sum_filter_le [OF nn, of "in_window c now"] t(4) assms(1) by (simp add: config_ok_def)
    then show ?thesis
      using window_loop_eq [OF nn, of 0 c now "[]"] filter_window [OF t(1), of c es] t(2) window_score_eq [OF assms(1)] by simp
  qed
  ultimately have "Defender_GetScore now ip ?d = window_score c now (log ip)"
    by (cases "gm_get (md_hosts ?d) ip") (auto simp: Defender_GetScore_def score_of_def window_score_def)
  then show ?thesis using rel by (simp add: GetBanTime_def log_rel_def)
qed

text \<open>
  When the scores exceed the hard limit, exactly as many as the soft limit remain,
  unchanged, and no host that was dropped had a later last event than one that stays.
\<close>

theorem cleanupHosts_oldest:
  assumes "wf_gm (md_hosts d)" "config_ok (md_config d)" "countHosts d > df_EntriesHardLimit (md_config d)" "countHosts d < 2 ^ 63"
  shows "countHosts (cleanupHosts d) = df_EntriesSoftLimit (md_config d) \<and>
    (\<forall>k v. gm_get (md_hosts (cleanupHosts d)) k = Some v \<longrightarrow> gm_get (md_hosts d) k = Some v \<and>
       (\<forall>k' w. gm_get (md_hosts d) k' = Some w \<longrightarrow> gm_get (md_hosts (cleanupHosts d)) k' = None \<longrightarrow> host_value w \<le> host_value v))"
  using cleanupHosts_result [OF assms(1,2)] assms(3,4) by (auto simp: countHosts_def)

definition example_ranger :: "IPNet list ranger" where
  "example_ranger = \<lparr>rg_empty = [], rg_insert = (\<lambda>n r. Some (n # r)),
     rg_contains = (\<lambda>r ip. map_option (\<lambda>a. list_ex (\<lambda>n. IPNet_Contains n a) r) ip)\<rparr>"

definition example_defender_config :: DefenderConfig where
  "example_defender_config = \<lparr>df_Enabled = True, df_BanTime = 30, df_BanTimeIncrement = 50, df_Threshold = 5, df_ScoreInvalid = 3,
     df_ScoreValid = 1, df_ScoreRateExceeded = 2, df_ObservationTime = 30, df_EntriesSoftLimit = 1, df_EntriesHardLimit = 2,
     df_SafeListFile = '''', df_BlockListFile = ''''\<rparr>"

abbreviation example_defender :: "IPNet list memoryDefender" where
  "example_defender \<equiv> \<lparr>md_config = example_defender_config, md_hosts = [], md_banned = [], md_safeList = None, md_blockList = None\<rparr>"

lemma example_defender_ok:
  "config_ok example_defender_config" "newInMemoryDefender example_ranger F example_defender_config = Inr example_defender"
  by (simp_all add: config_ok_def example_defender_config_def DefenderConfig_validate_def newInMemoryDefender_def
      Defender_Reload_def loadHostListFromFile_def)


theorem defender_refines_log_witness:
  "GetBanTime ''h'' (fold (defender_do example_ranger)
     [(1, Event ''h'' HostEventUserNotFound), (2, Event ''h'' HostEventUserNotFound), (3, Check ''h'')] example_defender) =
     Some (2 + 30 * time_Minute + 15 * time_Minute)"
proof -
  let ?acts = "[(1, Event ''h'' HostEventUserNotFound), (2, Event ''h'' HostEventUserNotFound), (3, Check ''h'')]"
  have "fold (spec_do example_defender_config) ?acts (\<lambda>_. [], \<lambda>_. None) =
      ((\<lambda>_. [])(''h'' := []), [''h'' \<mapsto> 2 + 30 * time_Minute + 15 * time_Minute])"
    by (simp add: spec_do_def window_score_def example_defender_config_def Let_def)
  from defender_refines_log [OF example_defender_ok, of "{''h''}" ?acts 3, OF _ _ _ _ this, of "''h''"]
  show ?thesis by (simp add: example_defender_config_def listed_def)
qed

end
