(* ===== verification/RateLimiter.thy ===== *)
theory RateLimiter
  imports Defender Complex_Main
begin

text \<open>
  The rate limiters of \<^verbatim>\<open>common/ratelimiter.go\<close>: one bucket for all sources or one for each,
  with a bounded table of them. The token bucket is that of the
  \<^verbatim>\<open>golang.org/x/time/rate\<close> package and a parameter of the model, as is the quotient of
  two floating point numbers.
\<close>

subsection \<open>Configuration\<close>

record RateLimiterConfig =
  rc_Average :: int
  rc_Period :: int
  rc_Burst :: int
  rc_Type :: int
  rc_Protocols :: "string list"
  rc_GenerateDefenderEvents :: bool
  rc_EntriesSoftLimit :: int
  rc_EntriesHardLimit :: int

abbreviation rateLimiterTypeGlobal :: int where "rateLimiterTypeGlobal \<equiv> 1"
abbreviation rateLimiterTypeSource :: int where "rateLimiterTypeSource \<equiv> 2"

definition rateLimiterProtocolValues :: "string list" where
  "rateLimiterProtocolValues = [''SSH'', ''FTP'', ''DAV'', ''HTTP'']"

definition RateLimiterConfig_isEnabled :: "RateLimiterConfig \<Rightarrow> bool" where
  "RateLimiterConfig_isEnabled r = (rc_Average r > 0 \<and> length (rc_Protocols r) > 0)"

definition RateLimiterConfig_validate :: "RateLimiterConfig \<Rightarrow> string option \<times> RateLimiterConfig" where
  "RateLimiterConfig_validate r =
     (if rc_Burst r < 1 then (Some ''invalid burst'', r)
      else if rc_Period r < 100 then (Some ''invalid period'', r)
      else if rc_Type r \<noteq> rateLimiterTypeGlobal \<and> rc_Type r \<noteq> rateLimiterTypeSource then (Some ''invalid type'', r)
      else if rc_Type r \<noteq> rateLimiterTypeGlobal \<and> rc_EntriesSoftLimit r \<le> 0 then (Some ''invalid entries_soft_limit'', r)
      else if rc_Type r \<noteq> rateLimiterTypeGlobal \<and> rc_EntriesHardLimit r \<le> rc_EntriesSoftLimit r
      then (Some ''invalid entries_hard_limit'', r)
      else
        (let r = r\<lparr>rc_Protocols := RemoveDuplicates (rc_Protocols r)\<rparr>
         in if list_ex (\<lambda>p. \<not> IsStringInSlice p rateLimiterProtocolValues) (rc_Protocols r)
            then (Some ''invalid protocol'', r) else (None, r)))"

subsection \<open>Buckets\<close>

text \<open>
  \<open>tb_reserve now\<close> gives the reservation, the delay of an accepted one or \<open>None\<close>, and the new
  bucket; \<open>tb_cancel\<close> gives the tokens back. \<open>tb_quotient\<close> divides two integers as floats.
\<close>

record 'b token_bucket =
  tb_quotient :: "int \<Rightarrow> int \<Rightarrow> rat"
  tb_new :: "rat \<Rightarrow> int \<Rightarrow> 'b"
  tb_reserve :: "int \<Rightarrow> 'b \<Rightarrow> int option \<times> 'b"
  tb_cancel :: "int \<Rightarrow> 'b \<Rightarrow> 'b"

record 'b sourceRateLimiter =
  sr_lastActivity :: int
  sr_bucket :: 'b

record 'b sourceBuckets =
  sb_buckets :: "(string, 'b sourceRateLimiter) gomap"
  sb_hardLimit :: int
  sb_softLimit :: int

record 'b rateLimiter =
  rl_rate :: rat
  rl_burst :: int
  rl_maxDelay :: int
  rl_globalBucket :: "'b option"
  rl_buckets :: "'b sourceBuckets"
  rl_generateDefenderEvents :: bool

definition getLimiter :: "'b token_bucket \<Rightarrow> RateLimiterConfig \<Rightarrow> 'b rateLimiter" where
  "getLimiter B r =
     (let period = mul64 (rc_Period r) 1000000;
          rtl = tb_quotient B (mul64 (rc_Average r) 1000000000) period;
          maxDelay = (if rtl < 1 then quot64 period 2 else quot64 1000000000 (mul64 (i64 \<lfloor>rtl\<rfloor>) 2));
          maxDelay = (if maxDelay > 10000000000 then 10000000000 else maxDelay)
      in \<lparr>rl_rate = rtl, rl_burst = rc_Burst r, rl_maxDelay = maxDelay,
          rl_globalBucket = (if rc_Type r \<noteq> rateLimiterTypeSource then Some (tb_new B rtl (rc_Burst r)) else None),
          rl_buckets = \<lparr>sb_buckets = [], sb_hardLimit = rc_EntriesHardLimit r, sb_softLimit = rc_EntriesSoftLimit r\<rparr>,
          rl_generateDefenderEvents = rc_GenerateDefenderEvents r\<rparr>)"

text \<open>
  The entry read from the map is a copy, so the time written to it by \<open>reserve\<close> is lost;
  the bucket is a pointer, so its new state is kept. The result \<open>None\<close> is \<^verbatim>\<open>errNoBucket\<close>.
\<close>

definition sourceBuckets_reserve ::
    "'b token_bucket \<Rightarrow> int \<Rightarrow> string \<Rightarrow> 'b sourceBuckets \<Rightarrow> int option option \<times> 'b sourceBuckets" where
  "sourceBuckets_reserve B now source b =
     (case gm_get (sb_buckets b) source of
        None \<Rightarrow> (None, b)
      | Some src \<Rightarrow>
          (case tb_reserve B now (sr_bucket src) of
             (res, bucket) \<Rightarrow> (Some res, b\<lparr>sb_buckets := gm_put (sb_buckets b) source (src\<lparr>sr_bucket := bucket\<rparr>)\<rparr>)))"

definition sourceBuckets_cleanup :: "'b sourceBuckets \<Rightarrow> 'b sourceBuckets" where
  "sourceBuckets_cleanup b =
     (if gm_len (sb_buckets b) \<ge> sb_hardLimit b then
        (let numToRemove = sub64 (gm_len (sb_buckets b)) (sb_softLimit b)
         in b\<lparr>sb_buckets := delete_first numToRemove (sort_key kv_Value (kvs sr_lastActivity (sb_buckets b))) (sb_buckets b)\<rparr>)
      else b)"

definition sourceBuckets_addAndReserve ::
    "'b token_bucket \<Rightarrow> int \<Rightarrow> 'b \<Rightarrow> string \<Rightarrow> 'b sourceBuckets \<Rightarrow> int option \<times> 'b sourceBuckets" where
  "sourceBuckets_addAndReserve B now r source b =
     (let b = sourceBuckets_cleanup b in
      case tb_reserve B now r of
        (res, bucket) \<Rightarrow>
          (res, b\<lparr>sb_buckets := gm_put (sb_buckets b) source \<lparr>sr_lastActivity = i64 now, sr_bucket = bucket\<rparr>\<rparr>))"

text \<open>Applying a function to the bucket that a source uses, as \<^verbatim>\<open>Cancel\<close> does.\<close>

definition on_bucket :: "('b \<Rightarrow> 'b) \<Rightarrow> string \<Rightarrow> 'b rateLimiter \<Rightarrow> 'b rateLimiter" where
  "on_bucket f source rl =
     (case rl_globalBucket rl of
        Some g \<Rightarrow> rl\<lparr>rl_globalBucket := Some (f g)\<rparr>
      | None \<Rightarrow>
          (case gm_get (sb_buckets (rl_buckets rl)) source of
             None \<Rightarrow> rl
           | Some src \<Rightarrow>
               rl\<lparr>rl_buckets := (rl_buckets rl)\<lparr>sb_buckets :=
                 gm_put (sb_buckets (rl_buckets rl)) source (src\<lparr>sr_bucket := f (sr_bucket src)\<rparr>)\<rparr>\<rparr>))"

definition wait_reserve :: "'b token_bucket \<Rightarrow> int \<Rightarrow> string \<Rightarrow> 'b rateLimiter \<Rightarrow> int option \<times> 'b rateLimiter" where
  "wait_reserve B now source rl =
     (case rl_globalBucket rl of
        Some g \<Rightarrow> (case tb_reserve B now g of (res, g) \<Rightarrow> (res, rl\<lparr>rl_globalBucket := Some g\<rparr>))
      | None \<Rightarrow>
          (case sourceBuckets_reserve B now source (rl_buckets rl) of
             (Some res, b) \<Rightarrow> (res, rl\<lparr>rl_buckets := b\<rparr>)
           | (None, b) \<Rightarrow>
               (case sourceBuckets_addAndReserve B now (tb_new B (rl_rate rl) (rl_burst rl)) source b of
                  (res, b) \<Rightarrow> (res, rl\<lparr>rl_buckets := b\<rparr>))))"

datatype wait_result = WaitOk int | WaitNoReservation | WaitExceeded int bool

text \<open>
  The result of \<open>Wait\<close>: the time slept, a refused reservation, or a delay over the maximum
  together with whether a defender event is generated.
\<close>

definition RateLimiter_Wait :: "'b token_bucket \<Rightarrow> int \<Rightarrow> string \<Rightarrow> 'b rateLimiter \<Rightarrow> wait_result \<times> 'b rateLimiter" where
  "RateLimiter_Wait B now source rl =
     (case wait_reserve B now source rl of
        (None, rl) \<Rightarrow> (WaitNoReservation, rl)
      | (Some delay, rl) \<Rightarrow>
          if delay > rl_maxDelay rl then
            (WaitExceeded delay (rl_generateDefenderEvents rl \<and> rl_globalBucket rl = None), on_bucket (tb_cancel B now) source rl)
          else (WaitOk delay, rl))"

subsection \<open>The limiters and the defender together\<close>

text \<open>
  The part of the state of \<^verbatim>\<open>common/common.go\<close> that guards connections: the defender, if
  enabled, the limiters, and for each protocol the limiters it goes through, by position.
\<close>

record ('r, 'b) guards =
  gd_defender :: "'r memoryDefender option"
  gd_limiters :: "'b rateLimiter list"
  gd_protocols :: "(string, nat list) gomap"

definition add_limiter :: "'b token_bucket \<Rightarrow> RateLimiterConfig \<Rightarrow> ('r, 'b) guards \<Rightarrow> ('r, 'b) guards" where
  "add_limiter B r g =
     (let i = length (gd_limiters g) in
      g\<lparr>gd_limiters := gd_limiters g @ [getLimiter B r],
        gd_protocols := foldl (\<lambda>m p. gm_put m p ((case gm_get m p of None \<Rightarrow> [] | Some is \<Rightarrow> is) @ [i])) (gd_protocols g) (rc_Protocols r)\<rparr>)"

fun add_limiters :: "'b token_bucket \<Rightarrow> RateLimiterConfig list \<Rightarrow> ('r, 'b) guards \<Rightarrow> string + ('r, 'b) guards" where
  "add_limiters B [] g = Inr g"
| "add_limiters B (r # rs) g =
     (if RateLimiterConfig_isEnabled r then
        (case RateLimiterConfig_validate r of
           (Some e, _) \<Rightarrow> Inl e
         | (None, r) \<Rightarrow> add_limiters B rs (add_limiter B r g))
      else add_limiters B rs g)"

definition Initialize_guards ::
    "'r ranger \<Rightarrow> 'b token_bucket \<Rightarrow> list_files \<Rightarrow> DefenderConfig \<Rightarrow> RateLimiterConfig list \<Rightarrow> string + ('r, 'b) guards" where
  "Initialize_guards R B F c rs =
     (case (if df_Enabled c then map_sum id Some (newInMemoryDefender R F c) else Inr None) of
        Inl e \<Rightarrow> Inl e
      | Inr d \<Rightarrow> add_limiters B rs \<lparr>gd_defender = d, gd_limiters = [], gd_protocols = []\<rparr>)"

definition AddDefenderEvent :: "'r ranger \<Rightarrow> int \<Rightarrow> string \<Rightarrow> HostEvent \<Rightarrow> ('r, 'b) guards \<Rightarrow> ('r, 'b) guards" where
  "AddDefenderEvent R now ip event g =
     (case gd_defender g of None \<Rightarrow> g | Some d \<Rightarrow> g\<lparr>gd_defender := Some (Defender_AddEvent R now ip event d)\<rparr>)"

definition guards_IsBanned :: "'r ranger \<Rightarrow> int \<Rightarrow> string \<Rightarrow> ('r, 'b) guards \<Rightarrow> bool \<times> ('r, 'b) guards" where
  "guards_IsBanned R now ip g =
     (case gd_defender g of
        None \<Rightarrow> (False, g)
      | Some d \<Rightarrow> (case IsBanned R now ip d of (b, d) \<Rightarrow> (b, g\<lparr>gd_defender := Some d\<rparr>)))"

text \<open>\<open>LimitRate\<close> with the clock going on while a limiter sleeps.\<close>

fun limit_loop :: "'r ranger \<Rightarrow> 'b token_bucket \<Rightarrow> int \<Rightarrow> string \<Rightarrow> nat list \<Rightarrow> ('r, 'b) guards \<Rightarrow> int option \<times> ('r, 'b) guards" where
  "limit_loop R B now ip [] g = (None, g)"
| "limit_loop R B now ip (i # is) g =
     (case RateLimiter_Wait B now ip (gd_limiters g ! i) of
        (res, rl) \<Rightarrow>
          (let g = g\<lparr>gd_limiters := (gd_limiters g)[i := rl]\<rparr> in
           case res of
             WaitOk delay \<Rightarrow> limit_loop R B (now + max 0 delay) ip is g
           | WaitNoReservation \<Rightarrow> (Some 0, g)
           | WaitExceeded delay ev \<Rightarrow> (Some delay, if ev then AddDefenderEvent R now ip HostEventRateExceeded g else g)))"

definition LimitRate :: "'r ranger \<Rightarrow> 'b token_bucket \<Rightarrow> int \<Rightarrow> string \<Rightarrow> string \<Rightarrow> ('r, 'b) guards \<Rightarrow> int option \<times> ('r, 'b) guards" where
  "LimitRate R B now protocol ip g =
     limit_loop R B now ip (case gm_get (gd_protocols g) protocol of None \<Rightarrow> [] | Some is \<Rightarrow> is) g"

subsection \<open>Bounded tables of buckets\<close>

definition buckets_ok :: "'b sourceBuckets \<Rightarrow> bool" where
  "buckets_ok b \<longleftrightarrow> wf_gm (sb_buckets b) \<and> 0 < sb_softLimit b \<and> sb_softLimit b < sb_hardLimit b \<and> sb_hardLimit b < 2 ^ 63 \<and>
     gm_len (sb_buckets b) \<le> sb_hardLimit b"

definition limiter_ok :: "'b rateLimiter \<Rightarrow> bool" where
  "limiter_ok rl \<longleftrightarrow> (case rl_globalBucket rl of Some _ \<Rightarrow> sb_buckets (rl_buckets rl) = [] | None \<Rightarrow> buckets_ok (rl_buckets rl))"

lemma cleanup_ok:
  assumes "buckets_ok b"
  shows "buckets_ok (sourceBuckets_cleanup b) \<and> gm_len (sb_buckets (sourceBuckets_cleanup b)) < sb_hardLimit b \<and>
    sb_hardLimit (sourceBuckets_cleanup b) = sb_hardLimit b"
proof (cases "gm_len (sb_buckets b) \<ge> sb_hardLimit b")
  case True
  let ?m = "sb_buckets b"
  have "sub64 (gm_len ?m) (sb_softLimit b) = gm_len ?m - sb_softLimit b"
    using assms by (simp add: buckets_ok_def sub64_def i64_id in_i64_def gm_len_def)
  then have "sourceBuckets_cleanup b = b\<lparr>sb_buckets := delete_first (gm_len ?m - sb_softLimit b)
      (sort_key kv_Value (kvs sr_lastActivity ?m)) ?m\<rparr>" using True by (simp add: sourceBuckets_cleanup_def Let_def)
  moreover have "gm_len (delete_first (gm_len ?m - sb_softLimit b) (sort_key kv_Value (kvs sr_lastActivity ?m)) ?m) = sb_softLimit b"
    using assms True by (intro evict_oldest(1)) (simp_all add: buckets_ok_def)
  ultimately show ?thesis using assms by (simp add: buckets_ok_def delete_first_wf)
next
  case False
  then show ?thesis using assms by (simp add: sourceBuckets_cleanup_def)
qed

lemma buckets_ok_put:
  assumes "buckets_ok b" "gm_get (sb_buckets b) k \<noteq> None \<or> gm_len (sb_buckets b) < sb_hardLimit b"
  shows "buckets_ok (b\<lparr>sb_buckets := gm_put (sb_buckets b) k v\<rparr>)"
  using assms by (auto simp: buckets_ok_def gm.wf_put gm_len_put)

lemma wait_reserve_ok:
  assumes "limiter_ok rl"
  shows "limiter_ok (snd (wait_reserve B now source rl)) \<and>
    (rl_globalBucket (snd (wait_reserve B now source rl)) = None \<longleftrightarrow> rl_globalBucket rl = None)"
proof (cases "rl_globalBucket rl")
  case None
  then have b: "buckets_ok (rl_buckets rl)" using assms by (simp add: limiter_ok_def)
  show ?thesis
  proof (cases "gm_get (sb_buckets (rl_buckets rl)) source")
    case (Some src)
    then show ?thesis using None b buckets_ok_put [of "rl_buckets rl" source]
      by (simp add: wait_reserve_def sourceBuckets_reserve_def limiter_ok_def split: prod.split)
  next
    case none: None
    then show ?thesis using None cleanup_ok [OF b] buckets_ok_put [of "sourceBuckets_cleanup (rl_buckets rl)" source]
      by (simp add: wait_reserve_def sourceBuckets_reserve_def sourceBuckets_addAndReserve_def Let_def limiter_ok_def split: prod.split)
  qed
next
  case (Some g)
  then show ?thesis using assms by (simp add: wait_reserve_def limiter_ok_def split: prod.split)
qed

lemma on_bucket_ok: "limiter_ok rl \<Longrightarrow> limiter_ok (on_bucket f source rl)"
  by (auto simp: on_bucket_def limiter_ok_def buckets_ok_put split: option.splits)

lemma Wait_ok: "limiter_ok rl \<Longrightarrow> limiter_ok (snd (RateLimiter_Wait B now source rl))"
  using wait_reserve_ok [of rl B now source] by (auto simp: RateLimiter_Wait_def on_bucket_ok split: prod.split option.split)

definition guards_ok :: "('r, 'b) guards \<Rightarrow> bool" where
  "guards_ok g \<longleftrightarrow> (\<forall>rl \<in> set (gd_limiters g). limiter_ok rl) \<and>
     (\<forall>p is. gm_get (gd_protocols g) p = Some is \<longrightarrow> (\<forall>i \<in> set is. i < length (gd_limiters g))) \<and>
     (case gd_defender g of None \<Rightarrow> True | Some d \<Rightarrow> defender_inv d)"

lemma AddDefenderEvent_ok:
  assumes "guards_ok g"
  shows "guards_ok (AddDefenderEvent R now ip event g)" "gd_limiters (AddDefenderEvent R now ip event g) = gd_limiters g"
    "gd_protocols (AddDefenderEvent R now ip event g) = gd_protocols g"
  using assms by (auto simp: AddDefenderEvent_def guards_ok_def AddEvent_inv split: option.split)

lemma limit_loop_ok:
  assumes "guards_ok g" "\<forall>i \<in> set is. i < length (gd_limiters g)"
  shows "guards_ok (snd (limit_loop R B now ip is g)) \<and> length (gd_limiters (snd (limit_loop R B now ip is g))) = length (gd_limiters g)"
  using assms
proof (induction "is" arbitrary: now g)
  case (Cons i "is")
  obtain res rl where w: "RateLimiter_Wait B now ip (gd_limiters g ! i) = (res, rl)" by fastforce
  let ?g = "g\<lparr>gd_limiters := (gd_limiters g)[i := rl]\<rparr>"
  have "limiter_ok rl" using Wait_ok [of "gd_limiters g ! i" B now ip] w Cons.prems by (simp add: guards_ok_def)
  then have g: "guards_ok ?g" using Cons.prems set_update_subset_insert [of "gd_limiters g" i rl]
    by (auto simp: guards_ok_def split: option.splits)
  show ?case
  proof (cases res)
    case (WaitOk delay)
    then show ?thesis using Cons.IH [OF g, of "now + max 0 delay"] Cons.prems(2) w by simp
  next
    case WaitNoReservation
    then show ?thesis using g w by simp
  next
    case (WaitExceeded delay ev)
    then show ?thesis using g w AddDefenderEvent_ok [OF g] by (simp add: Let_def)
  qed
qed simp

lemma add_limiter_ok:
  assumes "guards_ok g" "RateLimiterConfig_validate r0 = (None, r)" "rc_EntriesHardLimit r0 < 2 ^ 63"
  shows "guards_ok (add_limiter B r g)"
proof -
  have lim: "rc_Type r = rateLimiterTypeGlobal \<or>
      rc_Type r = rateLimiterTypeSource \<and> 0 < rc_EntriesSoftLimit r \<and> rc_EntriesSoftLimit r < rc_EntriesHardLimit r \<and> rc_EntriesHardLimit r < 2 ^ 63"
    using assms(2,3) by (auto simp: RateLimiterConfig_validate_def Let_def split: if_splits)
  then have "limiter_ok (getLimiter B r)" by (auto simp: getLimiter_def Let_def limiter_ok_def buckets_ok_def gm_len_def)
  have idx: "\<forall>p is. gm_get (foldl (\<lambda>m p. gm_put m p ((case gm_get m p of None \<Rightarrow> [] | Some is \<Rightarrow> is) @ [n])) m ps) p = Some is \<longrightarrow>
      (\<forall>i \<in> set is. i \<le> n)" if "\<forall>p is. gm_get m p = Some is \<longrightarrow> (\<forall>i \<in> set is. i \<le> n)"
    for n :: nat and m :: "(string, nat list) gomap" and ps
    using that
  proof (induction ps arbitrary: m)
    case (Cons q ps)
    then show ?case by (auto simp: gm.get_put intro!: Cons.IH split: option.splits if_splits)
  qed simp
  have "\<forall>p is. gm_get (gd_protocols g) p = Some is \<longrightarrow> (\<forall>i \<in> set is. i \<le> length (gd_limiters g))"
    using assms(1) by (simp add: guards_ok_def less_imp_le)
  from idx [OF this, of "rc_Protocols r"] show ?thesis
    using assms(1) \<open>limiter_ok (getLimiter B r)\<close> by (simp add: guards_ok_def add_limiter_def Let_def less_Suc_eq_le)
qed

lemma add_limiters_ok:
  assumes "guards_ok g" "\<forall>r \<in> set rs. rc_EntriesHardLimit r < 2 ^ 63" "add_limiters B rs g = Inr g'"
  shows "guards_ok g'"
  using assms
proof (induction B rs g rule: add_limiters.induct)
  case (2 B r rs g)
  show ?case
  proof (cases "RateLimiterConfig_isEnabled r")
    case True
    then obtain r' where r': "RateLimiterConfig_validate r = (None, r')" using "2.prems"(3) by (auto split: prod.splits option.splits)
    then show ?thesis using "2.IH"(1) [OF True] add_limiter_ok [OF "2.prems"(1) r'] "2.prems"(2,3) True by auto
  next
    case False
    then show ?thesis using "2.IH"(2) "2.prems" by simp
  qed
qed simp

inductive guards_step :: "'r ranger \<Rightarrow> 'b token_bucket \<Rightarrow> ('r, 'b) guards \<Rightarrow> ('r, 'b) guards \<Rightarrow> bool" for R B where
  guard_limit: "guards_step R B g (snd (LimitRate R B now protocol ip g))"
| guard_event: "guards_step R B g (AddDefenderEvent R now ip event g)"
| guard_check: "guards_step R B g (snd (guards_IsBanned R now ip g))"

inductive guards_reachable ::
    "'r ranger \<Rightarrow> 'b token_bucket \<Rightarrow> DefenderConfig \<Rightarrow> RateLimiterConfig list \<Rightarrow> ('r, 'b) guards \<Rightarrow> bool" for R B c rs where
  guards_init: "Initialize_guards R B F c rs = Inr g \<Longrightarrow> guards_reachable R B c rs g"
| guards_run: "guards_reachable R B c rs g \<Longrightarrow> guards_step R B g g' \<Longrightarrow> guards_reachable R B c rs g'"

lemma new_defender_inv:
  assumes "newInMemoryDefender R F c = Inr d" "config_ok c"
  shows "defender_inv d"
proof -
  have "d = snd (Defender_Reload R F \<lparr>md_config = c, md_hosts = [], md_banned = [], md_safeList = None, md_blockList = None\<rparr>)"
    using assms(1) by (auto simp: newInMemoryDefender_def split: option.splits prod.splits)
  then show ?thesis using assms(2) config_okD(1,2) [OF assms(2)]
    by (simp add: defender_inv_def countHosts_def countBanned_def Reload_simps gm_len_def)
qed

lemma guards_reachable_ok:
  assumes "guards_reachable R B c rs g" "df_Enabled c \<Longrightarrow> config_ok c" "\<forall>r \<in> set rs. rc_EntriesHardLimit r < 2 ^ 63"
  shows "guards_ok g"
  using assms(1)
proof induction
  case (guards_init F g)
  then obtain d where "add_limiters B rs \<lparr>gd_defender = d, gd_limiters = [], gd_protocols = []\<rparr> = Inr g" "case d of None \<Rightarrow> True | Some d \<Rightarrow> defender_inv d"
  proof (cases "df_Enabled c")
    case True
    then obtain d where d: "newInMemoryDefender R F c = Inr d" "add_limiters B rs \<lparr>gd_defender = Some d, gd_limiters = [], gd_protocols = []\<rparr> = Inr g"
      using guards_init by (cases "newInMemoryDefender R F c") (auto simp: Initialize_guards_def)
    then show ?thesis using new_defender_inv [OF d(1)] assms(2) True that [of "Some d"] by simp
  next
    case False
    then show ?thesis using guards_init that [of None] by (simp add: Initialize_guards_def)
  qed
  moreover have "guards_ok \<lparr>gd_defender = d, gd_limiters = [], gd_protocols = []\<rparr>"
    using \<open>case d of None \<Rightarrow> True | Some d \<Rightarrow> defender_inv d\<close> by (simp add: guards_ok_def)
  ultimately show ?case using add_limiters_ok [OF _ assms(3)] by blast
next
  case (guards_run g g')
  from guards_run.hyps(2) show ?case
  proof cases
    case (guard_limit now protocol ip)
    have "\<forall>i \<in> set (case gm_get (gd_protocols g) protocol of None \<Rightarrow> [] | Some is \<Rightarrow> is). i < length (gd_limiters g)"
      using guards_run.IH by (cases "gm_get (gd_protocols g) protocol") (simp_all add: guards_ok_def)
    from limit_loop_ok [OF guards_run.IH this] show ?thesis using guard_limit by (simp add: LimitRate_def)
  next
    case guard_event
    then show ?thesis using guards_run.IH AddDefenderEvent_ok by blast
  next
    case (guard_check now ip)
    show ?thesis
    proof (cases "gd_defender g")
      case (Some d)
      then have "defender_inv (snd (IsBanned R now ip d))"
        using guards_run.IH defender_step_inv [OF step_check [of R d now ip]] by (simp add: guards_ok_def)
      then show ?thesis using guards_run.IH guard_check Some by (simp add: guards_IsBanned_def guards_ok_def split: prod.splits)
    qed (use guards_run.IH guard_check in \<open>simp add: guards_IsBanned_def\<close>)
  qed
qed


text \<open>
  C38: The time of the last activity of a source is only ever set when its bucket is
  created: a further request reserves from the bucket without changing the times by
  which buckets are evicted, so an active source can lose its bucket to an idle one.
\<close>

theorem reserve_keeps_lastActivity:
  assumes "rl_globalBucket rl = None" "gm_get (sb_buckets (rl_buckets rl)) source = Some src"
  shows "map_option sr_lastActivity (gm_get (sb_buckets (rl_buckets (snd (RateLimiter_Wait B now source rl)))) k) =
    map_option sr_lastActivity (gm_get (sb_buckets (rl_buckets rl)) k)"
  using assms
  by (auto simp: RateLimiter_Wait_def wait_reserve_def sourceBuckets_reserve_def on_bucket_def gm.get_put split: prod.split option.split)

definition example_bucket :: "int token_bucket" where
  "example_bucket = \<lparr>tb_quotient = (\<lambda>a b. of_int a / of_int b), tb_new = (\<lambda>r b. b),
     tb_reserve = (\<lambda>now n. (Some (if n > 0 then 0 else 20000000000), n - 1)), tb_cancel = (\<lambda>now n. n + 1)\<rparr>"

definition example_limiter :: RateLimiterConfig where
  "example_limiter = \<lparr>rc_Average = 1, rc_Period = 1000, rc_Burst = 1, rc_Type = 2, rc_Protocols = [''SSH''],
     rc_GenerateDefenderEvents = True, rc_EntriesSoftLimit = 1, rc_EntriesHardLimit = 2\<rparr>"

lemma example_guards:
  "\<exists>g. Initialize_guards example_ranger example_bucket (\<lambda>_. (None, None)) example_defender_config [example_limiter] = Inr g \<and>
     gd_limiters g = [getLimiter example_bucket example_limiter]"
  using example_defender_ok(2)
  by (simp add: Initialize_guards_def RateLimiterConfig_isEnabled_def RateLimiterConfig_validate_def example_limiter_def Let_def
      rateLimiterProtocolValues_def add_limiter_def RemoveDuplicates_eq)


theorem reserve_keeps_lastActivity_witness:
  "let rl = (getLimiter example_bucket example_limiter)\<lparr>rl_buckets := \<lparr>sb_buckets = [(''a'', \<lparr>sr_lastActivity = 3, sr_bucket = 1\<rparr>)],
         sb_hardLimit = 2, sb_softLimit = 1\<rparr>\<rparr>
   in map_option sr_lastActivity (gm_get (sb_buckets (rl_buckets (snd (RateLimiter_Wait example_bucket 99 ''a'' rl)))) ''a'') = Some 3"
  using reserve_keeps_lastActivity [of "(getLimiter example_bucket example_limiter)\<lparr>rl_buckets :=
      \<lparr>sb_buckets = [(''a'', \<lparr>sr_lastActivity = 3, sr_bucket = 1\<rparr>)], sb_hardLimit = 2, sb_softLimit = 1\<rparr>\<rparr>" "''a''"
      "\<lparr>sr_lastActivity = 3, sr_bucket = 1\<rparr>" example_bucket 99 "''a''"]
  by (simp add: getLimiter_def example_limiter_def Let_def gm_get_def)

end
