(* ===== verification/ActiveConnections.thy ===== *)
theory ActiveConnections
  imports Connection RateLimiter
begin

text \<open>
  The registries of \<^verbatim>\<open>common/common.go\<close>: the active connections of all protocols,
  the SSH connections that carry them, the counter of network connections, and the
  running quota scans. A connection is what its interface methods return; what
  leaves the process, closing a connection or running a hook, is an effect.
\<close>

subsection \<open>Connections\<close>

record ActiveConnection =
  ac_ID :: string
  ac_Username :: string
  ac_Protocol :: string
  ac_RemoteAddress :: string
  ac_ClientVersion :: string
  ac_Command :: string
  ac_ConnectionTime :: int
  ac_LastActivity :: int
  ac_Transfers :: "ConnectionTransfer list"

record SSHConnection =
  sc_id :: string
  sc_lastActivity :: int

definition NewSSHConnection :: "int \<Rightarrow> string \<Rightarrow> SSHConnection" where
  "NewSSHConnection now cid = \<lparr>sc_id = cid, sc_lastActivity = now\<rparr>"

definition ssh_UpdateLastActivity :: "int \<Rightarrow> SSHConnection \<Rightarrow> SSHConnection" where
  "ssh_UpdateLastActivity now c = c\<lparr>sc_lastActivity := now\<rparr>"

record ActiveConnections =
  cn_networkConnections :: int
  cn_connections :: "ActiveConnection list"
  cn_sshConnections :: "SSHConnection list"

datatype conn_effect =
    CloseFS string
  | Disconnect string
  | CloseSSH string
  | NoLoginTried string
  | PostLoginHook string string

fun count_sessions :: "string \<Rightarrow> ActiveConnection list \<Rightarrow> int" where
  "count_sessions username [] = 0"
| "count_sessions username (c # cs) = (if ac_Username c = username then 1 else 0) + count_sessions username cs"

definition GetActiveSessions :: "string \<Rightarrow> ActiveConnections \<Rightarrow> int" where
  "GetActiveSessions username conns = count_sessions username (cn_connections conns)"

definition conns_Add :: "ActiveConnection \<Rightarrow> ActiveConnections \<Rightarrow> ActiveConnections" where
  "conns_Add c conns = conns\<lparr>cn_connections := cn_connections conns @ [c]\<rparr>"

definition conns_Swap :: "ActiveConnection \<Rightarrow> ActiveConnections \<Rightarrow> goerr option \<times> ActiveConnections" where
  "conns_Swap c conns =
     (case find_index (\<lambda>conn. ac_ID conn = ac_ID c) (cn_connections conns) of
        Some idx \<Rightarrow> (None, conns\<lparr>cn_connections := (cn_connections conns)[idx := c]\<rparr>)
      | None \<Rightarrow> (Some (OtherErr ''connection to swap not found''), conns))"

definition conns_Remove :: "string \<Rightarrow> ActiveConnections \<Rightarrow> conn_effect list \<times> ActiveConnections" where
  "conns_Remove connectionID conns =
     ((case List.find (\<lambda>conn. ac_ID conn = connectionID) (cn_connections conns) of
         Some conn \<Rightarrow> [CloseFS (ac_ID conn)] | None \<Rightarrow> []),
      conns\<lparr>cn_connections := swap_remove (\<lambda>conn. ac_ID conn = connectionID) (cn_connections conns)\<rparr>)"

definition conns_Close :: "string \<Rightarrow> ActiveConnections \<Rightarrow> bool \<times> conn_effect list" where
  "conns_Close connectionID conns =
     (case List.find (\<lambda>conn. ac_ID conn = connectionID) (cn_connections conns) of
        Some conn \<Rightarrow> (True, [Disconnect (ac_ID conn)])
      | None \<Rightarrow> (False, []))"

definition AddSSHConnection :: "SSHConnection \<Rightarrow> ActiveConnections \<Rightarrow> ActiveConnections" where
  "AddSSHConnection c conns = conns\<lparr>cn_sshConnections := cn_sshConnections conns @ [c]\<rparr>"

definition RemoveSSHConnection :: "string \<Rightarrow> ActiveConnections \<Rightarrow> ActiveConnections" where
  "RemoveSSHConnection connectionID conns =
     conns\<lparr>cn_sshConnections := swap_remove (\<lambda>conn. sc_id conn = connectionID) (cn_sshConnections conns)\<rparr>"

definition AddNetworkConnection :: "ActiveConnections \<Rightarrow> ActiveConnections" where
  "AddNetworkConnection conns = conns\<lparr>cn_networkConnections := i32 (cn_networkConnections conns + 1)\<rparr>"

definition RemoveNetworkConnection :: "ActiveConnections \<Rightarrow> ActiveConnections" where
  "RemoveNetworkConnection conns = conns\<lparr>cn_networkConnections := i32 (cn_networkConnections conns - 1)\<rparr>"

definition IsNewConnectionAllowed :: "int \<Rightarrow> ActiveConnections \<Rightarrow> bool" where
  "IsNewConnectionAllowed maxTotalConnections conns =
     (if maxTotalConnections = 0 then True
      else if cn_networkConnections conns > i32 maxTotalConnections then False
      else int (length (cn_connections conns)) < maxTotalConnections)"

subsection \<open>Idle connections\<close>

text \<open>
  Times and timeouts are in nanoseconds. The calls are deferred, so they run when
  the function returns, the last one registered first. The function deferred for
  an idle FTP client without login reads the loop variable \<^verbatim>\<open>c\<close>: by then it is the
  last connection of the list.
\<close>

record idle_config =
  ic_idleTimeout :: int
  ic_idleLoginTimeout :: int

definition idle_ssh :: "idle_config \<Rightarrow> int \<Rightarrow> ActiveConnections \<Rightarrow> SSHConnection \<Rightarrow> bool" where
  "idle_ssh cf now conns c =
     (now - sc_lastActivity c > ic_idleTimeout cf \<and>
      \<not> list_ex (\<lambda>conn. strings_Contains (ac_ID conn) (''_'' @ sc_id c @ ''_'')) (cn_connections conns))"

definition no_auth_ftp :: "ActiveConnection \<Rightarrow> bool" where
  "no_auth_ftp c = (ac_Protocol c = ProtocolFTP \<and> ac_Username c = '''')"

definition idle_conn :: "idle_config \<Rightarrow> int \<Rightarrow> ActiveConnection \<Rightarrow> bool" where
  "idle_conn cf now c =
     (now - ac_LastActivity c > ic_idleTimeout cf \<or> no_auth_ftp c \<and> now - ac_LastActivity c > ic_idleLoginTimeout cf)"

definition idle_effects :: "ActiveConnection \<Rightarrow> ActiveConnection \<Rightarrow> conn_effect list" where
  "idle_effects c conn =
     Disconnect (ac_ID conn) #
     (if no_auth_ftp conn
      then [NoLoginTried (GetIPFromRemoteAddress (ac_RemoteAddress c)),
            PostLoginHook (GetIPFromRemoteAddress (ac_RemoteAddress c)) (ac_Protocol c)]
      else [])"

definition checkIdles :: "idle_config \<Rightarrow> int \<Rightarrow> ActiveConnections \<Rightarrow> conn_effect list" where
  "checkIdles cf now conns =
     concat (map (idle_effects (last (cn_connections conns))) (rev (filter (idle_conn cf now) (cn_connections conns)))) @
     map (\<lambda>c. CloseSSH (sc_id c)) (rev (filter (idle_ssh cf now conns) (cn_sshConnections conns)))"

text \<open>The events reach the defender.\<close>

definition run_effect :: "'r ranger \<Rightarrow> int \<Rightarrow> conn_effect \<Rightarrow> ('r, 'b) guards \<Rightarrow> ('r, 'b) guards" where
  "run_effect R now e g = (case e of NoLoginTried ip \<Rightarrow> AddDefenderEvent R now ip HostEventNoLoginTried g | _ \<Rightarrow> g)"

subsection \<open>Statistics\<close>

record ConnectionStatus =
  cst_Username :: string
  cst_ConnectionID :: string
  cst_ClientVersion :: string
  cst_RemoteAddress :: string
  cst_ConnectionTime :: int
  cst_LastActivity :: int
  cst_Protocol :: string
  cst_Transfers :: "ConnectionTransfer list"
  cst_Command :: string

definition GetStats :: "ActiveConnections \<Rightarrow> ConnectionStatus list" where
  "GetStats conns =
     map (\<lambda>c. \<lparr>cst_Username = ac_Username c, cst_ConnectionID = ac_ID c, cst_ClientVersion = ac_ClientVersion c,
               cst_RemoteAddress = ac_RemoteAddress c, cst_ConnectionTime = GetTimeAsMsSinceEpoch (ac_ConnectionTime c),
               cst_LastActivity = GetTimeAsMsSinceEpoch (ac_LastActivity c), cst_Protocol = ac_Protocol c,
               cst_Transfers = ac_Transfers c, cst_Command = ac_Command c\<rparr>) (cn_connections conns)"

subsection \<open>Quota scans\<close>

record ActiveQuotaScan =
  qs_Username :: string
  qs_StartTime :: int

record ActiveVirtualFolderQuotaScan =
  vs_Name :: string
  vs_StartTime :: int

record ActiveScans =
  as_UserHomeScans :: "ActiveQuotaScan list"
  as_FolderScans :: "ActiveVirtualFolderQuotaScan list"

definition GetUsersQuotaScans :: "ActiveScans \<Rightarrow> ActiveQuotaScan list" where
  "GetUsersQuotaScans s = as_UserHomeScans s"

definition AddUserQuotaScan :: "int \<Rightarrow> string \<Rightarrow> ActiveScans \<Rightarrow> bool \<times> ActiveScans" where
  "AddUserQuotaScan now username s =
     (if list_ex (\<lambda>scan. qs_Username scan = username) (as_UserHomeScans s) then (False, s)
      else (True, s\<lparr>as_UserHomeScans := as_UserHomeScans s @
                      [\<lparr>qs_Username = username, qs_StartTime = GetTimeAsMsSinceEpoch now\<rparr>]\<rparr>))"

definition RemoveUserQuotaScan :: "string \<Rightarrow> ActiveScans \<Rightarrow> bool \<times> ActiveScans" where
  "RemoveUserQuotaScan username s =
     (case find_index (\<lambda>scan. qs_Username scan = username) (as_UserHomeScans s) of
        Some _ \<Rightarrow> (True, s\<lparr>as_UserHomeScans := swap_remove (\<lambda>scan. qs_Username scan = username) (as_UserHomeScans s)\<rparr>)
      | None \<Rightarrow> (False, s))"

definition GetVFoldersQuotaScans :: "ActiveScans \<Rightarrow> ActiveVirtualFolderQuotaScan list" where
  "GetVFoldersQuotaScans s = as_FolderScans s"

definition AddVFolderQuotaScan :: "int \<Rightarrow> string \<Rightarrow> ActiveScans \<Rightarrow> bool \<times> ActiveScans" where
  "AddVFolderQuotaScan now folderName s =
     (if list_ex (\<lambda>scan. vs_Name scan = folderName) (as_FolderScans s) then (False, s)
      else (True, s\<lparr>as_FolderScans := as_FolderScans s @
                      [\<lparr>vs_Name = folderName, vs_StartTime = GetTimeAsMsSinceEpoch now\<rparr>]\<rparr>))"

definition RemoveVFolderQuotaScan :: "string \<Rightarrow> ActiveScans \<Rightarrow> bool \<times> ActiveScans" where
  "RemoveVFolderQuotaScan folderName s =
     (case find_index (\<lambda>scan. vs_Name scan = folderName) (as_FolderScans s) of
        Some _ \<Rightarrow> (True, s\<lparr>as_FolderScans := swap_remove (\<lambda>scan. vs_Name scan = folderName) (as_FolderScans s)\<rparr>)
      | None \<Rightarrow> (False, s))"

subsection \<open>What a registry promises\<close>

text \<open>
  All registries append new elements and move the last element into the place of a
  removed one. Up to the order they are multisets, and with distinct keys a removal
  takes exactly the element with its key.
\<close>

lemma distinct_submset:
  assumes "mset xs \<subseteq># mset ys" and "distinct ys"
  shows "distinct xs"
proof -
  obtain zs where "mset ys = mset (xs @ zs)"
    using assms(1) by (metis ex_mset mset_append mset_subset_eq_exists_conv)
  then have "distinct (xs @ zs)" using assms(2) mset_eq_imp_distinct_iff by blast
  then show ?thesis by simp
qed

locale registry =
  fixes key :: "'a \<Rightarrow> 'k" and mk :: "'x \<Rightarrow> 'a" and entries :: "'s \<Rightarrow> 'a list"
    and add :: "'x \<Rightarrow> 's \<Rightarrow> 's" and remove :: "'k \<Rightarrow> 's \<Rightarrow> 's"
  assumes add_entries: "key (mk x) \<notin> key ` set (entries s) \<Longrightarrow> entries (add x s) = entries s @ [mk x]"
    and remove_entries: "entries (remove k s) = swap_remove (\<lambda>x. key x = k) (entries s)"
begin

definition keys :: "'s \<Rightarrow> 'k set" where
  "keys s = key ` set (entries s)"

definition distinct_keys :: "'s \<Rightarrow> bool" where
  "distinct_keys s \<longleftrightarrow> distinct (map key (entries s))"

lemma mset_remove: "distinct_keys s \<Longrightarrow> mset (entries (remove k s)) = filter_mset (\<lambda>x. key x \<noteq> k) (mset (entries s))"
  by (simp add: remove_entries mset_swap_remove_key distinct_keys_def)

lemma set_remove: "distinct_keys s \<Longrightarrow> set (entries (remove k s)) = {x \<in> set (entries s). key x \<noteq> k}"
  using mset_remove [of s k] by (metis set_mset_filter set_mset_mset)

lemma keys_add: "key (mk x) \<notin> keys s \<Longrightarrow> keys (add x s) = insert (key (mk x)) (keys s)"
  by (simp add: keys_def add_entries)

lemma keys_remove: "distinct_keys s \<Longrightarrow> keys (remove k s) = keys s - {k}"
  by (auto simp: keys_def set_remove)

lemma distinct_keys_add: "distinct_keys s \<Longrightarrow> key (mk x) \<notin> keys s \<Longrightarrow> distinct_keys (add x s)"
  by (simp add: distinct_keys_def add_entries keys_def)

lemma distinct_keys_remove: "distinct_keys s \<Longrightarrow> distinct_keys (remove k s)"
proof -
  assume d: "distinct_keys s"
  have "image_mset key (filter_mset (\<lambda>x. key x \<noteq> k) (mset (entries s))) \<subseteq># image_mset key (mset (entries s))"
    by (intro image_mset_subseteq_mono multiset_filter_subset)
  then have "mset (map key (entries (remove k s))) \<subseteq># mset (map key (entries s))"
    using mset_remove [OF d] by simp
  then show ?thesis using d distinct_submset unfolding distinct_keys_def by blast
qed

lemma add_remove:
  assumes "distinct_keys s" and "key (mk x) \<notin> keys s"
  shows "mset (entries (remove (key (mk x)) (add x s))) = mset (entries s)"
proof -
  have "\<forall>y \<in> set (entries s). key y \<noteq> key (mk x)" using assms(2) unfolding keys_def by (metis imageI)
  then have "filter (\<lambda>y. key y \<noteq> key (mk x)) (entries s) = entries s" by simp
  then show ?thesis
    using mset_remove [OF distinct_keys_add [OF assms], of "key (mk x)"] assms(2)
    by (simp add: add_entries keys_def flip: mset_filter)
qed

end

interpretation conns: registry ac_ID "\<lambda>c. c" cn_connections conns_Add "\<lambda>k s. snd (conns_Remove k s)"
  by unfold_locales (simp_all add: conns_Add_def conns_Remove_def)

interpretation ssh_conns: registry sc_id "\<lambda>c. c" cn_sshConnections AddSSHConnection RemoveSSHConnection
  by unfold_locales (simp_all add: AddSSHConnection_def RemoveSSHConnection_def)

interpretation transfers: registry bt_ID "\<lambda>t. t" bc_activeTransfers AddTransfer RemoveTransfer
  by unfold_locales (simp_all add: AddTransfer_def RemoveTransfer_def)

lemma swap_remove_absent: "find_index P xs = None \<Longrightarrow> swap_remove P xs = xs"
  by (simp add: swap_remove_def)

interpretation user_scans: registry qs_Username "\<lambda>(now, u). \<lparr>qs_Username = u, qs_StartTime = GetTimeAsMsSinceEpoch now\<rparr>"
  as_UserHomeScans "\<lambda>(now, u) s. snd (AddUserQuotaScan now u s)" "\<lambda>u s. snd (RemoveUserQuotaScan u s)"
  by unfold_locales
    (auto simp: AddUserQuotaScan_def RemoveUserQuotaScan_def list_ex_iff swap_remove_absent split: option.splits prod.splits)

interpretation folder_scans: registry vs_Name "\<lambda>(now, u). \<lparr>vs_Name = u, vs_StartTime = GetTimeAsMsSinceEpoch now\<rparr>"
  as_FolderScans "\<lambda>(now, u) s. snd (AddVFolderQuotaScan now u s)" "\<lambda>u s. snd (RemoveVFolderQuotaScan u s)"
  by unfold_locales
    (auto simp: AddVFolderQuotaScan_def RemoveVFolderQuotaScan_def list_ex_iff swap_remove_absent split: option.splits prod.splits)

subsection \<open>Quota scans exclude each other\<close>

datatype scan_op = AddUser int string | RemoveUser string | AddFolder int string | RemoveFolder string

fun scan_do :: "scan_op \<Rightarrow> ActiveScans \<Rightarrow> bool \<times> ActiveScans" where
  "scan_do (AddUser now u) s = AddUserQuotaScan now u s"
| "scan_do (RemoveUser u) s = RemoveUserQuotaScan u s"
| "scan_do (AddFolder now f) s = AddVFolderQuotaScan now f s"
| "scan_do (RemoveFolder f) s = RemoveVFolderQuotaScan f s"

fun scan_run :: "scan_op list \<Rightarrow> ActiveScans \<Rightarrow> bool list" where
  "scan_run [] s = []"
| "scan_run (q # qs) s = (case scan_do q s of (b, s) \<Rightarrow> b # scan_run qs s)"

text \<open>The specification: the sets of users and folders with a running scan.\<close>

fun scan_spec :: "scan_op \<Rightarrow> string set \<times> string set \<Rightarrow> bool \<times> string set \<times> string set" where
  "scan_spec (AddUser now u) (U, F) = (u \<notin> U, insert u U, F)"
| "scan_spec (RemoveUser u) (U, F) = (u \<in> U, U - {u}, F)"
| "scan_spec (AddFolder now f) (U, F) = (f \<notin> F, U, insert f F)"
| "scan_spec (RemoveFolder f) (U, F) = (f \<in> F, U, F - {f})"

fun scan_spec_run :: "scan_op list \<Rightarrow> string set \<times> string set \<Rightarrow> bool list" where
  "scan_spec_run [] A = []"
| "scan_spec_run (q # qs) A = (case scan_spec q A of (b, A) \<Rightarrow> b # scan_spec_run qs A)"

definition scan_abs :: "ActiveScans \<Rightarrow> string set \<times> string set" where
  "scan_abs s = (user_scans.keys s, folder_scans.keys s)"

definition scans_ok :: "ActiveScans \<Rightarrow> bool" where
  "scans_ok s \<longleftrightarrow> user_scans.distinct_keys s \<and> folder_scans.distinct_keys s"

lemma user_scan_frame:
  "as_FolderScans (snd (AddUserQuotaScan now u s)) = as_FolderScans s" "as_FolderScans (snd (RemoveUserQuotaScan u s)) = as_FolderScans s"
  "as_UserHomeScans (snd (AddVFolderQuotaScan now f s)) = as_UserHomeScans s"
  "as_UserHomeScans (snd (RemoveVFolderQuotaScan f s)) = as_UserHomeScans s"
  by (auto simp: AddUserQuotaScan_def RemoveUserQuotaScan_def AddVFolderQuotaScan_def RemoveVFolderQuotaScan_def split: option.splits)

lemma find_index_ex: "find_index P xs = Some i \<Longrightarrow> \<exists>x \<in> set xs. P x"
  using find_index_SomeD [of P xs i] nth_mem by blast

lemma scan_answers:
  "fst (AddUserQuotaScan now u s) \<longleftrightarrow> u \<notin> user_scans.keys s" "fst (RemoveUserQuotaScan u s) \<longleftrightarrow> u \<in> user_scans.keys s"
  "fst (AddVFolderQuotaScan now f s) \<longleftrightarrow> f \<notin> folder_scans.keys s" "fst (RemoveVFolderQuotaScan f s) \<longleftrightarrow> f \<in> folder_scans.keys s"
  "u \<in> user_scans.keys s \<Longrightarrow> snd (AddUserQuotaScan now u s) = s" "f \<in> folder_scans.keys s \<Longrightarrow> snd (AddVFolderQuotaScan now f s) = s"
  by (auto simp: AddUserQuotaScan_def RemoveUserQuotaScan_def AddVFolderQuotaScan_def RemoveVFolderQuotaScan_def
      user_scans.keys_def folder_scans.keys_def list_ex_iff find_index_None image_iff split: option.splits
      dest!: find_index_ex)

lemma scan_step:
  assumes "scans_ok s"
  shows "scans_ok (snd (scan_do q s)) \<and> scan_spec q (scan_abs s) = (fst (scan_do q s), scan_abs (snd (scan_do q s)))"
proof -
  have frame: "user_scans.keys s' = user_scans.keys s \<and> user_scans.distinct_keys s' = user_scans.distinct_keys s"
    if "as_UserHomeScans s' = as_UserHomeScans s" for s' using that by (simp add: user_scans.keys_def user_scans.distinct_keys_def)
  have frame': "folder_scans.keys s' = folder_scans.keys s \<and> folder_scans.distinct_keys s' = folder_scans.distinct_keys s"
    if "as_FolderScans s' = as_FolderScans s" for s' using that by (simp add: folder_scans.keys_def folder_scans.distinct_keys_def)
  show ?thesis
  proof (cases q)
    case (AddUser now u)
    then show ?thesis
      using assms frame' [OF user_scan_frame(1)] user_scans.keys_add [of "(now, u)" s] user_scans.distinct_keys_add [of s "(now, u)"]
        scan_answers(1) [of now u s] scan_answers(5) [of u s now]
      by (cases "u \<in> user_scans.keys s") (auto simp: scans_ok_def scan_abs_def)
  next
    case (RemoveUser u)
    then show ?thesis
      using assms frame' [OF user_scan_frame(2)] user_scans.keys_remove [of s u] user_scans.distinct_keys_remove [of s u]
        scan_answers(2) [of u s] by (auto simp: scans_ok_def scan_abs_def)
  next
    case (AddFolder now f)
    then show ?thesis
      using assms frame [OF user_scan_frame(3)] folder_scans.keys_add [of "(now, f)" s] folder_scans.distinct_keys_add [of s "(now, f)"]
        scan_answers(3) [of now f s] scan_answers(6) [of f s now]
      by (cases "f \<in> folder_scans.keys s") (auto simp: scans_ok_def scan_abs_def)
  next
    case (RemoveFolder f)
    then show ?thesis
      using assms frame [OF user_scan_frame(4)] folder_scans.keys_remove [of s f] folder_scans.distinct_keys_remove [of s f]
        scan_answers(4) [of f s] by (auto simp: scans_ok_def scan_abs_def)
  qed
qed

lemma scan_run_spec: "scans_ok s \<Longrightarrow> scan_run qs s = scan_spec_run qs (scan_abs s)"
proof (induction qs arbitrary: s)
  case (Cons q qs)
  show ?case using scan_step [OF Cons.prems, of q] Cons.IH [of "snd (scan_do q s)"]
    by (cases "scan_do q s") simp
qed simp

text \<open>
  C26: the registry of quota scans implements two sets, of users and of folders:
  whatever the order of the requests, a scan may start exactly when none of the
  same user or folder is running, and ending one answers whether it was running.
\<close>

theorem scans_refine_set:
  "scan_run qs \<lparr>as_UserHomeScans = [], as_FolderScans = []\<rparr> = scan_spec_run qs ({}, {})"
proof -
  let ?s = "\<lparr>as_UserHomeScans = [], as_FolderScans = []\<rparr>"
  have "scans_ok ?s" by (simp add: scans_ok_def user_scans.distinct_keys_def folder_scans.distinct_keys_def)
  moreover have "scan_abs ?s = ({}, {})" by (simp add: scan_abs_def user_scans.keys_def folder_scans.keys_def)
  ultimately show ?thesis using scan_run_spec by metis
qed

subsection \<open>Who is blamed for an idle login\<close>

lemma idle_effects_blame:
  "NoLoginTried ip \<in> set (idle_effects c conn) \<Longrightarrow> ip = GetIPFromRemoteAddress (ac_RemoteAddress c) \<and> no_auth_ftp conn"
  by (auto simp: idle_effects_def split: if_splits)

text \<open>
  C37: the defender event for an FTP client that never logged in is always recorded
  against the host of the last connection of the list, whichever client was idle.
\<close>

theorem checkIdles_blames_last:
  assumes "NoLoginTried ip \<in> set (checkIdles cf now conns)"
  shows "ip = GetIPFromRemoteAddress (ac_RemoteAddress (last (cn_connections conns))) \<and>
    (\<exists>conn \<in> set (cn_connections conns). no_auth_ftp conn \<and> idle_conn cf now conn)"
  using assms by (auto simp: checkIdles_def dest!: idle_effects_blame)

definition idle_client :: ActiveConnection where
  "idle_client = \<lparr>ac_ID = ''FTP_1'', ac_Username = '''', ac_Protocol = ProtocolFTP, ac_RemoteAddress = ''192.0.2.1:5000'',
     ac_ClientVersion = '''', ac_Command = '''', ac_ConnectionTime = 0, ac_LastActivity = 0, ac_Transfers = []\<rparr>"

definition busy_client :: ActiveConnection where
  "busy_client = \<lparr>ac_ID = ''SFTP_2'', ac_Username = ''u'', ac_Protocol = ProtocolSFTP, ac_RemoteAddress = ''198.51.100.7:6000'',
     ac_ClientVersion = '''', ac_Command = '''', ac_ConnectionTime = 0, ac_LastActivity = 130, ac_Transfers = []\<rparr>"

theorem checkIdles_blames_last_witness:
  "let conns = \<lparr>cn_networkConnections = 2, cn_connections = [idle_client, busy_client], cn_sshConnections = []\<rparr>;
       cf = \<lparr>ic_idleTimeout = 900, ic_idleLoginTimeout = 120\<rparr>
   in NoLoginTried ''198.51.100.7'' \<in> set (checkIdles cf 130 conns) \<and>
      (\<forall>ip. NoLoginTried ip \<in> set (checkIdles cf 130 conns) \<longrightarrow> ip \<noteq> ''192.0.2.1'') \<and> \<not> idle_conn cf 130 busy_client"
proof -
  let ?c = "\<lparr>cn_networkConnections = 2, cn_connections = [idle_client, busy_client], cn_sshConnections = []\<rparr>"
  let ?f = "\<lparr>ic_idleTimeout = 900, ic_idleLoginTimeout = 120\<rparr>"
  have "GetIPFromRemoteAddress (ac_RemoteAddress (last (cn_connections ?c))) = ''198.51.100.7''" by code_simp
  then have "NoLoginTried ip \<in> set (checkIdles ?f 130 ?c) \<Longrightarrow> ip = ''198.51.100.7''" for ip
    using checkIdles_blames_last [of ip ?f 130 ?c] by (simp only:)
  then have "NoLoginTried ip \<in> set (checkIdles ?f 130 ?c) \<Longrightarrow> ip \<noteq> ''192.0.2.1''" for ip
    by fastforce
  moreover have "NoLoginTried ''198.51.100.7'' \<in> set (checkIdles ?f 130 ?c)" by code_simp
  moreover have "\<not> idle_conn ?f 130 busy_client" by code_simp
  ultimately show ?thesis unfolding Let_def by blast
qed

end
