(* ===== verification/Spec2Isabelle.thy ===== *)
theory Spec2Isabelle
  imports LoginCoherence ConnectionSafety UploadAccounting ActiveConnections
begin

text \<open>
  A verification development of SFTPGo.
\<close>

end
